theory Spec2Isabelle
  imports Complex_Main "HOL-Library.Word" "HOL-Library.Log_Nat"
begin

unbundle bit_operations_syntax

section \<open>Session geometry\<close>

text \<open>
  The three programs (\<^verbatim>\<open>DXGI_version/main_dxgi.cpp\<close>, \<^verbatim>\<open>GDI_version/main_gdi.cpp\<close>,
  \<^verbatim>\<open>GDI_version/main.cpp\<close>) share the same \<^verbatim>\<open>constexpr int\<close> geometry.
\<close>

definition SOURCE_WIDTH :: int where "SOURCE_WIDTH = 1920"
definition SOURCE_HEIGHT :: int where "SOURCE_HEIGHT = 1080"
definition RENDER_WIDTH :: int where "RENDER_WIDTH = 1440"
definition RENDER_HEIGHT :: int where "RENDER_HEIGHT = 1080"
definition OUTPUT_WIDTH :: int where "OUTPUT_WIDTH = 1920"
definition OUTPUT_HEIGHT :: int where "OUTPUT_HEIGHT = 1080"
definition FIRST_MONITOR_X :: int where "FIRST_MONITOR_X = 0"
definition FIRST_MONITOR_Y :: int where "FIRST_MONITOR_Y = 0"
definition TARGET_FPS :: int where "TARGET_FPS = 60"

text \<open>C++ \<^verbatim>\<open>/\<close> on \<^verbatim>\<open>int\<close> truncates towards zero.\<close>

definition cdiv :: "int \<Rightarrow> int \<Rightarrow> int" where
  "cdiv a b = sgn a * sgn b * (\<bar>a\<bar> div \<bar>b\<bar>)"

definition FRAME_TIME_MS :: int where
  "FRAME_TIME_MS = cdiv 1000 TARGET_FPS"

section \<open>Bytes, faults and loop ranges\<close>

type_synonym byte = "8 word"

text \<open>
  Undefined behaviour of the C++ (a read past the end of the shape buffer, a call through
  a null interface pointer, an \<^verbatim>\<open>int\<close> operation that overflows, a cast of a \<^verbatim>\<open>double\<close> to an
  integer type that cannot hold it) and the uncaught \<^verbatim>\<open>std::bad_array_new_length\<close> of a
  \<^verbatim>\<open>new[]\<close> with a negative size are values of the model, never unspecified HOL terms.
\<close>

datatype fault = OutOfBounds | NullDeref | SignedOverflow | BadArrayLength | CastOutOfRange

text \<open>
  \<^verbatim>\<open>UINT\<close> and \<^verbatim>\<open>DWORD\<close> are 32 bits wide and \<^verbatim>\<open>int\<close> is 32 bits in two's complement
  (the Windows ABI). A \<^verbatim>\<open>UINT\<close> stored into an \<^verbatim>\<open>int\<close> keeps its bits (\<open>sint\<close>); an operation
  with a \<^verbatim>\<open>UINT\<close> operand is done in \<^verbatim>\<open>UINT\<close> and wraps; an \<^verbatim>\<open>int\<close> operation whose result does
  not fit is undefined.
\<close>

type_synonym UINT = "32 word"

definition INT_MAX :: int where "INT_MAX = 2147483647"
definition INT_MIN :: int where "INT_MIN = - 2147483648"

definition int_add :: "int \<Rightarrow> int \<Rightarrow> fault + int" where
  "int_add a b = (if INT_MIN \<le> a + b \<and> a + b \<le> INT_MAX then Inr (a + b) else Inl SignedOverflow)"

definition int_mul :: "int \<Rightarrow> int \<Rightarrow> fault + int" where
  "int_mul a b = (if INT_MIN \<le> a * b \<and> a * b \<le> INT_MAX then Inr (a * b) else Inl SignedOverflow)"

text \<open>\<^verbatim>\<open>for (int i = 0; i < n; i++)\<close> visits \<open>0, 1, \<dots>, n - 1\<close>, and nothing when \<open>n \<le> 0\<close>.\<close>

definition loop_range :: "int \<Rightarrow> int list" where
  "loop_range n = map int [0..<nat n]"

text \<open>\<^verbatim>\<open>shapeBuffer[i]\<close> on a buffer of \<open>length buf\<close> bytes.\<close>

definition read_byte :: "byte list \<Rightarrow> int \<Rightarrow> fault + byte" where
  "read_byte buf i =
     (if 0 \<le> i \<and> i < int (length buf) then Inr (buf ! nat i) else Inl OutOfBounds)"

text \<open>
  A loop whose iteration \<open>i\<close> fills the next group of cells of a freshly allocated
  buffer: the groups are concatenated in iteration order, and the first faulting
  iteration ends the loop.
\<close>

fun collect :: "('a \<Rightarrow> fault + 'b list) \<Rightarrow> 'a list \<Rightarrow> fault + 'b list" where
  "collect f [] = Inr []"
| "collect f (i # is) =
     (case f i of
        Inl e \<Rightarrow> Inl e
      | Inr r \<Rightarrow> (case collect f is of Inl e \<Rightarrow> Inl e | Inr rs \<Rightarrow> Inr (r @ rs)))"

section \<open>Cursor Reconstructor: \<^verbatim>\<open>UpdateCursorShape\<close> (main_dxgi.cpp)\<close>

text \<open>
  \<^verbatim>\<open>DXGI_OUTDUPL_POINTER_SHAPE_INFO\<close>: \<^verbatim>\<open>Type\<close>, \<^verbatim>\<open>Width\<close>, \<^verbatim>\<open>Height\<close> and \<^verbatim>\<open>Pitch\<close> are
  \<^verbatim>\<open>UINT\<close>, the hot spot is a \<^verbatim>\<open>POINT\<close>. The type tags are the values of
  \<^verbatim>\<open>dxgi1_2.h\<close>; any other number is an unsupported variant.
\<close>

record pointer_shape_info =
  shape_Type :: UINT
  shape_Width :: UINT
  shape_Height :: UINT
  shape_Pitch :: UINT
  shape_HotSpot_x :: int
  shape_HotSpot_y :: int

definition DXGI_OUTDUPL_POINTER_SHAPE_TYPE_MONOCHROME :: UINT where
  "DXGI_OUTDUPL_POINTER_SHAPE_TYPE_MONOCHROME = 1"
definition DXGI_OUTDUPL_POINTER_SHAPE_TYPE_COLOR :: UINT where
  "DXGI_OUTDUPL_POINTER_SHAPE_TYPE_COLOR = 2"
definition DXGI_OUTDUPL_POINTER_SHAPE_TYPE_MASKED_COLOR :: UINT where
  "DXGI_OUTDUPL_POINTER_SHAPE_TYPE_MASKED_COLOR = 4"

text \<open>
  The cursor globals \<^verbatim>\<open>g_CursorBuffer\<close> (\<open>None\<close> is \<^verbatim>\<open>nullptr\<close>), \<^verbatim>\<open>g_CursorWidth\<close>,
  \<^verbatim>\<open>g_CursorHeight\<close>, \<^verbatim>\<open>g_CursorHotspotX\<close>, \<^verbatim>\<open>g_CursorHotspotY\<close>. The buffer holds
  straight BGRA, four bytes a pixel, rows of \<^verbatim>\<open>g_CursorWidth\<close> pixels.
\<close>

record cursor_state =
  g_CursorBuffer :: "byte list option"
  g_CursorWidth :: int
  g_CursorHeight :: int
  g_CursorHotspotX :: int
  g_CursorHotspotY :: int

definition no_cursor :: cursor_state where
  "no_cursor = \<lparr>g_CursorBuffer = None, g_CursorWidth = 0, g_CursorHeight = 0,
                 g_CursorHotspotX = 0, g_CursorHotspotY = 0\<rparr>"

text \<open>
  \<^verbatim>\<open>new BYTE[g_CursorWidth * g_CursorHeight * 4]\<close>: the size is an \<^verbatim>\<open>int\<close> expression, and a
  negative size throws. An allocation of a valid size is taken to succeed.
\<close>

definition new_BYTE :: "int \<Rightarrow> int \<Rightarrow> fault + nat" where
  "new_BYTE w h =
     (case int_mul w h of
        Inl e \<Rightarrow> Inl e
      | Inr wh \<Rightarrow>
          (case int_mul wh 4 of
             Inl e \<Rightarrow> Inl e
           | Inr n \<Rightarrow> if n < 0 then Inl BadArrayLength else Inr (nat n)))"

text \<open>
  The \<open>n\<close> bytes of the new array after the loops: \<open>cells\<close> is what the loops stored, in
  index order. The loops store every byte unless width and height are both negative;
  then \<open>n\<close> is positive, nothing is stored and no loop of the program reads the bitmap
  (each runs from 0 up to a negative bound). Those indeterminate bytes show as 0 here.
\<close>

definition stored :: "nat \<Rightarrow> byte list \<Rightarrow> byte list" where
  "stored n cells = cells @ replicate (n - length cells) 0"

text \<open>
  One iteration of the monochrome loop, for row \<open>y\<close> and column \<open>x\<close>: the four bytes
  stored at \<^verbatim>\<open>destIdx = (y * g_CursorWidth + x) * 4\<close>. \<open>h\<close> is the halved height.
  \<^verbatim>\<open>byteIdx = y * shapeInfo->Pitch + x / 8\<close> is computed in \<^verbatim>\<open>UINT\<close> and stored in an
  \<^verbatim>\<open>int\<close>; the index of the XOR byte, \<^verbatim>\<open>byteIdx + g_CursorHeight * shapeInfo->Pitch\<close>, is a
  \<^verbatim>\<open>UINT\<close>, added to the pointer as it is (a 64-bit process).
\<close>

definition mono_pixel :: "byte list \<Rightarrow> UINT \<Rightarrow> int \<Rightarrow> int \<Rightarrow> int \<Rightarrow> fault + byte list" where
  "mono_pixel shapeBuffer Pitch h y x =
     (let byteIdx = sint (word_of_int y * Pitch + word_of_int (x div 8) :: UINT);
          bitIdx = 7 - (x mod 8)
      in case read_byte shapeBuffer byteIdx of
           Inl e \<Rightarrow> Inl e
         | Inr a \<Rightarrow>
            (case read_byte shapeBuffer
                    (uint (word_of_int byteIdx + word_of_int h * Pitch :: UINT)) of
               Inl e \<Rightarrow> Inl e
             | Inr b \<Rightarrow>
                (let andBit = drop_bit (nat bitIdx) (uint a) AND 1;
                     xorBit = drop_bit (nat bitIdx) (uint b) AND 1
                 in Inr (if andBit = 0 \<and> xorBit = 0 then [0, 0, 0, 255]
                         else if andBit = 0 \<and> xorBit = 1 then [255, 255, 255, 255]
                         else if andBit = 1 \<and> xorBit = 0 then [0, 0, 0, 0]
                         else [255, 255, 255, 128]))))"

text \<open>
  One \<^verbatim>\<open>memcpy\<close> of the colour loop: \<open>w * 4\<close> bytes from the offset
  \<^verbatim>\<open>y * shapeInfo->Pitch\<close>, a \<^verbatim>\<open>UINT\<close>. A copy of no bytes reads nothing.
\<close>

definition color_row :: "byte list \<Rightarrow> UINT \<Rightarrow> int \<Rightarrow> int \<Rightarrow> fault + byte list" where
  "color_row shapeBuffer Pitch w y =
     (let offset = uint (word_of_int y * Pitch :: UINT)
      in if w * 4 = 0 then Inr []
         else if offset + w * 4 \<le> int (length shapeBuffer)
         then Inr (take (nat (w * 4)) (drop (nat offset) shapeBuffer))
         else Inl OutOfBounds)"

text \<open>
  One iteration of the masked-colour loop. \<^verbatim>\<open>srcIdx = y * shapeInfo->Pitch + x * 4\<close> is
  computed in \<^verbatim>\<open>UINT\<close> and stored in an \<^verbatim>\<open>int\<close>; \<^verbatim>\<open>srcIdx + 3\<close> is an \<^verbatim>\<open>int\<close> sum.
\<close>

definition masked_pixel :: "byte list \<Rightarrow> UINT \<Rightarrow> int \<Rightarrow> int \<Rightarrow> fault + byte list" where
  "masked_pixel shapeBuffer Pitch y x =
     (let srcIdx = sint (word_of_int y * Pitch + word_of_int (x * 4) :: UINT)
      in case int_add srcIdx 3 of
           Inl e \<Rightarrow> Inl e
         | Inr i3 \<Rightarrow>
          (case read_byte shapeBuffer i3 of
             Inl e \<Rightarrow> Inl e
           | Inr maskB \<Rightarrow>
              (case read_byte shapeBuffer (srcIdx + 0) of
                 Inl e \<Rightarrow> Inl e
               | Inr c0 \<Rightarrow>
                  (case read_byte shapeBuffer (srcIdx + 1) of
                     Inl e \<Rightarrow> Inl e
                   | Inr c1 \<Rightarrow>
                      (case read_byte shapeBuffer (srcIdx + 2) of
                         Inl e \<Rightarrow> Inl e
                       | Inr c2 \<Rightarrow>
                          Inr (if maskB \<noteq> 0 then [c0, c1, c2, 128]
                               else [c0, c1, c2, 255]))))))"

text \<open>
  \<^verbatim>\<open>UpdateCursorShape\<close>. The old buffer is deleted and the four scalars are overwritten
  before the type is even looked at; a type that is none of the three leaves the buffer
  null. Each branch allocates \<^verbatim>\<open>new BYTE[w * h * 4]\<close> and its loops store the cells in
  increasing index order, hence \<open>collect\<close>. The monochrome branch halves the height in
  \<^verbatim>\<open>UINT\<close> and computes \<^verbatim>\<open>widthBytes = (g_CursorWidth + 7) / 8\<close>, which it never uses.
\<close>

definition UpdateCursorShape ::
  "pointer_shape_info \<Rightarrow> byte list \<Rightarrow> cursor_state \<Rightarrow> fault + cursor_state" where
  "UpdateCursorShape shapeInfo shapeBuffer st =
     (let st1 = st\<lparr>g_CursorBuffer := None,
                   g_CursorWidth := sint (shape_Width shapeInfo),
                   g_CursorHeight := sint (shape_Height shapeInfo),
                   g_CursorHotspotX := shape_HotSpot_x shapeInfo,
                   g_CursorHotspotY := shape_HotSpot_y shapeInfo\<rparr>;
          Pitch = shape_Pitch shapeInfo
      in if shape_Type shapeInfo = DXGI_OUTDUPL_POINTER_SHAPE_TYPE_MONOCHROME then
           (let st2 = st1\<lparr>g_CursorHeight := sint (shape_Height shapeInfo div 2)\<rparr>;
                w = g_CursorWidth st2; h = g_CursorHeight st2
            in case new_BYTE w h of
                 Inl e \<Rightarrow> Inl e
               | Inr n \<Rightarrow>
                  (case int_add w 7 of
                     Inl e \<Rightarrow> Inl e
                   | Inr widthBytes8 \<Rightarrow>
                      (case collect (\<lambda>y. collect (mono_pixel shapeBuffer Pitch h y) (loop_range w))
                              (loop_range h) of
                         Inl e \<Rightarrow> Inl e
                       | Inr cells \<Rightarrow> Inr (st2\<lparr>g_CursorBuffer := Some (stored n cells)\<rparr>))))
         else if shape_Type shapeInfo = DXGI_OUTDUPL_POINTER_SHAPE_TYPE_COLOR then
           (let w = g_CursorWidth st1; h = g_CursorHeight st1
            in case new_BYTE w h of
                 Inl e \<Rightarrow> Inl e
               | Inr n \<Rightarrow>
                  (case collect (color_row shapeBuffer Pitch w) (loop_range h) of
                     Inl e \<Rightarrow> Inl e
                   | Inr cells \<Rightarrow> Inr (st1\<lparr>g_CursorBuffer := Some (stored n cells)\<rparr>)))
         else if shape_Type shapeInfo = DXGI_OUTDUPL_POINTER_SHAPE_TYPE_MASKED_COLOR then
           (let w = g_CursorWidth st1; h = g_CursorHeight st1
            in case new_BYTE w h of
                 Inl e \<Rightarrow> Inl e
               | Inr n \<Rightarrow>
                  (case collect (\<lambda>y. collect (masked_pixel shapeBuffer Pitch y) (loop_range w))
                          (loop_range h) of
                     Inl e \<Rightarrow> Inl e
                   | Inr cells \<Rightarrow> Inr (st1\<lparr>g_CursorBuffer := Some (stored n cells)\<rparr>)))
         else Inr st1)"


section \<open>Textures and mapped memory\<close>

text \<open>
  A \<^verbatim>\<open>DXGI_FORMAT_B8G8R8A8_UNORM\<close> texel: its four bytes in memory order. A texture is
  its \<^verbatim>\<open>D3D11_TEXTURE2D_DESC\<close> size and its texels by column \<open>x\<close> and row \<open>y\<close>.
\<close>

datatype pixel = BGRA byte byte byte byte

fun channel :: "pixel \<Rightarrow> int \<Rightarrow> byte" where
  "channel (BGRA b g r a) k = (if k = 0 then b else if k = 1 then g else if k = 2 then r else a)"

record texture =
  tex_Width :: int
  tex_Height :: int
  texel :: "int \<Rightarrow> int \<Rightarrow> pixel"

text \<open>
  \<^verbatim>\<open>Map\<close> of a staging copy exposes the texels as bytes, row \<open>y\<close> starting at
  \<^verbatim>\<open>y * RowPitch\<close>, texel \<open>x\<close> of a row at byte \<open>x * 4\<close>; \<^verbatim>\<open>RowPitch\<close> is chosen by the
  driver and is an input of the model. \<^verbatim>\<open>Unmap\<close> and \<^verbatim>\<open>CopyResource\<close> carry the bytes of
  the texels back.
\<close>

type_synonym mapped = "int \<Rightarrow> byte"

definition Map_bytes :: "int \<Rightarrow> texture \<Rightarrow> mapped" where
  "Map_bytes RowPitch t =
     (\<lambda>i. channel (texel t ((i mod RowPitch) div 4) (i div RowPitch)) ((i mod RowPitch) mod 4))"

definition Unmap_bytes :: "int \<Rightarrow> mapped \<Rightarrow> texture \<Rightarrow> texture" where
  "Unmap_bytes RowPitch m t =
     t\<lparr>texel := \<lambda>x y.
          if 0 \<le> x \<and> x < tex_Width t \<and> 0 \<le> y \<and> y < tex_Height t
          then BGRA (m (y * RowPitch + x * 4 + 0)) (m (y * RowPitch + x * 4 + 1))
                    (m (y * RowPitch + x * 4 + 2)) (m (y * RowPitch + x * 4 + 3))
          else texel t x y\<rparr>"

section \<open>Cursor Compositor: \<^verbatim>\<open>DrawCursorOnTexture\<close> (main_dxgi.cpp)\<close>

text \<open>
  The body of the inner loop, for cursor row \<open>y\<close> (already known to land on canvas row
  \<open>destY\<close>) and cursor column \<open>x\<close>. Bytes are promoted to \<^verbatim>\<open>int\<close> for the blend and the
  quotient is stored back into a byte.
\<close>

definition blend_pixel ::
  "byte list \<Rightarrow> int \<Rightarrow> int \<Rightarrow> int \<Rightarrow> int \<Rightarrow> int \<Rightarrow> int \<Rightarrow> int \<Rightarrow> mapped \<Rightarrow> mapped" where
  "blend_pixel cursorBuffer cursorWidth drawX descWidth RowPitch destY y x destData =
     (let destX = drawX + x
      in if destX < 0 \<or> destX \<ge> descWidth then destData
         else
           (let srcIdx = (y * cursorWidth + x) * 4;
                destIdx = destY * RowPitch + destX * 4;
                srcA = cursorBuffer ! nat (srcIdx + 3)
            in if srcA > 0 then
                 (let srcB = cursorBuffer ! nat (srcIdx + 0);
                      srcG = cursorBuffer ! nat (srcIdx + 1);
                      srcR = cursorBuffer ! nat (srcIdx + 2)
                  in if srcA = 255 then
                       destData(destIdx + 0 := srcB, destIdx + 1 := srcG,
                                destIdx + 2 := srcR, destIdx + 3 := 255)
                     else
                       (let destB = destData (destIdx + 0);
                            destG = destData (destIdx + 1);
                            destR = destData (destIdx + 2)
                        in destData
                             (destIdx + 0 := word_of_int
                                ((uint srcB * uint srcA + uint destB * (255 - uint srcA)) div 255),
                              destIdx + 1 := word_of_int
                                ((uint srcG * uint srcA + uint destG * (255 - uint srcA)) div 255),
                              destIdx + 2 := word_of_int
                                ((uint srcR * uint srcA + uint destR * (255 - uint srcA)) div 255),
                              destIdx + 3 := 255)))
               else destData))"

text \<open>The body of the outer loop: rows off the canvas are skipped.\<close>

definition blend_row ::
  "byte list \<Rightarrow> int \<Rightarrow> int \<Rightarrow> int \<Rightarrow> int \<Rightarrow> int \<Rightarrow> int \<Rightarrow> int \<Rightarrow> mapped \<Rightarrow> mapped" where
  "blend_row cursorBuffer cursorWidth drawX drawY descWidth descHeight RowPitch y destData =
     (let destY = drawY + y
      in if destY < 0 \<or> destY \<ge> descHeight then destData
         else fold (blend_pixel cursorBuffer cursorWidth drawX descWidth RowPitch destY y)
                (loop_range cursorWidth) destData)"

definition blend_loop ::
  "byte list \<Rightarrow> int \<Rightarrow> int \<Rightarrow> int \<Rightarrow> int \<Rightarrow> int \<Rightarrow> int \<Rightarrow> int \<Rightarrow> mapped \<Rightarrow> mapped" where
  "blend_loop cursorBuffer cursorWidth cursorHeight drawX drawY descWidth descHeight RowPitch
     destData =
     fold (blend_row cursorBuffer cursorWidth drawX drawY descWidth descHeight RowPitch)
       (loop_range cursorHeight) destData"

text \<open>
  What the driver does for one call: whether \<^verbatim>\<open>CreateTexture2D\<close> of the staging copy and
  \<^verbatim>\<open>Map\<close> succeed, and the row pitch of the mapping.
\<close>

record draw_env =
  staging_created :: bool
  map_succeeded :: bool
  RowPitch :: int

text \<open>
  \<^verbatim>\<open>DrawCursorOnTexture\<close>: the early return on a missing or empty cursor, the hot spot
  subtraction, the staging copy, the blend over the mapped bytes and the copy back. When
  the staging texture cannot be created or mapped the destination is left as it is.
\<close>

definition DrawCursorOnTexture ::
  "draw_env \<Rightarrow> cursor_state \<Rightarrow> texture \<Rightarrow> int \<Rightarrow> int \<Rightarrow> texture" where
  "DrawCursorOnTexture env cur destTexture cursorX cursorY =
     (case g_CursorBuffer cur of
        None \<Rightarrow> destTexture
      | Some cursorBuffer \<Rightarrow>
          if g_CursorWidth cur = 0 \<or> g_CursorHeight cur = 0 then destTexture
          else
            (let drawX = cursorX - g_CursorHotspotX cur;
                 drawY = cursorY - g_CursorHotspotY cur
             in if \<not> staging_created env then destTexture
                else if \<not> map_succeeded env then destTexture
                else Unmap_bytes (RowPitch env)
                       (blend_loop cursorBuffer (g_CursorWidth cur) (g_CursorHeight cur)
                          drawX drawY (tex_Width destTexture) (tex_Height destTexture)
                          (RowPitch env) (Map_bytes (RowPitch env) destTexture))
                       destTexture))"

text \<open>
  The invariant \<^verbatim>\<open>UpdateCursorShape\<close> establishes between the buffer and the two sizes:
  the buffer, when there is one, has \<^verbatim>\<open>g_CursorWidth * g_CursorHeight * 4\<close> bytes.
\<close>

definition cursor_wf :: "cursor_state \<Rightarrow> bool" where
  "cursor_wf cur =
     (case g_CursorBuffer cur of
        None \<Rightarrow> True
      | Some cb \<Rightarrow> int (length cb) = g_CursorWidth cur * g_CursorHeight cur * 4)"

section \<open>Frame Compositor of main_dxgi.cpp: the pixel shader and the draw\<close>

text \<open>
  Texture coordinates are rationals: \<open>0.75f\<close> is exact in binary floating point, and
  the coordinate of a pixel centre differs from it by at least \<open>1 / 3840\<close>, far more than
  the rounding of the interpolator. What \<^verbatim>\<open>desktopTex.Sample\<close> returns under the
  \<^verbatim>\<open>MIN_MAG_MIP_LINEAR\<close> sampler is the GPU's business and an input of the model.
\<close>

type_synonym sampler = "texture \<Rightarrow> rat \<Rightarrow> rat \<Rightarrow> pixel"

text \<open>
  The resource bound to slot \<open>t0\<close>. \<^verbatim>\<open>g_DesktopSRV\<close> views the texture
  \<^verbatim>\<open>g_StagingTexture\<close> pointed to when the view was created; after a failed re-creation it
  can be null, or view a texture the program no longer points to.
\<close>

datatype desktop_view = NullView | StagingView | OrphanView texture

text \<open>The pixel shader \<^verbatim>\<open>PS\<close>; a read through a null view yields zeros.\<close>

definition PS :: "sampler \<Rightarrow> texture option \<Rightarrow> rat \<Rightarrow> rat \<Rightarrow> pixel" where
  "PS sample desktopTex u v =
     (if u \<le> 3 / 4
      then (case desktopTex of None \<Rightarrow> BGRA 0 0 0 0 | Some tex \<Rightarrow> sample tex (u / (3 / 4)) v)
      else BGRA 0 0 0 255)"

text \<open>\<^verbatim>\<open>ClearRenderTargetView\<close> with \<open>{0, 0, 0, 1}\<close>.\<close>

definition ClearRenderTargetView :: "texture \<Rightarrow> texture" where
  "ClearRenderTargetView rt = rt\<lparr>texel := \<lambda>x y. BGRA 0 0 0 255\<rparr>"

text \<open>
  \<^verbatim>\<open>Draw(4, 0)\<close> of the full-screen quad into the \<open>OUTPUT_WIDTH x OUTPUT_HEIGHT\<close> viewport:
  the shader runs once for every pixel, at the texture coordinate of the pixel's centre.
\<close>

definition Draw_quad :: "sampler \<Rightarrow> texture option \<Rightarrow> texture \<Rightarrow> texture" where
  "Draw_quad sample desktopTex rt =
     rt\<lparr>texel := \<lambda>x y.
          if 0 \<le> x \<and> x < OUTPUT_WIDTH \<and> 0 \<le> y \<and> y < OUTPUT_HEIGHT
          then PS sample desktopTex ((of_int x + 1 / 2) / of_int OUTPUT_WIDTH)
                                    ((of_int y + 1 / 2) / of_int OUTPUT_HEIGHT)
          else texel rt x y\<rparr>"

section \<open>The program state of main_dxgi.cpp\<close>

text \<open>The calls whose number and order matter below, logged in the order made.\<close>

datatype api_call =
    ReleaseFrame
  | Release_DeskDupl
  | Call_InitDesktopDuplication bool
  | Present
  | MessageBoxA string

datatype duplication = IDXGIOutputDuplication

record dxgi_state =
  g_Running :: bool
  g_DeskDupl :: "duplication option"
  g_StagingTexture :: "texture option"
  g_DesktopSRV :: desktop_view
  g_BackBuffer :: texture
  cursor :: cursor_state
  screen :: texture
  calls :: "api_call list"

definition bound_desktop :: "dxgi_state \<Rightarrow> texture option" where
  "bound_desktop s =
     (case g_DesktopSRV s of
        NullView \<Rightarrow> None
      | StagingView \<Rightarrow> g_StagingTexture s
      | OrphanView t \<Rightarrow> Some t)"

section \<open>\<^verbatim>\<open>InitDesktopDuplication\<close> (main_dxgi.cpp)\<close>

text \<open>
  The seven fallible calls, in order. The environment says which one fails first, if any,
  and what the new staging texture holds (it is created without initial data). A COM
  call that fails stores null in its output pointer.
\<close>

datatype init_step =
    QueryInterface_IDXGIDevice | GetAdapter | EnumOutputs | QueryInterface_IDXGIOutput1
  | DuplicateOutput | CreateTexture2D | CreateShaderResourceView

record init_outcome =
  fails_at :: "init_step option"
  new_staging :: texture

definition InitDesktopDuplication :: "init_outcome \<Rightarrow> dxgi_state \<Rightarrow> bool \<times> dxgi_state" where
  "InitDesktopDuplication out s =
     (if fails_at out \<in> {Some QueryInterface_IDXGIDevice, Some GetAdapter, Some EnumOutputs,
                           Some QueryInterface_IDXGIOutput1}
      then (False, s)
      else if fails_at out = Some DuplicateOutput
      then (False, s\<lparr>g_DeskDupl := None\<rparr>)
      else
        (let s1 = s\<lparr>g_DeskDupl := Some IDXGIOutputDuplication\<rparr>
         in if fails_at out = Some CreateTexture2D
            then (False,
                  s1\<lparr>g_StagingTexture := None,
                      g_DesktopSRV := (case g_DesktopSRV s1 of
                                         StagingView \<Rightarrow>
                                           (case g_StagingTexture s1 of
                                              None \<Rightarrow> NullView | Some t \<Rightarrow> OrphanView t)
                                       | v \<Rightarrow> v)\<rparr>)
            else
              (let s2 = s1\<lparr>g_StagingTexture := Some (new_staging out)\<rparr>
               in if fails_at out = Some CreateShaderResourceView
                  then (False, s2\<lparr>g_DesktopSRV := NullView\<rparr>)
                  else (True, s2\<lparr>g_DesktopSRV := StagingView\<rparr>))))"

section \<open>\<^verbatim>\<open>CaptureAndRender\<close> (main_dxgi.cpp)\<close>

text \<open>
  What \<^verbatim>\<open>AcquireNextFrame\<close> returns. A frame carries the desktop texture (unless the
  \<^verbatim>\<open>QueryInterface\<close> for it fails) and, when \<^verbatim>\<open>PointerShapeBufferSize\<close> is positive, the
  result of \<^verbatim>\<open>GetFramePointerShape\<close>.
\<close>

datatype shape_fetch =
    NoShapeChange
  | ShapeFetchFailed
  | ShapeFetched pointer_shape_info "byte list"

record frame_data =
  desktopTexture :: "texture option"
  pointerShape :: shape_fetch

datatype acquire_result =
    DXGI_ERROR_WAIT_TIMEOUT
  | S_OK frame_data
  | DXGI_ERROR_ACCESS_LOST
  | E_FAIL

record tick_env =
  acquire :: acquire_result
  reinit :: init_outcome
  sampler :: sampler
  GetCursorPos :: "(int \<times> int) option"
  draw :: draw_env

text \<open>The branch \<^verbatim>\<open>SUCCEEDED(hr)\<close>: copy the desktop, update the cursor shape, release.\<close>

definition acquired_frame :: "frame_data \<Rightarrow> dxgi_state \<Rightarrow> fault + dxgi_state" where
  "acquired_frame f s =
     (case (case desktopTexture f of
              None \<Rightarrow> Inr s
            | Some d \<Rightarrow>
                (case g_StagingTexture s of
                   None \<Rightarrow> Inl NullDeref
                 | Some _ \<Rightarrow> Inr (s\<lparr>g_StagingTexture := Some d\<rparr>))) of
        Inl e \<Rightarrow> Inl e
      | Inr s1 \<Rightarrow>
          (case (case pointerShape f of
                   NoShapeChange \<Rightarrow> Inr s1
                 | ShapeFetchFailed \<Rightarrow> Inr s1
                 | ShapeFetched shapeInfo shapeBuffer \<Rightarrow>
                     (case UpdateCursorShape shapeInfo shapeBuffer (cursor s1) of
                        Inl e \<Rightarrow> Inl e
                      | Inr c \<Rightarrow> Inr (s1\<lparr>cursor := c\<rparr>))) of
             Inl e \<Rightarrow> Inl e
           | Inr s2 \<Rightarrow> Inr (s2\<lparr>calls := calls s2 @ [ReleaseFrame]\<rparr>)))"

text \<open>
  The part after the acquisition: clear, draw the quad, draw the cursor at the pointer
  position read now, present.
\<close>

definition draw_pointer :: "tick_env \<Rightarrow> cursor_state \<Rightarrow> texture \<Rightarrow> texture" where
  "draw_pointer env cur backBuffer =
     (case GetCursorPos env of
        None \<Rightarrow> backBuffer
      | Some (px, py) \<Rightarrow>
          (let cursorX = px - FIRST_MONITOR_X;
               cursorY = py - FIRST_MONITOR_Y
           in if cursorX \<ge> 0 \<and> cursorX < SOURCE_WIDTH \<and> cursorY \<ge> 0 \<and> cursorY < SOURCE_HEIGHT
              then (if g_CursorBuffer cur \<noteq> None
                    then (let scaledCursorX = cdiv (cursorX * RENDER_WIDTH) SOURCE_WIDTH;
                              scaledCursorY = cursorY
                          in DrawCursorOnTexture (draw env) cur backBuffer
                               scaledCursorX scaledCursorY)
                    else backBuffer)
              else backBuffer))"

definition render_and_present :: "tick_env \<Rightarrow> dxgi_state \<Rightarrow> dxgi_state" where
  "render_and_present env s =
     (let cleared = ClearRenderTargetView (g_BackBuffer s);
          drawn = Draw_quad (sampler env) (bound_desktop s) cleared;
          final = draw_pointer env (cursor s) drawn
      in s\<lparr>g_BackBuffer := final, screen := final, calls := calls s @ [Present]\<rparr>)"

text \<open>
  \<^verbatim>\<open>CaptureAndRender\<close>. The call through \<^verbatim>\<open>g_DeskDupl\<close> comes first. On
  \<^verbatim>\<open>DXGI_ERROR_ACCESS_LOST\<close> the duplication is released, \<^verbatim>\<open>InitDesktopDuplication\<close> is
  called, its result is dropped and the function returns before the draw and the
  \<^verbatim>\<open>Present\<close>.
\<close>

definition CaptureAndRender :: "tick_env \<Rightarrow> dxgi_state \<Rightarrow> fault + dxgi_state" where
  "CaptureAndRender env s =
     (case g_DeskDupl s of
        None \<Rightarrow> Inl NullDeref
      | Some _ \<Rightarrow>
          (case acquire env of
             DXGI_ERROR_WAIT_TIMEOUT \<Rightarrow> Inr (render_and_present env s)
           | S_OK f \<Rightarrow>
               (case acquired_frame f s of
                  Inl e \<Rightarrow> Inl e
                | Inr s1 \<Rightarrow> Inr (render_and_present env s1))
           | DXGI_ERROR_ACCESS_LOST \<Rightarrow>
               (let s1 = s\<lparr>g_DeskDupl := None, calls := calls s @ [Release_DeskDupl]\<rparr>;
                    (ok, s2) = InitDesktopDuplication (reinit env) s1
                in Inr (s2\<lparr>calls := calls s2 @ [Call_InitDesktopDuplication ok]\<rparr>))
           | E_FAIL \<Rightarrow> Inr (render_and_present env s)))"

section \<open>\<^verbatim>\<open>WinMain\<close> (main_dxgi.cpp)\<close>

text \<open>
  The start-up check of \<^verbatim>\<open>InitDesktopDuplication\<close>: a failure is reported with a message
  box and the program returns 1 without entering the loop.
\<close>

definition WinMain_InitDesktopDuplication :: "init_outcome \<Rightarrow> dxgi_state \<Rightarrow> string + dxgi_state" where
  "WinMain_InitDesktopDuplication out s =
     (let (ok, s1) = InitDesktopDuplication out s
      in if \<not> ok
         then Inl ''Failed to initialize Desktop Duplication.''
         else Inr s1)"

text \<open>
  The loop, over the inputs of finitely many iterations: whether the message queue holds
  \<^verbatim>\<open>WM_QUIT\<close> or the hot key, and the environment of the tick. It ends when \<^verbatim>\<open>g_Running\<close>
  is false; a fault ends the program.
\<close>

record iteration =
  quit_requested :: bool
  tick :: tick_env

fun main_loop :: "iteration list \<Rightarrow> dxgi_state \<Rightarrow> fault + dxgi_state" where
  "main_loop [] s = Inr s"
| "main_loop (i # is) s =
     (if \<not> g_Running s then Inr s
      else if quit_requested i then Inr (s\<lparr>g_Running := False\<rparr>)
      else (case CaptureAndRender (tick i) s of
              Inl e \<Rightarrow> Inl e
            | Inr s' \<Rightarrow> main_loop is s'))"

section \<open>The first prototype, main.cpp: \<^verbatim>\<open>RenderFrame\<close>\<close>

text \<open>
  main.cpp has globals of the same names as main_dxgi.cpp; here \<open>m_DeskDupl\<close>,
  \<open>m_BackBuffer\<close>, \<open>m_screen\<close> and \<open>m_calls\<close> stand for its \<^verbatim>\<open>g_DeskDupl\<close>,
  \<^verbatim>\<open>g_BackBuffer\<close>, the presented image and the calls made.
\<close>

record composite_state =
  m_DeskDupl :: "duplication option"
  g_CompositeTexture :: texture
  m_BackBuffer :: texture
  m_screen :: texture
  m_calls :: "api_call list"

text \<open>
  \<^verbatim>\<open>CopySubresourceRegion\<close> of the box \<open>[left, right) x [top, bottom)\<close> of the source to
  \<open>(DstX, DstY)\<close>: texel for texel, no scaling.
\<close>

record D3D11_BOX =
  box_left :: int
  box_top :: int
  box_right :: int
  box_bottom :: int

definition CopySubresourceRegion ::
  "texture \<Rightarrow> int \<Rightarrow> int \<Rightarrow> texture \<Rightarrow> D3D11_BOX \<Rightarrow> texture" where
  "CopySubresourceRegion dst DstX DstY src srcBox =
     dst\<lparr>texel := \<lambda>x y.
            if DstX \<le> x \<and> x < DstX + (box_right srcBox - box_left srcBox) \<and>
               DstY \<le> y \<and> y < DstY + (box_bottom srcBox - box_top srcBox) \<and>
               0 \<le> x \<and> x < tex_Width dst \<and> 0 \<le> y \<and> y < tex_Height dst
            then texel src (box_left srcBox + (x - DstX)) (box_top srcBox + (y - DstY))
            else texel dst x y\<rparr>"

text \<open>\<^verbatim>\<open>CopyResource(g_BackBuffer, g_CompositeTexture)\<close> and \<^verbatim>\<open>Present(1, 0)\<close>.\<close>

definition present_composite :: "composite_state \<Rightarrow> composite_state" where
  "present_composite s =
     s\<lparr>m_BackBuffer := g_CompositeTexture s, m_screen := g_CompositeTexture s,
       m_calls := m_calls s @ [Present]\<rparr>"

text \<open>
  \<^verbatim>\<open>RenderFrame\<close>: on a timeout and on any other failure the stored composite is presented;
  on a frame the box \<open>[0, RENDER_WIDTH) x [0, RENDER_HEIGHT)\<close> of the desktop is copied to
  the origin of the composite first.
\<close>

definition RenderFrame :: "acquire_result \<Rightarrow> composite_state \<Rightarrow> fault + composite_state" where
  "RenderFrame hr s =
     (case m_DeskDupl s of
        None \<Rightarrow> Inl NullDeref
      | Some _ \<Rightarrow>
          (case hr of
             DXGI_ERROR_WAIT_TIMEOUT \<Rightarrow> Inr (present_composite s)
           | S_OK f \<Rightarrow>
               (let s1 = (case desktopTexture f of
                            None \<Rightarrow> s
                          | Some desktop \<Rightarrow>
                              s\<lparr>g_CompositeTexture :=
                                   CopySubresourceRegion (g_CompositeTexture s) 0 0 desktop
                                     \<lparr>box_left = 0, box_top = 0,
                                      box_right = RENDER_WIDTH, box_bottom = RENDER_HEIGHT\<rparr>\<rparr>);
                    s2 = s1\<lparr>m_calls := m_calls s1 @ [ReleaseFrame]\<rparr>
                in Inr (present_composite s2))
           | DXGI_ERROR_ACCESS_LOST \<Rightarrow> Inr (present_composite s)
           | E_FAIL \<Rightarrow> Inr (present_composite s)))"

text \<open>The composite texture as \<^verbatim>\<open>InitD3D\<close> of main.cpp creates it: opaque black.\<close>

definition composite_started :: composite_state where
  "composite_started =
     \<lparr>m_DeskDupl = Some IDXGIOutputDuplication,
      g_CompositeTexture = \<lparr>tex_Width = OUTPUT_WIDTH, tex_Height = OUTPUT_HEIGHT,
                             texel = (\<lambda>x y. BGRA 0 0 0 255)\<rparr>,
      m_BackBuffer = \<lparr>tex_Width = OUTPUT_WIDTH, tex_Height = OUTPUT_HEIGHT,
                       texel = (\<lambda>x y. BGRA 0 0 0 0)\<rparr>,
      m_screen = \<lparr>tex_Width = OUTPUT_WIDTH, tex_Height = OUTPUT_HEIGHT,
                   texel = (\<lambda>x y. BGRA 0 0 0 0)\<rparr>,
      m_calls = []\<rparr>"

section \<open>main_gdi.cpp\<close>

text \<open>
  The DIB section behind \<^verbatim>\<open>g_pBitmapBits\<close>: \<open>OUTPUT_WIDTH * OUTPUT_HEIGHT\<close> \<^verbatim>\<open>DWORD\<close>s, top
  down, the pixel of column \<open>x\<close> and row \<open>y\<close> at index \<open>y * OUTPUT_WIDTH + x\<close>.
\<close>

type_synonym dib = "int \<Rightarrow> 32 word"

definition dib_x :: "int \<Rightarrow> int" where "dib_x i = i mod OUTPUT_WIDTH"
definition dib_y :: "int \<Rightarrow> int" where "dib_y i = i div OUTPUT_WIDTH"

definition in_dib :: "int \<Rightarrow> bool" where
  "in_dib i = (0 \<le> i \<and> i < OUTPUT_WIDTH * OUTPUT_HEIGHT)"

record gdi_state =
  g_pBitmapBits :: dib
  g_lastCursor :: nat
  g_cursorFrameCount :: nat
  g_cursorFrameRate :: nat
  g_cachedHotspotX :: nat
  g_cachedHotspotY :: nat
  window :: dib

text \<open>The pre-fill loop of \<^verbatim>\<open>InitGDI\<close>.\<close>

definition InitGDI_fill :: "dib \<Rightarrow> dib" where
  "InitGDI_fill pixels =
     fold (\<lambda>i px. px(i := 0xFF000000)) (loop_range (OUTPUT_WIDTH * OUTPUT_HEIGHT)) pixels"

definition InitGDI :: "dib \<Rightarrow> gdi_state" where
  "InitGDI fresh =
     \<lparr>g_pBitmapBits = InitGDI_fill fresh, g_lastCursor = 0,
      g_cursorFrameCount = 0, g_cursorFrameRate = 0,
      g_cachedHotspotX = 0, g_cachedHotspotY = 0, window = fresh\<rparr>"

text \<open>
  What GDI and the system supply on a tick. \<open>desktop\<close> is the screen DC; \<open>halftone\<close> is
  the colour \<^verbatim>\<open>StretchBlt\<close> in \<^verbatim>\<open>HALFTONE\<close> mode computes for a destination pixel from the
  whole source rectangle; \<open>icon\<close> is what \<^verbatim>\<open>DrawIconEx\<close> paints for a cursor handle at a
  position on an unclipped surface. A cursor handle is a number, \<open>0\<close> for null.
\<close>

record cursor_info =
  CURSOR_SHOWING :: bool
  hCursor :: nat
  ptScreenPos :: "int \<times> int"

record gdi_env =
  desktop :: "int \<Rightarrow> int \<Rightarrow> 32 word"
  halftone :: "(int \<Rightarrow> int \<Rightarrow> 32 word) \<Rightarrow> int \<Rightarrow> int \<Rightarrow> 32 word"
  GetCursorInfo :: "cursor_info option"
  GetIconInfo :: "(nat \<times> nat) option"
  have_GetCursorFrameInfo :: bool
  GetCursorFrameInfo :: "nat \<Rightarrow> nat \<Rightarrow> nat \<times> nat \<times> nat"
  GetTickCount :: nat
  icon :: "nat \<Rightarrow> int \<Rightarrow> int \<Rightarrow> dib \<Rightarrow> dib"

text \<open>
  A drawing call confined to the rectangle \<open>[0, w) x [0, h)\<close> of the DIB: the destination
  rectangle of \<^verbatim>\<open>StretchBlt\<close>, or the clipping region selected around \<^verbatim>\<open>DrawIconEx\<close>
  (\<^verbatim>\<open>g_hClipRgn\<close>, the render rectangle).
\<close>

definition confined :: "int \<Rightarrow> int \<Rightarrow> dib \<Rightarrow> dib \<Rightarrow> dib" where
  "confined w h painted old =
     (\<lambda>i. if in_dib i \<and> dib_x i < w \<and> dib_y i < h then painted i else old i)"

definition StretchBlt :: "gdi_env \<Rightarrow> dib \<Rightarrow> dib" where
  "StretchBlt env pixels =
     confined RENDER_WIDTH RENDER_HEIGHT
       (\<lambda>i. halftone env (desktop env) (dib_x i) (dib_y i)) pixels"

text \<open>
  A cast of a \<^verbatim>\<open>double\<close> to \<^verbatim>\<open>int\<close> or \<^verbatim>\<open>DWORD\<close> drops the fraction. The scale factors
  \<open>1440 / 1920\<close> and \<open>1080 / 1080\<close> and their products with the integers at hand are exact
  in a \<^verbatim>\<open>double\<close>, so rationals compute the same numbers.
\<close>

definition c_int :: "rat \<Rightarrow> int" where
  "c_int r = (if 0 \<le> r then \<lfloor>r\<rfloor> else \<lceil>r\<rceil>)"

definition scaleX :: rat where "scaleX = of_int RENDER_WIDTH / of_int SOURCE_WIDTH"
definition scaleY :: rat where "scaleY = of_int RENDER_HEIGHT / of_int SOURCE_HEIGHT"

text \<open>\<^verbatim>\<open>cursorX\<close> and \<^verbatim>\<open>cursorY\<close> of main_gdi.cpp: where the icon's top left corner goes.\<close>

definition gdi_cursor_dest :: "int \<times> int \<Rightarrow> nat \<Rightarrow> nat \<Rightarrow> int \<times> int" where
  "gdi_cursor_dest pt hotX hotY =
     (c_int (of_int (fst pt - FIRST_MONITOR_X) * scaleX) - c_int (of_nat hotX * scaleX),
      c_int (of_int (snd pt - FIRST_MONITOR_Y) * scaleY) - c_int (of_nat hotY * scaleY))"

text \<open>The refresh of the cached hot spot and animation data when the handle changed.\<close>

definition cache_cursor :: "gdi_env \<Rightarrow> cursor_info \<Rightarrow> gdi_state \<Rightarrow> gdi_state" where
  "cache_cursor env ci s =
     (if hCursor ci \<noteq> g_lastCursor s then
        (let s1 = s\<lparr>g_lastCursor := hCursor ci\<rparr>;
             s2 = (case GetIconInfo env of
                     None \<Rightarrow> s1
                   | Some (hx, hy) \<Rightarrow> s1\<lparr>g_cachedHotspotX := hx, g_cachedHotspotY := hy\<rparr>)
         in if have_GetCursorFrameInfo env
            then (let (frame, rate, totalSteps) = GetCursorFrameInfo env (hCursor ci) 0
                  in s2\<lparr>g_cursorFrameCount := totalSteps, g_cursorFrameRate := rate\<rparr>)
            else s2)
      else s)"

text \<open>The handle handed to \<^verbatim>\<open>DrawIconEx\<close>: the current frame of an animated cursor.\<close>

definition hCursorToDraw :: "gdi_env \<Rightarrow> cursor_info \<Rightarrow> gdi_state \<Rightarrow> nat" where
  "hCursorToDraw env ci s =
     (if have_GetCursorFrameInfo env \<and> g_cursorFrameCount s > 1 \<and> g_cursorFrameRate s > 0 then
        (let frameTime0 = ((g_cursorFrameRate s * 1000) mod 2 ^ 32) div 60;
             frameTime = (if frameTime0 = 0 then 60 else frameTime0);
             animStep = (GetTickCount env div frameTime) mod g_cursorFrameCount s;
             (hFrame, dummy1, dummy2) = GetCursorFrameInfo env (hCursor ci) animStep
         in if hFrame \<noteq> 0 then hFrame else hCursor ci)
      else hCursor ci)"

text \<open>
  \<^verbatim>\<open>CaptureAndRender\<close> of main_gdi.cpp (hiding and showing the window around the capture
  does not touch the DIB): stretch the desktop into the render rectangle, draw the cursor
  inside the clipping region when its position is on the first monitor, copy the DIB to
  the window.
\<close>

definition CaptureAndRender_gdi :: "gdi_env \<Rightarrow> gdi_state \<Rightarrow> gdi_state" where
  "CaptureAndRender_gdi env s =
     (let s1 = s\<lparr>g_pBitmapBits := StretchBlt env (g_pBitmapBits s)\<rparr>;
          s2 = (case GetCursorInfo env of
                  None \<Rightarrow> s1
                | Some ci \<Rightarrow>
                    if CURSOR_SHOWING ci then
                      (let s1' = cache_cursor env ci s1;
                           (cursorX, cursorY) =
                              gdi_cursor_dest (ptScreenPos ci)
                                (g_cachedHotspotX s1') (g_cachedHotspotY s1');
                           hotspotX = fst (ptScreenPos ci) - FIRST_MONITOR_X;
                           hotspotY = snd (ptScreenPos ci) - FIRST_MONITOR_Y
                       in if hotspotX \<ge> 0 \<and> hotspotX < SOURCE_WIDTH \<and>
                             hotspotY \<ge> 0 \<and> hotspotY < SOURCE_HEIGHT
                          then s1'\<lparr>g_pBitmapBits :=
                                     confined RENDER_WIDTH RENDER_HEIGHT
                                       (icon env (hCursorToDraw env ci s1') cursorX cursorY
                                          (g_pBitmapBits s1'))
                                       (g_pBitmapBits s1')\<rparr>
                          else s1')
                    else s1)
      in s2\<lparr>window := g_pBitmapBits s2\<rparr>)"


section \<open>Presentation Pacer: the end of a loop iteration (main_gdi.cpp, main_dxgi.cpp)\<close>

text \<open>
  A \<^verbatim>\<open>double\<close> holds a rational with a significand of 53 bits, an infinity or a NaN, and
  every operation rounds its exact result to the nearest such rational, a tie going to
  the even significand (the double-precision arithmetic of a 64-bit build). \<open>binade r\<close> is the exponent \<open>e\<close> with \<open>2^e \<le> |r| < 2^(e+1)\<close>, so
  that the doubles around \<open>r\<close> are the multiples of \<open>2^(e - 52)\<close>. The exponent range of a
  \<^verbatim>\<open>double\<close> is not modelled: the finite values below come from 64-bit integers, 1000 and
  16 by one product, one quotient and one difference, and are zero or between \<open>2^-64\<close>
  and \<open>2^74\<close> in magnitude.
\<close>

definition binade :: "rat \<Rightarrow> int" where
  "binade r = (if 1 \<le> \<bar>r\<bar> then bitlen \<lfloor>\<bar>r\<bar>\<rfloor> - 1 else - bitlen (\<lceil>1 / \<bar>r\<bar>\<rceil> - 1))"

definition round_half_even :: "rat \<Rightarrow> int" where
  "round_half_even q =
     (let f = \<lfloor>q\<rfloor>; d = q - of_int f
      in if d < 1 / 2 then f else if 1 / 2 < d then f + 1 else if even f then f else f + 1)"

definition to_double :: "rat \<Rightarrow> rat" where
  "to_double r =
     (if r = 0 then 0
      else (let ulp = 2 powi (binade r - 52)
            in of_int (round_half_even (r / ulp)) * ulp))"

datatype double = Finite rat | PlusInfinity | MinusInfinity | NaN

text \<open>
  \<^verbatim>\<open>(double)(currentTime.QuadPart - lastTime.QuadPart) * 1000.0 / frequency.QuadPart\<close>: the
  difference of two \<^verbatim>\<open>LONGLONG\<close>s, converted, multiplied, and divided by the converted
  frequency. A quotient by zero is an infinity, or a NaN when the dividend is zero too.
\<close>

type_synonym LONGLONG = "64 word"

definition elapsedMs :: "LONGLONG \<Rightarrow> LONGLONG \<Rightarrow> LONGLONG \<Rightarrow> fault + double" where
  "elapsedMs frequency lastTime currentTime =
     (let diff = sint currentTime - sint lastTime
      in if diff < - (2 ^ 63) \<or> 2 ^ 63 \<le> diff then Inl SignedOverflow
         else
           (let ticks = to_double (of_int diff);
                ms = to_double (ticks * 1000);
                f = to_double (of_int (sint frequency))
            in Inr (if f \<noteq> 0 then Finite (to_double (ms / f))
                    else if 0 < ms then PlusInfinity
                    else if ms < 0 then MinusInfinity
                    else NaN)))"

text \<open>
  \<^verbatim>\<open>if (elapsedMs < FRAME_TIME_MS) Sleep((DWORD)(FRAME_TIME_MS - elapsedMs));\<close> gives \<open>Some n\<close>
  when \<^verbatim>\<open>Sleep(n)\<close> is called and \<open>None\<close> when it is not. A comparison with a NaN is false;
  the cast drops the fraction and is undefined for a value that no \<^verbatim>\<open>DWORD\<close> holds.
\<close>

definition frame_sleep :: "LONGLONG \<Rightarrow> LONGLONG \<Rightarrow> LONGLONG \<Rightarrow> fault + nat option" where
  "frame_sleep frequency lastTime currentTime =
     (case elapsedMs frequency lastTime currentTime of
        Inl e \<Rightarrow> Inl e
      | Inr NaN \<Rightarrow> Inr None
      | Inr PlusInfinity \<Rightarrow> Inr None
      | Inr MinusInfinity \<Rightarrow> Inl CastOutOfRange
      | Inr (Finite ms) \<Rightarrow>
          if ms < of_int FRAME_TIME_MS
          then (let remaining = to_double (of_int FRAME_TIME_MS - ms)
                in if remaining < 2 ^ 32 then Inr (Some (nat (c_int remaining)))
                   else Inl CastOutOfRange)
          else Inr None)"

text \<open>
  The calls of the frame timing of one loop iteration, in order: the counter is read into
  \<^verbatim>\<open>currentTime\<close>, the thread may sleep, the counter is read into \<^verbatim>\<open>lastTime\<close>.
\<close>

datatype timing_call = QueryPerformanceCounter | Sleep nat

definition frame_timing :: "LONGLONG \<Rightarrow> LONGLONG \<Rightarrow> LONGLONG \<Rightarrow> fault + timing_call list" where
  "frame_timing frequency lastTime currentTime =
     (case frame_sleep frequency lastTime currentTime of
        Inl e \<Rightarrow> Inl e
      | Inr None \<Rightarrow> Inr [QueryPerformanceCounter, QueryPerformanceCounter]
      | Inr (Some n) \<Rightarrow> Inr [QueryPerformanceCounter, Sleep n, QueryPerformanceCounter])"

section \<open>Auxiliary notions of the proofs\<close>

text \<open>The four bytes written for an (AND, XOR) pair of the monochrome masks.\<close>

definition mono_bgra :: "bool \<Rightarrow> bool \<Rightarrow> byte list" where
  "mono_bgra a b = (if \<not> a \<and> \<not> b then [0, 0, 0, 255]
                    else if \<not> a \<and> b then [255, 255, 255, 255]
                    else if a \<and> \<not> b then [0, 0, 0, 0]
                    else [255, 255, 255, 128])"

text \<open>The addresses of the four bytes of texel \<open>(X, Y)\<close> in a mapping of row pitch \<open>P\<close>.\<close>

definition texel_bytes :: "int \<Rightarrow> int \<Rightarrow> int \<Rightarrow> int set" where
  "texel_bytes P X Y = {Y * P + X * 4, Y * P + X * 4 + 1, Y * P + X * 4 + 2, Y * P + X * 4 + 3}"

text \<open>
  The two nested loops of \<^verbatim>\<open>DrawCursorOnTexture\<close> as one loop over the pairs (row, column),
  and the bytes an iteration may touch.
\<close>

definition blend_step ::
  "byte list \<Rightarrow> int \<Rightarrow> int \<Rightarrow> int \<Rightarrow> int \<Rightarrow> int \<Rightarrow> int \<Rightarrow> int \<times> int \<Rightarrow> mapped \<Rightarrow> mapped" where
  "blend_step cb w drawX drawY W H P = (\<lambda>(y, x) s.
     if drawY + y < 0 \<or> drawY + y \<ge> H then s
     else blend_pixel cb w drawX W P (drawY + y) y x s)"

definition blend_fp :: "int \<Rightarrow> int \<Rightarrow> int \<Rightarrow> int \<Rightarrow> int \<Rightarrow> int \<times> int \<Rightarrow> int set" where
  "blend_fp drawX drawY W H P = (\<lambda>(y, x).
     if 0 \<le> drawY + y \<and> drawY + y < H \<and> 0 \<le> drawX + x \<and> drawX + x < W
     then texel_bytes P (drawX + x) (drawY + y) else {})"


text \<open>
  Whether the cursor rectangle drawn by a tick of main_dxgi.cpp contains the canvas texel
  \<open>(x, y)\<close>.
\<close>

definition cursor_covers :: "tick_env \<Rightarrow> cursor_state \<Rightarrow> int \<Rightarrow> int \<Rightarrow> bool" where
  "cursor_covers env cur x y =
     (case GetCursorPos env of
        None \<Rightarrow> False
      | Some (px, py) \<Rightarrow>
          (let drawX = cdiv ((px - FIRST_MONITOR_X) * RENDER_WIDTH) SOURCE_WIDTH
                         - g_CursorHotspotX cur;
               drawY = (py - FIRST_MONITOR_Y) - g_CursorHotspotY cur
           in 0 \<le> x - drawX \<and> x - drawX < g_CursorWidth cur \<and>
              0 \<le> y - drawY \<and> y - drawY < g_CursorHeight cur))"

section \<open>Concrete inputs\<close>

text \<open>
  A synthetic 2x2 monochrome shape (declared height 4, pitch 4): AND rows \<open>00\<close>, \<open>11\<close>
  and XOR rows \<open>01\<close>, \<open>01\<close>, most significant bit first.
\<close>

definition mask2x2_info :: pointer_shape_info where
  "mask2x2_info = \<lparr>shape_Type = 1, shape_Width = 2, shape_Height = 4, shape_Pitch = 4,
                    shape_HotSpot_x = 0, shape_HotSpot_y = 0\<rparr>"

definition mask2x2_bytes :: "byte list" where
  "mask2x2_bytes = [0x00, 0, 0, 0,  0xC0, 0, 0, 0,  0x40, 0, 0, 0,  0x40, 0, 0, 0]"

text \<open>
  A 4x2 canvas of one colour, a 3x2 cursor (an opaque, a half-transparent and an opaque
  pixel above a transparent and two opaque ones, hot spot (1, 0)) and a mapping whose rows
  are exactly four texels long, so that a write clamped or wrapped past column 3 would show.
\<close>

definition demo_canvas :: texture where
  "demo_canvas = \<lparr>tex_Width = 4, tex_Height = 2, texel = (\<lambda>x y. BGRA 10 20 30 255)\<rparr>"

definition demo_cursor :: cursor_state where
  "demo_cursor = \<lparr>g_CursorBuffer = Some [1, 2, 3, 255,  200, 100, 50, 128,  9, 9, 9, 255,
                                           7, 7, 7, 0,  8, 8, 8, 255,  8, 8, 8, 255],
                   g_CursorWidth = 3, g_CursorHeight = 2,
                   g_CursorHotspotX = 1, g_CursorHotspotY = 0\<rparr>"

definition demo_env :: draw_env where
  "demo_env = \<lparr>staging_created = True, map_succeeded = True, RowPitch = 16\<rparr>"

text \<open>
  A state of main_dxgi.cpp as the loop is entered: every initialisation succeeded, the
  staging texture and the back buffer hold zeros, no pointer shape was decoded yet.
\<close>

definition blank :: "int \<Rightarrow> int \<Rightarrow> texture" where
  "blank w h = \<lparr>tex_Width = w, tex_Height = h, texel = (\<lambda>x y. BGRA 0 0 0 0)\<rparr>"

definition dxgi_started :: dxgi_state where
  "dxgi_started =
     \<lparr>g_Running = True, g_DeskDupl = Some IDXGIOutputDuplication,
      g_StagingTexture = Some (blank SOURCE_WIDTH SOURCE_HEIGHT),
      g_DesktopSRV = StagingView,
      g_BackBuffer = blank OUTPUT_WIDTH OUTPUT_HEIGHT,
      cursor = no_cursor,
      screen = blank OUTPUT_WIDTH OUTPUT_HEIGHT,
      calls = []\<rparr>"

text \<open>A sampler for the concrete runs: the texel under the coordinate, unfiltered.\<close>

definition nearest_texel :: sampler where
  "nearest_texel tex u v =
     texel tex \<lfloor>u * of_int (tex_Width tex)\<rfloor> \<lfloor>v * of_int (tex_Height tex)\<rfloor>"

definition draw_ok :: draw_env where
  "draw_ok = \<lparr>staging_created = True, map_succeeded = True, RowPitch = 4 * OUTPUT_WIDTH\<rparr>"

definition no_reinit :: init_outcome where
  "no_reinit = \<lparr>fails_at = None, new_staging = blank SOURCE_WIDTH SOURCE_HEIGHT\<rparr>"

text \<open>A tick on which no frame arrives, with the pointer at the given position.\<close>

definition timeout_tick :: "int \<times> int \<Rightarrow> tick_env" where
  "timeout_tick p = \<lparr>acquire = DXGI_ERROR_WAIT_TIMEOUT, reinit = no_reinit,
                     sampler = nearest_texel, GetCursorPos = Some p, draw = draw_ok\<rparr>"

text \<open>
  A tick on which the duplication was lost and cannot be duplicated again yet (as while
  the secure desktop is still shown), followed by an ordinary iteration.
\<close>

definition lost_tick :: tick_env where
  "lost_tick = \<lparr>acquire = DXGI_ERROR_ACCESS_LOST,
                 reinit = \<lparr>fails_at = Some DuplicateOutput,
                            new_staging = blank SOURCE_WIDTH SOURCE_HEIGHT\<rparr>,
                 sampler = nearest_texel, GetCursorPos = Some (0, 0), draw = draw_ok\<rparr>"

definition lost_then_next :: "iteration list" where
  "lost_then_next = [\<lparr>quit_requested = False, tick = lost_tick\<rparr>,
                     \<lparr>quit_requested = False, tick = timeout_tick (0, 0)\<rparr>]"

text \<open>
  A pointer shape of a type that is none of the three (\<open>3\<close>), and the 2x2 monochrome
  shape with only its AND mask in the buffer.
\<close>

definition odd_shape :: pointer_shape_info where
  "odd_shape = \<lparr>shape_Type = 3, shape_Width = 1, shape_Height = 1, shape_Pitch = 4,
                 shape_HotSpot_x = 5, shape_HotSpot_y = 6\<rparr>"

text \<open>A frame with a desktop image whose \<^verbatim>\<open>GetFramePointerShape\<close> fails.\<close>

definition failed_fetch_frame :: frame_data where
  "failed_fetch_frame = \<lparr>desktopTexture = Some (blank SOURCE_WIDTH SOURCE_HEIGHT),
                          pointerShape = ShapeFetchFailed\<rparr>"

definition short_mask_bytes :: "byte list" where
  "short_mask_bytes = [0x00, 0, 0, 0,  0xC0, 0, 0, 0]"

text \<open>
  A desktop frame whose colour encodes the column (blue and green are the low and high
  byte of \<open>x\<close>), so that a presented texel tells which source column it shows.
\<close>

definition column_coded :: texture where
  "column_coded = \<lparr>tex_Width = SOURCE_WIDTH, tex_Height = SOURCE_HEIGHT,
                    texel = (\<lambda>x y. BGRA (word_of_int (x mod 256)) (word_of_int (x div 256)) 0 255)\<rparr>"

definition column_coded_frame :: frame_data where
  "column_coded_frame = \<lparr>desktopTexture = Some column_coded, pointerShape = NoShapeChange\<rparr>"






text \<open>The cursor state the 1x1 white shape decodes to.\<close>

definition dot_cursor :: cursor_state where
  "dot_cursor = \<lparr>g_CursorBuffer = Some [255, 255, 255, 255], g_CursorWidth = 1, g_CursorHeight = 1,
      g_CursorHotspotX = 0, g_CursorHotspotY = 0\<rparr>"


text \<open>
  A tick of main_gdi.cpp: a white desktop, the pointer in the last source column, and an
  icon that would paint a white bar of 32 pixels to the right of its position.
\<close>

definition gdi_demo_env :: gdi_env where
  "gdi_demo_env =
     \<lparr>desktop = (\<lambda>x y. 0xFFFFFFFF),
      halftone = (\<lambda>src x y. src ((x * 4) div 3) y),
      GetCursorInfo = Some \<lparr>CURSOR_SHOWING = True, hCursor = 1, ptScreenPos = (1919, 0)\<rparr>,
      GetIconInfo = Some (0, 0),
      have_GetCursorFrameInfo = False,
      GetCursorFrameInfo = (\<lambda>h step. (0, 0, 0)),
      GetTickCount = 0,
      icon = (\<lambda>h x y pixels i.
                if dib_y i = y \<and> x \<le> dib_x i \<and> dib_x i < x + 32 then 0xFFFFFFFF else pixels i)\<rparr>"

text \<open>
  A cursor whose only visible pixel is its hot spot, ten columns into the bitmap, with the
  pointer at (100, 50). For main_dxgi.cpp it is an 11x1 bitmap, transparent but for an
  opaque white last pixel; for main_gdi.cpp \<^verbatim>\<open>GetIconInfo\<close> reports the hot spot (10, 0) and
  \<^verbatim>\<open>DrawIconEx\<close>, which draws the icon in its own size, paints the pixel ten columns to the
  right of the position it is given. The desktop is opaque black.
\<close>

definition tip_cursor :: cursor_state where
  "tip_cursor = \<lparr>g_CursorBuffer = Some (replicate 40 0 @ [255, 255, 255, 255]),
                  g_CursorWidth = 11, g_CursorHeight = 1,
                  g_CursorHotspotX = 10, g_CursorHotspotY = 0\<rparr>"

definition tip_env :: gdi_env where
  "tip_env =
     \<lparr>desktop = (\<lambda>x y. 0xFF000000),
      halftone = (\<lambda>src x y. src ((x * 4) div 3) y),
      GetCursorInfo = Some \<lparr>CURSOR_SHOWING = True, hCursor = 1, ptScreenPos = (100, 50)\<rparr>,
      GetIconInfo = Some (10, 0),
      have_GetCursorFrameInfo = False,
      GetCursorFrameInfo = (\<lambda>h step. (0, 0, 0)),
      GetTickCount = 0,
      icon = (\<lambda>h x y pixels i.
                if dib_y i = y \<and> dib_x i = x + 10 then 0xFFFFFFFF else pixels i)\<rparr>"

text \<open>The pointer one column past the source rectangle, as main_gdi.cpp reads it.\<close>

definition pointer_past_edge :: cursor_info where
  "pointer_past_edge = \<lparr>CURSOR_SHOWING = True, hCursor = 1, ptScreenPos = (1920, 0)\<rparr>"

section \<open>Proofs\<close>

lemmas geometry_defs =
  SOURCE_WIDTH_def SOURCE_HEIGHT_def RENDER_WIDTH_def RENDER_HEIGHT_def
  OUTPUT_WIDTH_def OUTPUT_HEIGHT_def FIRST_MONITOR_X_def FIRST_MONITOR_Y_def

lemmas shape_type_defs =
  DXGI_OUTDUPL_POINTER_SHAPE_TYPE_MONOCHROME_def
  DXGI_OUTDUPL_POINTER_SHAPE_TYPE_COLOR_def
  DXGI_OUTDUPL_POINTER_SHAPE_TYPE_MASKED_COLOR_def

subsection \<open>Loops that fill a buffer\<close>

lemma collect_Inr:
  "(\<And>i. i \<in> set js \<Longrightarrow> f i = Inr (g i)) \<Longrightarrow> collect f js = Inr (concat (map g js))"
  by (induction js) auto

lemma concat_block:
  "(\<And>b. b \<in> set xss \<Longrightarrow> length b = m) \<Longrightarrow> i < length xss \<Longrightarrow>
     take m (drop (i * m) (concat xss)) = xss ! i"
proof (induction xss arbitrary: i)
  case Nil
  then show ?case by simp
next
  case (Cons b xss)
  show ?case
  proof (cases i)
    case 0
    with Cons.prems show ?thesis by simp
  next
    case (Suc j)
    have lb: "length b = m" using Cons.prems by simp
    have "take m (drop (j * m) (concat xss)) = xss ! j"
      using Cons.IH [of j] Cons.prems Suc by simp
    then show ?thesis using Suc lb by simp
  qed
qed

lemma length_concat_block:
  "(\<And>b. b \<in> set xss \<Longrightarrow> length b = m) \<Longrightarrow> length (concat xss) = length xss * m"
  by (induction xss) auto

lemma concat_rows:
  "concat (map (\<lambda>y. concat (map (f y) xs)) ys) = concat (map (\<lambda>(y, x). f y x) (List.product ys xs))"
  by (induction ys) (auto simp: comp_def)

lemma set_loop_range: "set (loop_range n) = {i. 0 \<le> i \<and> i < n}"
proof -
  have "\<And>i. 0 \<le> i \<Longrightarrow> i < n \<Longrightarrow> i \<in> int ` {0..<nat n}"
  proof -
    fix i :: int assume "0 \<le> i" "i < n"
    then have "nat i \<in> {0..<nat n}" "int (nat i) = i" by auto
    then show "i \<in> int ` {0..<nat n}" by (metis imageI)
  qed
  then show ?thesis by (auto simp: loop_range_def)
qed

lemma length_loop_range: "length (loop_range n) = nat n"
  by (simp add: loop_range_def)

lemma distinct_loop_range: "distinct (loop_range n)"
  by (simp add: loop_range_def distinct_map)

lemma bit_test: "drop_bit n (uint (a::byte)) AND 1 = (if bit a n then 1 else 0)"
proof -
  have "bit (uint a) n = odd (drop_bit n (uint a))"
    by (rule bit_iff_odd_drop_bit)
  moreover have "bit (uint a) n = bit a n"
    by (auto simp: bit_uint_iff dest: bit_imp_le_length)
  ultimately show ?thesis by (auto simp: and_one_eq odd_iff_mod_2_eq_one even_iff_mod_2_eq_zero)
qed

lemma grid_block:
  assumes len: "\<And>y x. length (f y x) = m"
      and y: "y < h" and x: "x < w"
  shows "take m (drop ((y * w + x) * m) (concat (map (\<lambda>y. concat (map (f y) [0..<w])) [0..<h]))) = f y x"
proof -
  let ?ps = "List.product [0..<h] [0..<w]"
  let ?xss = "map (\<lambda>(y, x). f y x) ?ps"
  have idx: "y * w + x < h * w"
  proof -
    have "y * w + x < y * w + w" using x by simp
    also have "\<dots> = (y + 1) * w" by simp
    also have "\<dots> \<le> h * w" using y by (intro mult_le_mono1) simp
    finally show ?thesis .
  qed
  have nth: "?ps ! (y * w + x) = (y, x)"
    using idx x y by (simp add: product_nth mult.commute)
  have "take m (drop ((y * w + x) * m) (concat ?xss)) = ?xss ! (y * w + x)"
    using idx by (intro concat_block) (auto simp: len)
  also have "\<dots> = f y x" using idx nth by simp
  finally show ?thesis by (simp add: concat_rows)
qed

lemma grid_length:
  assumes len: "\<And>y x. length (f y x) = m"
  shows "length (concat (map (\<lambda>y. concat (map (f y) [0..<w])) [0..<h])) = h * w * m"
proof -
  have "length (concat (map (\<lambda>(y, x). f y x) (List.product [0..<h] [0..<w]))) =
          length (map (\<lambda>(y, x). f y x) (List.product [0..<h] [0..<w])) * m"
    by (intro length_concat_block) (auto simp: len)
  then show ?thesis by (simp add: concat_rows)
qed

lemma collect_loop:
  assumes "\<And>i. i < n \<Longrightarrow> f (int i) = Inr (g i)"
  shows "collect f (loop_range (int n)) = Inr (concat (map g [0..<n]))"
proof -
  have "collect f (loop_range (int n)) = Inr (concat (map (\<lambda>i. g (nat i)) (loop_range (int n))))"
    using assms by (intro collect_Inr) (auto simp: loop_range_def)
  then show ?thesis by (simp add: loop_range_def comp_def)
qed

lemma read_byte_nat: "i < length sb \<Longrightarrow> read_byte sb (int i) = Inr (sb ! i)"
  by (simp add: read_byte_def)

subsection \<open>The monochrome decode\<close>

lemma sint32_small: "0 \<le> v \<Longrightarrow> v < 2147483648 \<Longrightarrow> sint (word_of_int v :: 32 word) = v"
  by (simp add: sint_sbintrunc' signed_take_bit_int_eq_self)

lemma uint32_small: "0 \<le> v \<Longrightarrow> v < 4294967296 \<Longrightarrow> uint (word_of_int v :: 32 word) = v"
  by (simp add: uint_word_of_int)

lemma mono_pixel_ok:
  fixes Pitch :: UINT
  assumes wp: "w \<le> 8 * unat Pitch" and sz: "2 * h * unat Pitch \<le> length sb"
      and len: "length sb < 4294967296" and y: "y < h" and x: "x < w"
  shows "mono_pixel sb Pitch (int h) (int y) (int x) =
           Inr (mono_bgra (bit (sb ! (y * unat Pitch + x div 8)) (7 - x mod 8))
                          (bit (sb ! ((y + h) * unat Pitch + x div 8)) (7 - x mod 8)))"
proof -
  let ?p = "unat Pitch"
  have xp: "x div 8 < ?p" using wp x by auto
  have "y * ?p + x div 8 < y * ?p + ?p" using xp by simp
  also have "\<dots> = (y + 1) * ?p" by simp
  also have "\<dots> \<le> h * ?p" using y by (intro mult_le_mono1) simp
  finally have i1: "y * ?p + x div 8 < h * ?p" .
  then have i2: "(y + h) * ?p + x div 8 < 2 * h * ?p" by (simp add: add_mult_distrib)
  have s1: "y * ?p + x div 8 < 2147483648" using i1 sz len by linarith
  have s2: "(y + h) * ?p + x div 8 < 4294967296" using i2 sz len by linarith
  have s1': "int (y * ?p + x div 8) < 2147483648" using s1 by linarith
  have s2': "int ((y + h) * ?p + x div 8) < 4294967296" using s2 by linarith
  have w1: "(word_of_int (int y) * Pitch + word_of_int (int x div 8) :: UINT) =
              word_of_int (int (y * ?p + x div 8))"
    by (simp add: zdiv_int)
  have b1: "sint (word_of_int (int y) * Pitch + word_of_int (int x div 8) :: UINT) =
              int (y * ?p + x div 8)"
    unfolding w1 by (rule sint32_small [OF of_nat_0_le_iff s1'])
  have w2: "(word_of_int (int (y * ?p + x div 8)) + word_of_int (int h) * Pitch :: UINT) =
              word_of_int (int ((y + h) * ?p + x div 8))"
    by (simp add: add_mult_distrib)
  have b2: "uint (word_of_int (int (y * ?p + x div 8)) + word_of_int (int h) * Pitch :: UINT) =
              int ((y + h) * ?p + x div 8)"
    unfolding w2 by (rule uint32_small [OF of_nat_0_le_iff s2'])
  have r1: "read_byte sb (int (y * ?p + x div 8)) = Inr (sb ! (y * ?p + x div 8))"
    using i1 sz by (intro read_byte_nat) simp
  have r2: "read_byte sb (int ((y + h) * ?p + x div 8)) = Inr (sb ! ((y + h) * ?p + x div 8))"
    using i2 sz by (intro read_byte_nat) simp
  have "int x mod 8 = int (x mod 8)" by (simp add: zmod_int)
  then have bi: "nat (7 - int x mod 8) = 7 - x mod 8"
    by (simp add: nat_diff_distrib')
  show ?thesis
    unfolding mono_pixel_def Let_def b1 b2 r1 r2 bi
    by (simp add: bit_test mono_bgra_def)
qed

lemma sint_UINT: "unat (W :: UINT) < 2147483648 \<Longrightarrow> sint W = int (unat W)"
proof -
  assume a: "unat W < 2147483648"
  have "int (unat W) < 2147483648" using a by linarith
  then have "sint (word_of_int (int (unat W)) :: UINT) = int (unat W)"
    by (rule sint32_small [OF of_nat_0_le_iff])
  then show ?thesis by simp
qed

lemma sint_half: "sint ((H :: UINT) div 2) = int (unat H div 2)"
proof -
  have "unat H < 2 ^ LENGTH(32)" by (rule unsigned_less)
  then have "unat H < 4294967296" by simp
  then have "unat (H div 2) < 2147483648" by (simp add: unat_div)
  then have "sint (H div 2) = int (unat (H div 2))" by (rule sint_UINT)
  then show ?thesis by (simp add: unat_div)
qed

lemma int_mul_fits: "0 \<le> m \<Longrightarrow> m < 2147483648 \<Longrightarrow> a * b = m \<Longrightarrow> int_mul a b = Inr m"
  by (simp add: int_mul_def INT_MAX_def INT_MIN_def)

lemma new_BYTE_fits:
  assumes "w * h * 4 < 2147483648"
  shows "new_BYTE (int w) (int h) = Inr (w * h * 4)"
proof -
  define m where "m = int (w * h)"
  have m0: "0 \<le> m" by (simp add: m_def)
  have "int (w * h * 4) < 2147483648" using assms by linarith
  then have m4: "m * 4 < 2147483648" by (simp add: m_def)
  then have m1: "m < 2147483648" using m0 by linarith
  have m40: "0 \<le> m * 4" using m0 by simp
  have 1: "int_mul (int w) (int h) = Inr m"
    using m0 m1 by (rule int_mul_fits) (simp add: m_def)
  have 2: "int_mul m 4 = Inr (m * 4)"
    using m40 m4 by (rule int_mul_fits) simp
  have 3: "nat (m * 4) = w * h * 4"
    by (simp add: m_def nat_mult_distrib)
  have 4: "\<not> m * 4 < 0" using m40 by simp
  show ?thesis
    by (simp only: new_BYTE_def 1 2 sum.case 3 4 if_False)
qed

lemma stored_full: "length cells = n \<Longrightarrow> stored n cells = cells"
  by (simp add: stored_def)

text \<open>
  Claim C4. A monochrome shape whose buffer holds both masks decodes to a bitmap of half
  the declared height, the AND mask stacked above the XOR mask; the pixel at column \<open>x\<close>
  of row \<open>y\<close> is (0,0,0,255) for the bit pair (0,0), (255,255,255,255) for (0,1),
  (0,0,0,0) for (1,0) and (255,255,255,128) for (1,1). The sizes are those the 32-bit
  arithmetic of the function can hold: the buffer is shorter than \<open>2^32\<close> bytes (its size
  is a \<^verbatim>\<open>UINT\<close>), and \<^verbatim>\<open>g_CursorWidth + 7\<close> and the byte count of the bitmap do not exceed
  \<^verbatim>\<open>INT_MAX\<close>.
\<close>

theorem monochrome_decode:
  assumes ty: "shape_Type info = DXGI_OUTDUPL_POINTER_SHAPE_TYPE_MONOCHROME"
      and wp: "unat (shape_Width info) \<le> 8 * unat (shape_Pitch info)"
      and sz: "2 * (unat (shape_Height info) div 2) * unat (shape_Pitch info) \<le> length shapeBuffer"
      and len: "length shapeBuffer < 4294967296"
      and w7: "unat (shape_Width info) + 7 < 2147483648"
      and fits: "unat (shape_Width info) * (unat (shape_Height info) div 2) * 4 < 2147483648"
  shows "\<exists>buf.
           UpdateCursorShape info shapeBuffer st =
             Inr \<lparr>g_CursorBuffer = Some buf,
                  g_CursorWidth = int (unat (shape_Width info)),
                  g_CursorHeight = int (unat (shape_Height info) div 2),
                  g_CursorHotspotX = shape_HotSpot_x info,
                  g_CursorHotspotY = shape_HotSpot_y info\<rparr> \<and>
           length buf = unat (shape_Width info) * (unat (shape_Height info) div 2) * 4 \<and>
           (\<forall>y x. y < unat (shape_Height info) div 2 \<longrightarrow> x < unat (shape_Width info) \<longrightarrow>
              (let andBit = bit (shapeBuffer ! (y * unat (shape_Pitch info) + x div 8)) (7 - x mod 8);
                   xorBit = bit (shapeBuffer ! ((unat (shape_Height info) div 2 + y)
                                                  * unat (shape_Pitch info) + x div 8)) (7 - x mod 8)
               in take 4 (drop ((y * unat (shape_Width info) + x) * 4) buf) =
                    (if \<not> andBit \<and> \<not> xorBit then [0, 0, 0, 255]
                     else if \<not> andBit \<and> xorBit then [255, 255, 255, 255]
                     else if andBit \<and> \<not> xorBit then [0, 0, 0, 0]
                     else [255, 255, 255, 128])))"
proof -
  define w where "w = unat (shape_Width info)"
  define h where "h = unat (shape_Height info) div 2"
  define P where "P = shape_Pitch info"
  define p where "p = unat P"
  define px where "px = (\<lambda>y x. mono_bgra (bit (shapeBuffer ! (y * p + x div 8)) (7 - x mod 8))
                          (bit (shapeBuffer ! ((y + h) * p + x div 8)) (7 - x mod 8)))"
  define buf where "buf = concat (map (\<lambda>y. concat (map (px y) [0..<w])) [0..<h])"
  have len4: "\<And>y x. length (px y x) = 4"
    by (simp add: px_def mono_bgra_def)
  have sw: "sint (shape_Width info) = int w"
    unfolding w_def using w7 by (intro sint_UINT) simp
  have sh: "sint (shape_Height info div 2) = int h"
    unfolding h_def by (rule sint_half)
  have row: "collect (mono_pixel shapeBuffer P (int h) (int y)) (loop_range (int w)) =
               Inr (concat (map (px y) [0..<w]))" if "y < h" for y
    unfolding px_def p_def using wp sz len that
    by (intro collect_loop mono_pixel_ok) (simp_all add: w_def h_def P_def)
  have rows: "collect (\<lambda>y. collect (mono_pixel shapeBuffer P (int h) y) (loop_range (int w)))
                (loop_range (int h)) = Inr buf"
    unfolding buf_def by (intro collect_loop row)
  have blen: "length buf = w * h * 4"
    unfolding buf_def using len4 by (simp add: grid_length [where m = 4] mult.commute)
  have alloc: "new_BYTE (int w) (int h) = Inr (w * h * 4)"
    using fits unfolding w_def h_def by (rule new_BYTE_fits)
  have "int w + 7 < 2147483648" using w7 unfolding w_def by linarith
  then have a7: "int_add (int w) 7 = Inr (int w + 7)"
    by (simp add: int_add_def INT_MAX_def INT_MIN_def)
  have st: "stored (w * h * 4) buf = buf"
    using blen by (rule stored_full)
  have run: "UpdateCursorShape info shapeBuffer st =
               Inr \<lparr>g_CursorBuffer = Some buf, g_CursorWidth = int w, g_CursorHeight = int h,
                    g_CursorHotspotX = shape_HotSpot_x info,
                    g_CursorHotspotY = shape_HotSpot_y info\<rparr>"
    using ty
    by (simp add: UpdateCursorShape_def Let_def sw sh alloc a7 rows [unfolded P_def] st)
  have pix: "take 4 (drop ((y * w + x) * 4) buf) = px y x" if "y < h" "x < w" for y x
    unfolding buf_def using len4 that by (intro grid_block) simp_all
  show ?thesis
    using run blen pix
    unfolding w_def [symmetric] h_def [symmetric] P_def [symmetric] p_def [symmetric]
    by (intro exI [of _ buf]) (simp add: px_def mono_bgra_def Let_def add.commute)
qed

theorem monochrome_decode_witness:
  "\<exists>buf. UpdateCursorShape mask2x2_info mask2x2_bytes no_cursor =
           Inr \<lparr>g_CursorBuffer = Some buf, g_CursorWidth = 2, g_CursorHeight = 2,
                g_CursorHotspotX = 0, g_CursorHotspotY = 0\<rparr> \<and>
         length buf = 16 \<and>
         take 4 (drop 0 buf) = [0, 0, 0, 255] \<and>
         take 4 (drop 4 buf) = [255, 255, 255, 255] \<and>
         take 4 (drop 8 buf) = [0, 0, 0, 0] \<and>
         take 4 (drop 12 buf) = [255, 255, 255, 128]"
proof -
  have ty: "shape_Type mask2x2_info = DXGI_OUTDUPL_POINTER_SHAPE_TYPE_MONOCHROME"
    by (simp add: mask2x2_info_def shape_type_defs)
  have wp: "unat (shape_Width mask2x2_info) \<le> 8 * unat (shape_Pitch mask2x2_info)"
    by (simp add: mask2x2_info_def)
  have sz: "2 * (unat (shape_Height mask2x2_info) div 2) * unat (shape_Pitch mask2x2_info)
              \<le> length mask2x2_bytes"
    by (simp add: mask2x2_info_def mask2x2_bytes_def)
  have len: "length mask2x2_bytes < 4294967296"
    by (simp add: mask2x2_bytes_def)
  have w7: "unat (shape_Width mask2x2_info) + 7 < 2147483648"
    by (simp add: mask2x2_info_def)
  have fits: "unat (shape_Width mask2x2_info) * (unat (shape_Height mask2x2_info) div 2) * 4
                < 2147483648"
    by (simp add: mask2x2_info_def)
  from monochrome_decode [OF ty wp sz len w7 fits, of no_cursor] obtain buf where
    run: "UpdateCursorShape mask2x2_info mask2x2_bytes no_cursor =
             Inr \<lparr>g_CursorBuffer = Some buf,
                  g_CursorWidth = int (unat (shape_Width mask2x2_info)),
                  g_CursorHeight = int (unat (shape_Height mask2x2_info) div 2),
                  g_CursorHotspotX = shape_HotSpot_x mask2x2_info,
                  g_CursorHotspotY = shape_HotSpot_y mask2x2_info\<rparr>"
    and len: "length buf = unat (shape_Width mask2x2_info) * (unat (shape_Height mask2x2_info) div 2) * 4"
    and pix: "\<And>y x. y < unat (shape_Height mask2x2_info) div 2 \<Longrightarrow> x < unat (shape_Width mask2x2_info) \<Longrightarrow>
              (let andBit = bit (mask2x2_bytes ! (y * unat (shape_Pitch mask2x2_info) + x div 8)) (7 - x mod 8);
                   xorBit = bit (mask2x2_bytes ! ((unat (shape_Height mask2x2_info) div 2 + y)
                                                  * unat (shape_Pitch mask2x2_info) + x div 8)) (7 - x mod 8)
               in take 4 (drop ((y * unat (shape_Width mask2x2_info) + x) * 4) buf) =
                    (if \<not> andBit \<and> \<not> xorBit then [0, 0, 0, 255]
                     else if \<not> andBit \<and> xorBit then [255, 255, 255, 255]
                     else if andBit \<and> \<not> xorBit then [0, 0, 0, 0]
                     else [255, 255, 255, 128]))"
    by blast
  have p00: "take 4 (drop 0 buf) = [0, 0, 0, 255]"
    using pix [of 0 0] by (simp add: mask2x2_info_def mask2x2_bytes_def bit_numeral_simps)
  have p01: "take 4 (drop 4 buf) = [255, 255, 255, 255]"
    using pix [of 0 1] by (simp add: mask2x2_info_def mask2x2_bytes_def)
  have p10: "take 4 (drop 8 buf) = [0, 0, 0, 0]"
    using pix [of 1 0] by (simp add: mask2x2_info_def mask2x2_bytes_def)
  have p11: "take 4 (drop 12 buf) = [255, 255, 255, 128]"
    using pix [of 1 1] by (simp add: mask2x2_info_def mask2x2_bytes_def)
  show ?thesis
    using run len p00 p01 p10 p11
    by (intro exI [of _ buf]) (simp add: mask2x2_info_def)
qed

lemma mask2x2_decoded: "UpdateCursorShape mask2x2_info mask2x2_bytes no_cursor =
           Inr \<lparr>g_CursorBuffer = Some [0, 0, 0, 255, 255, 255, 255, 255, 0, 0, 0, 0, 255, 255, 255, 128], g_CursorWidth = 2, g_CursorHeight = 2,
                g_CursorHotspotX = 0, g_CursorHotspotY = 0\<rparr>"
  by (simp add: UpdateCursorShape_def mask2x2_info_def mask2x2_bytes_def no_cursor_def shape_type_defs loop_range_def mono_pixel_def read_byte_def Let_def upt_rec
        new_BYTE_def int_mul_def int_add_def INT_MAX_def INT_MIN_def stored_def)

subsection \<open>Loops that update a store in place\<close>

lemma fold_footprint:
  fixes f :: "'k \<Rightarrow> ('a \<Rightarrow> 'b) \<Rightarrow> ('a \<Rightarrow> 'b)" and fp :: "'k \<Rightarrow> 'a set"
  assumes frame: "\<And>k s a. k \<in> set ks \<Longrightarrow> a \<notin> fp k \<Longrightarrow> f k s a = s a"
      and loc: "\<And>k s s' a. k \<in> set ks \<Longrightarrow> a \<in> fp k \<Longrightarrow> (\<And>b. b \<in> fp k \<Longrightarrow> s b = s' b) \<Longrightarrow> f k s a = f k s' a"
      and disj: "\<And>k k'. k \<in> set ks \<Longrightarrow> k' \<in> set ks \<Longrightarrow> k \<noteq> k' \<Longrightarrow> fp k \<inter> fp k' = {}"
      and dist: "distinct ks"
  shows "(k \<in> set ks \<longrightarrow> a \<in> fp k \<longrightarrow> fold f ks s a = f k s a) \<and>
         ((\<forall>j\<in>set ks. a \<notin> fp j) \<longrightarrow> fold f ks s a = s a)"
  using assms
proof (induction ks arbitrary: s)
  case Nil
  show ?case by simp
next
  case (Cons j js)
  have IH: "(k \<in> set js \<longrightarrow> a \<in> fp k \<longrightarrow> fold f js s' a = f k s' a) \<and>
            ((\<forall>i\<in>set js. a \<notin> fp i) \<longrightarrow> fold f js s' a = s' a)" for s'
  proof (rule Cons.IH)
    show "\<And>k s a. k \<in> set js \<Longrightarrow> a \<notin> fp k \<Longrightarrow> f k s a = s a"
      by (rule Cons.prems(1)) simp_all
    show "\<And>k t t' a. k \<in> set js \<Longrightarrow> a \<in> fp k \<Longrightarrow> (\<And>b. b \<in> fp k \<Longrightarrow> t b = t' b)
            \<Longrightarrow> f k t a = f k t' a"
    proof -
      fix k a and t t' :: "'a \<Rightarrow> 'b"
      assume kin: "k \<in> set js" and a: "a \<in> fp k" and eq: "\<And>b. b \<in> fp k \<Longrightarrow> t b = t' b"
      from kin have "k \<in> set (j # js)" by simp
      then show "f k t a = f k t' a" using a eq by (rule Cons.prems(2))
    qed
    show "\<And>k k'. k \<in> set js \<Longrightarrow> k' \<in> set js \<Longrightarrow> k \<noteq> k' \<Longrightarrow> fp k \<inter> fp k' = {}"
      by (rule Cons.prems(3)) simp_all
    show "distinct js" using Cons.prems(4) by simp
  qed
  have fr: "\<And>t a. a \<notin> fp j \<Longrightarrow> f j t a = t a"
    by (rule Cons.prems(1)) simp_all
  have jn: "j \<notin> set js" using Cons.prems(4) by simp
  have dj: "fp j \<inter> fp i = {}" if "i \<in> set js" for i
  proof (rule Cons.prems(3))
    show "j \<in> set (j # js)" by simp
    show "i \<in> set (j # js)" using that by simp
    show "j \<noteq> i" using that jn by blast
  qed
  show ?case
  proof (intro conjI impI)
    assume k: "k \<in> set (j # js)" and a: "a \<in> fp k"
    show "fold f (j # js) s a = f k s a"
    proof (cases "k = j")
      case True
      have "\<forall>i\<in>set js. a \<notin> fp i" using dj a True by blast
      then have "fold f js (f j s) a = f j s a" using IH by blast
      then show ?thesis using True by simp
    next
      case False
      then have kin: "k \<in> set js" using k by simp
      have "fold f js (f j s) a = f k (f j s) a" using IH kin a by blast
      also have "\<dots> = f k s a"
      proof (rule Cons.prems(2))
        show "k \<in> set (j # js)" using k .
        show "a \<in> fp k" using a .
        fix b assume "b \<in> fp k"
        then have "b \<notin> fp j" using dj [OF kin] by blast
        then show "f j s b = s b" by (rule fr)
      qed
      finally show ?thesis by simp
    qed
  next
    assume n: "\<forall>i\<in>set (j # js). a \<notin> fp i"
    then have "fold f js (f j s) a = f j s a" using IH by simp
    also have "\<dots> = s a" using n by (intro fr) simp
    finally show "fold f (j # js) s a = s a" by simp
  qed
qed

lemma fold_guard2: "(if c then s else fold g xs s) = fold (\<lambda>x s. if c then s else g x s) xs s"
  by (induction xs arbitrary: s) auto

lemma fold_product: "fold (\<lambda>y. fold (g y) xs) ys s = fold (\<lambda>(y, x). g y x) (List.product ys xs) s"
  by (induction ys arbitrary: s) (auto simp: fold_map comp_def)

subsection \<open>Addresses of texels\<close>

lemma row_offset:
  fixes P :: int
  assumes "0 \<le> r" "r < P"
  shows "(Y * P + r) div P = Y" and "(Y * P + r) mod P = r"
proof -
  have P: "P \<noteq> 0" using assms by auto
  have "(Y * P + r) div P = Y + r div P" using P by simp
  then show "(Y * P + r) div P = Y" using assms by (simp add: div_pos_pos_trivial)
  show "(Y * P + r) mod P = r" using assms by (simp add: mod_pos_pos_trivial)
qed

lemma addr_inj:
  fixes P :: int
  assumes X: "0 \<le> X" "X < W" and X': "0 \<le> X'" "X' < W" and P: "4 * W \<le> P"
      and k: "0 \<le> k" "k < 4" and k': "0 \<le> k'" "k' < 4"
      and eq: "Y * P + X * 4 + k = Y' * P + X' * 4 + k'"
  shows "Y = Y' \<and> X = X' \<and> k = k'"
proof -
  have r: "0 \<le> X * 4 + k" "X * 4 + k < P" using X P k by auto
  have r': "0 \<le> X' * 4 + k'" "X' * 4 + k' < P" using X' P k' by auto
  have "(Y * P + (X * 4 + k)) div P = (Y' * P + (X' * 4 + k')) div P"
    using eq by (simp add: add.assoc)
  then have Y: "Y = Y'" using row_offset(1) [OF r] row_offset(1) [OF r'] by simp
  then have "X * 4 + k = X' * 4 + k'" using eq by simp
  then have "X = X' \<and> k = k'" using k k' by presburger
  then show ?thesis using Y by simp
qed

lemma Map_bytes_at:
  assumes "0 \<le> X" "X < W" "4 * W \<le> P" "0 \<le> k" "k < 4"
  shows "Map_bytes P t (Y * P + X * 4 + k) = channel (texel t X Y) k"
proof -
  have r: "0 \<le> X * 4 + k" "X * 4 + k < P" using assms by auto
  have a: "Y * P + X * 4 + k = Y * P + (X * 4 + k)" by simp
  have d: "(X * 4 + k) div 4 = X" using assms by auto
  have m: "(X * 4 + k) mod 4 = k" using assms by auto
  show ?thesis
    unfolding Map_bytes_def a row_offset(1) [OF r] row_offset(2) [OF r] d m ..
qed

lemma pixel_eta: "BGRA (channel p 0) (channel p 1) (channel p 2) (channel p 3) = p"
  by (cases p) simp

lemma texel_bytesD:
  assumes "a \<in> texel_bytes P X Y"
  shows "\<exists>c. 0 \<le> c \<and> c < 4 \<and> a = Y * P + X * 4 + c"
proof -
  from assms consider "a = Y * P + X * 4 + 0" | "a = Y * P + X * 4 + 1"
    | "a = Y * P + X * 4 + 2" | "a = Y * P + X * 4 + 3"
    by (auto simp: texel_bytes_def)
  then show ?thesis
  proof cases
    case 1 then show ?thesis by (intro exI [of _ 0]) simp
  next
    case 2 then show ?thesis by (intro exI [of _ 1]) simp
  next
    case 3 then show ?thesis by (intro exI [of _ 2]) simp
  next
    case 4 then show ?thesis by (intro exI [of _ 3]) simp
  qed
qed

lemma blend_pixel_frame:
  assumes "a \<notin> texel_bytes P (drawX + x) destY"
  shows "blend_pixel cb w drawX W P destY y x s a = s a"
  using assms by (simp add: blend_pixel_def Let_def texel_bytes_def)

lemma blend_pixel_clip:
  assumes "drawX + x < 0 \<or> W \<le> drawX + x"
  shows "blend_pixel cb w drawX W P destY y x s = s"
  using assms by (auto simp: blend_pixel_def Let_def)

lemma blend_pixel_local:
  assumes a: "a \<in> texel_bytes P (drawX + x) destY"
      and eq: "\<And>b. b \<in> texel_bytes P (drawX + x) destY \<Longrightarrow> s b = s' b"
  shows "blend_pixel cb w drawX W P destY y x s a = blend_pixel cb w drawX W P destY y x s' a"
proof -
  have e0: "s (destY * P + (drawX + x) * 4) = s' (destY * P + (drawX + x) * 4)"
   and e1: "s (destY * P + (drawX + x) * 4 + 1) = s' (destY * P + (drawX + x) * 4 + 1)"
   and e2: "s (destY * P + (drawX + x) * 4 + 2) = s' (destY * P + (drawX + x) * 4 + 2)"
   and e3: "s (destY * P + (drawX + x) * 4 + 3) = s' (destY * P + (drawX + x) * 4 + 3)"
    by (rule eq, simp add: texel_bytes_def)+
  have "s a = s' a" using a by (rule eq)
  then show ?thesis
    using a e0 e1 e2 e3
    by (simp add: blend_pixel_def Let_def texel_bytes_def)
qed

lemma blend_loop_flat:
  "blend_loop cb w h drawX drawY W H P s =
     fold (blend_step cb w drawX drawY W H P) (List.product (loop_range h) (loop_range w)) s"
proof -
  have "blend_row cb w drawX drawY W H P =
          (\<lambda>y. fold (\<lambda>x. blend_step cb w drawX drawY W H P (y, x)) (loop_range w))"
    by (intro ext) (simp add: blend_row_def blend_step_def Let_def fold_guard2)
  then show ?thesis
    by (simp add: blend_loop_def fold_product)
qed

lemma blend_step_frame:
  "a \<notin> blend_fp drawX drawY W H P k \<Longrightarrow> blend_step cb w drawX drawY W H P k s a = s a"
  by (cases k) (auto simp: blend_step_def blend_fp_def blend_pixel_frame blend_pixel_clip
                     split: if_splits)

lemma blend_step_local:
  assumes "a \<in> blend_fp drawX drawY W H P k"
      and "\<And>b. b \<in> blend_fp drawX drawY W H P k \<Longrightarrow> s b = s' b"
  shows "blend_step cb w drawX drawY W H P k s a = blend_step cb w drawX drawY W H P k s' a"
proof (cases k)
  case (Pair y x)
  show ?thesis
  proof (cases "0 \<le> drawY + y \<and> drawY + y < H \<and> 0 \<le> drawX + x \<and> drawX + x < W")
    case True
    have "blend_pixel cb w drawX W P (drawY + y) y x s a = blend_pixel cb w drawX W P (drawY + y) y x s' a"
      using assms True Pair by (intro blend_pixel_local) (simp_all add: blend_fp_def)
    then show ?thesis using True Pair by (simp add: blend_step_def)
  next
    case False
    then have "blend_fp drawX drawY W H P k = {}" using Pair by (auto simp: blend_fp_def)
    then show ?thesis using assms(1) by simp
  qed
qed

lemma blend_fp_disjoint:
  assumes P: "4 * W \<le> P" and ne: "k \<noteq> k'"
  shows "blend_fp drawX drawY W H P k \<inter> blend_fp drawX drawY W H P k' = {}"
proof (cases k, cases k')
  fix y x y' x'
  assume k: "k = (y, x)" and k': "k' = (y', x')"
  show ?thesis
  proof (rule ccontr)
    assume "blend_fp drawX drawY W H P k \<inter> blend_fp drawX drawY W H P k' \<noteq> {}"
    then obtain a where a: "a \<in> blend_fp drawX drawY W H P k" and a': "a \<in> blend_fp drawX drawY W H P k'"
      by blast
    from a k have b: "0 \<le> drawX + x" "drawX + x < W" and at: "a \<in> texel_bytes P (drawX + x) (drawY + y)"
      by (auto simp: blend_fp_def split: if_splits)
    from a' k' have b': "0 \<le> drawX + x'" "drawX + x' < W" and at': "a \<in> texel_bytes P (drawX + x') (drawY + y')"
      by (auto simp: blend_fp_def split: if_splits)
    from texel_bytesD [OF at] obtain c where c: "0 \<le> c" "c < 4" "a = (drawY + y) * P + (drawX + x) * 4 + c"
      by blast
    from texel_bytesD [OF at'] obtain c' where c': "0 \<le> c'" "c' < 4" "a = (drawY + y') * P + (drawX + x') * 4 + c'"
      by blast
    have "(drawY + y) * P + (drawX + x) * 4 + c = (drawY + y') * P + (drawX + x') * 4 + c'"
      using c(3) c'(3) by simp
    from addr_inj [OF b b' P c(1,2) c'(1,2) this] have "y = y'" "x = x'" by auto
    then show False using ne k k' by simp
  qed
qed

lemma blend_loop_mem:
  assumes P: "4 * W \<le> P"
  shows "(0 \<le> y \<and> y < h \<and> 0 \<le> x \<and> x < w \<longrightarrow> a \<in> blend_fp drawX drawY W H P (y, x) \<longrightarrow>
            blend_loop cb w h drawX drawY W H P s a = blend_step cb w drawX drawY W H P (y, x) s a) \<and>
         ((\<forall>y x. 0 \<le> y \<and> y < h \<and> 0 \<le> x \<and> x < w \<longrightarrow> a \<notin> blend_fp drawX drawY W H P (y, x)) \<longrightarrow>
            blend_loop cb w h drawX drawY W H P s a = s a)"
proof -
  let ?ks = "List.product (loop_range h) (loop_range w)"
  have ks: "set ?ks = {(y, x). 0 \<le> y \<and> y < h \<and> 0 \<le> x \<and> x < w}"
    by (auto simp: set_loop_range)
  have "((y, x) \<in> set ?ks \<longrightarrow> a \<in> blend_fp drawX drawY W H P (y, x) \<longrightarrow>
           fold (blend_step cb w drawX drawY W H P) ?ks s a = blend_step cb w drawX drawY W H P (y, x) s a) \<and>
        ((\<forall>j\<in>set ?ks. a \<notin> blend_fp drawX drawY W H P j) \<longrightarrow>
           fold (blend_step cb w drawX drawY W H P) ?ks s a = s a)"
  proof (rule fold_footprint)
    show "distinct ?ks" by (simp add: distinct_product distinct_loop_range)
    show "\<And>k s a. k \<in> set ?ks \<Longrightarrow> a \<notin> blend_fp drawX drawY W H P k \<Longrightarrow>
            blend_step cb w drawX drawY W H P k s a = s a"
      by (rule blend_step_frame)
    show "\<And>k k'. k \<in> set ?ks \<Longrightarrow> k' \<in> set ?ks \<Longrightarrow> k \<noteq> k' \<Longrightarrow>
            blend_fp drawX drawY W H P k \<inter> blend_fp drawX drawY W H P k' = {}"
      by (rule blend_fp_disjoint [OF P])
    show "\<And>k t t' a. k \<in> set ?ks \<Longrightarrow> a \<in> blend_fp drawX drawY W H P k \<Longrightarrow>
            (\<And>b. b \<in> blend_fp drawX drawY W H P k \<Longrightarrow> t b = t' b) \<Longrightarrow>
            blend_step cb w drawX drawY W H P k t a = blend_step cb w drawX drawY W H P k t' a"
      by (rule blend_step_local)
  qed
  then show ?thesis
    unfolding blend_loop_flat ks by auto
qed

subsection \<open>The blend over the mapped bytes\<close>




lemma texel_Unmap:
  assumes "0 \<le> X" "X < tex_Width t" "0 \<le> Y" "Y < tex_Height t"
  shows "texel (Unmap_bytes P m t) X Y =
           BGRA (m (Y * P + X * 4 + 0)) (m (Y * P + X * 4 + 1)) (m (Y * P + X * 4 + 2)) (m (Y * P + X * 4 + 3))"
  using assms by (simp add: Unmap_bytes_def)

lemma texel_Unmap_outside:
  assumes "\<not> (0 \<le> X \<and> X < tex_Width t \<and> 0 \<le> Y \<and> Y < tex_Height t)"
  shows "texel (Unmap_bytes P m t) X Y = texel t X Y"
  using assms by (auto simp: Unmap_bytes_def)

lemma texel_bytesI:
  "0 \<le> k \<Longrightarrow> k < 4 \<Longrightarrow> Y * P + X * 4 + k \<in> texel_bytes P X Y"
proof -
  assume "0 \<le> k" "k < 4"
  then consider "k = 0" | "k = 1" | "k = 2" | "k = 3" by linarith
  then show ?thesis by cases (simp_all add: texel_bytes_def)
qed

text \<open>Bytes of a canvas texel under cursor pixel \<open>(x, y)\<close>.\<close>

lemma blend_loop_covered:
  assumes P: "4 * W \<le> P"
      and c: "0 \<le> y" "y < h" "0 \<le> x" "x < w"
      and b: "0 \<le> drawX + x" "drawX + x < W" "0 \<le> drawY + y" "drawY + y < H"
      and k: "0 \<le> k" "k < 4"
  shows "blend_loop cb w h drawX drawY W H P s ((drawY + y) * P + (drawX + x) * 4 + k) =
           blend_pixel cb w drawX W P (drawY + y) y x s ((drawY + y) * P + (drawX + x) * 4 + k)"
proof -
  let ?a = "(drawY + y) * P + (drawX + x) * 4 + k"
  have "?a \<in> texel_bytes P (drawX + x) (drawY + y)"
    using k by (rule texel_bytesI)
  then have fp: "?a \<in> blend_fp drawX drawY W H P (y, x)"
    using b by (simp add: blend_fp_def)
  have "blend_loop cb w h drawX drawY W H P s ?a = blend_step cb w drawX drawY W H P (y, x) s ?a"
    using blend_loop_mem [OF P, of y h x w ?a drawX drawY H cb s] c fp by blast
  then show ?thesis using b by (simp add: blend_step_def)
qed

text \<open>Bytes of a canvas texel that is the destination of no cursor pixel.\<close>

lemma blend_loop_uncovered:
  assumes P: "4 * W \<le> P"
      and X: "0 \<le> X" "X < W"
      and n: "\<not> (0 \<le> X - drawX \<and> X - drawX < w \<and> 0 \<le> Y - drawY \<and> Y - drawY < h \<and> 0 \<le> Y \<and> Y < H)"
      and k: "0 \<le> k" "k < 4"
  shows "blend_loop cb w h drawX drawY W H P s (Y * P + X * 4 + k) = s (Y * P + X * 4 + k)"
proof -
  let ?a = "Y * P + X * 4 + k"
  have "?a \<notin> blend_fp drawX drawY W H P (y, x)" if yx: "0 \<le> y \<and> y < h \<and> 0 \<le> x \<and> x < w" for y x
  proof
    assume "?a \<in> blend_fp drawX drawY W H P (y, x)"
    then have b: "0 \<le> drawY + y" "drawY + y < H" "0 \<le> drawX + x" "drawX + x < W"
      and at: "?a \<in> texel_bytes P (drawX + x) (drawY + y)"
      by (auto simp: blend_fp_def split: if_splits)
    from texel_bytesD [OF at] obtain c where c: "0 \<le> c" "c < 4"
      "Y * P + X * 4 + k = (drawY + y) * P + (drawX + x) * 4 + c" by blast
    from addr_inj [OF X b(3,4) P k c] have "Y = drawY + y" "X = drawX + x" by auto
    then show False using n yx b by auto
  qed
  then show ?thesis
    using blend_loop_mem [OF P, of 0 h 0 w ?a drawX drawY H cb s] by blast
qed

lemma blend_pixel_bytes:
  assumes b: "0 \<le> X" "X < W" and X: "X = drawX + x"
  shows "blend_pixel cb w drawX W P Y y x s (Y * P + X * 4 + 0) =
           (let a = cb ! nat ((y * w + x) * 4 + 3) in
            if a = 0 then s (Y * P + X * 4 + 0)
            else if a = 255 then cb ! nat ((y * w + x) * 4 + 0)
            else word_of_int ((uint (cb ! nat ((y * w + x) * 4 + 0)) * uint a +
                               uint (s (Y * P + X * 4 + 0)) * (255 - uint a)) div 255))"
    and "blend_pixel cb w drawX W P Y y x s (Y * P + X * 4 + 1) =
           (let a = cb ! nat ((y * w + x) * 4 + 3) in
            if a = 0 then s (Y * P + X * 4 + 1)
            else if a = 255 then cb ! nat ((y * w + x) * 4 + 1)
            else word_of_int ((uint (cb ! nat ((y * w + x) * 4 + 1)) * uint a +
                               uint (s (Y * P + X * 4 + 1)) * (255 - uint a)) div 255))"
    and "blend_pixel cb w drawX W P Y y x s (Y * P + X * 4 + 2) =
           (let a = cb ! nat ((y * w + x) * 4 + 3) in
            if a = 0 then s (Y * P + X * 4 + 2)
            else if a = 255 then cb ! nat ((y * w + x) * 4 + 2)
            else word_of_int ((uint (cb ! nat ((y * w + x) * 4 + 2)) * uint a +
                               uint (s (Y * P + X * 4 + 2)) * (255 - uint a)) div 255))"
    and "blend_pixel cb w drawX W P Y y x s (Y * P + X * 4 + 3) =
           (let a = cb ! nat ((y * w + x) * 4 + 3) in
            if a = 0 then s (Y * P + X * 4 + 3) else 255)"
  using b unfolding blend_pixel_def X [symmetric] Let_def
  by (simp_all add: word_gt_0)

lemma draw_run:
  assumes "g_CursorBuffer cur = Some cb" "g_CursorWidth cur \<noteq> 0" "g_CursorHeight cur \<noteq> 0"
      and "staging_created env" "map_succeeded env"
  shows "DrawCursorOnTexture env cur t cursorX cursorY =
           Unmap_bytes (RowPitch env)
             (blend_loop cb (g_CursorWidth cur) (g_CursorHeight cur)
                (cursorX - g_CursorHotspotX cur) (cursorY - g_CursorHotspotY cur)
                (tex_Width t) (tex_Height t) (RowPitch env) (Map_bytes (RowPitch env) t)) t"
  using assms by (simp add: DrawCursorOnTexture_def Let_def)

lemma draw_covered:
  assumes cur: "g_CursorBuffer cur = Some cb" "g_CursorWidth cur \<noteq> 0" "g_CursorHeight cur \<noteq> 0"
      and env: "staging_created env" "map_succeeded env"
      and P: "4 * tex_Width t \<le> RowPitch env"
      and c: "0 \<le> y" "y < g_CursorHeight cur" "0 \<le> x" "x < g_CursorWidth cur"
      and X: "X = cursorX - g_CursorHotspotX cur + x" and Y: "Y = cursorY - g_CursorHotspotY cur + y"
      and b: "0 \<le> X" "X < tex_Width t" "0 \<le> Y" "Y < tex_Height t"
  shows "texel (DrawCursorOnTexture env cur t cursorX cursorY) X Y =
           (let a = cb ! nat ((y * g_CursorWidth cur + x) * 4 + 3);
                src = (\<lambda>k. cb ! nat ((y * g_CursorWidth cur + x) * 4 + k));
                dst = (\<lambda>k. channel (texel t X Y) k)
            in if a = 0 then texel t X Y
               else if a = 255 then BGRA (src 0) (src 1) (src 2) 255
               else BGRA (word_of_int ((uint (src 0) * uint a + uint (dst 0) * (255 - uint a)) div 255))
                         (word_of_int ((uint (src 1) * uint a + uint (dst 1) * (255 - uint a)) div 255))
                         (word_of_int ((uint (src 2) * uint a + uint (dst 2) * (255 - uint a)) div 255))
                         255)"
proof -
  let ?P = "RowPitch env"
  let ?m = "Map_bytes ?P t"
  let ?dX = "cursorX - g_CursorHotspotX cur" and ?dY = "cursorY - g_CursorHotspotY cur"
  let ?m' = "blend_loop cb (g_CursorWidth cur) (g_CursorHeight cur) ?dX ?dY
               (tex_Width t) (tex_Height t) ?P ?m"
  have m: "?m (Y * ?P + X * 4 + k) = channel (texel t X Y) k" if "0 \<le> k" "k < 4" for k
    using b(1,2) P that by (rule Map_bytes_at)
  have m': "?m' (Y * ?P + X * 4 + k) =
              blend_pixel cb (g_CursorWidth cur) ?dX (tex_Width t) ?P Y y x ?m (Y * ?P + X * 4 + k)"
    if "0 \<le> k" "k < 4" for k
    using blend_loop_covered [OF P c, of ?dX ?dY "tex_Height t" k cb ?m] b that
    unfolding X [symmetric] Y [symmetric] by simp
  have "texel (DrawCursorOnTexture env cur t cursorX cursorY) X Y =
          BGRA (?m' (Y * ?P + X * 4 + 0)) (?m' (Y * ?P + X * 4 + 1))
               (?m' (Y * ?P + X * 4 + 2)) (?m' (Y * ?P + X * 4 + 3))"
    unfolding draw_run [OF cur env] using b by (rule texel_Unmap)
  also have "\<dots> = BGRA (blend_pixel cb (g_CursorWidth cur) ?dX (tex_Width t) ?P Y y x ?m (Y * ?P + X * 4 + 0))
                        (blend_pixel cb (g_CursorWidth cur) ?dX (tex_Width t) ?P Y y x ?m (Y * ?P + X * 4 + 1))
                        (blend_pixel cb (g_CursorWidth cur) ?dX (tex_Width t) ?P Y y x ?m (Y * ?P + X * 4 + 2))
                        (blend_pixel cb (g_CursorWidth cur) ?dX (tex_Width t) ?P Y y x ?m (Y * ?P + X * 4 + 3))"
    using m' [of 0] m' [of 1] m' [of 2] m' [of 3] by simp
  finally show ?thesis
    unfolding blend_pixel_bytes [OF b(1,2) X] Let_def
    using m [of 0] m [of 1] m [of 2] m [of 3]
    by (simp add: pixel_eta)
qed

lemma draw_uncovered:
  assumes cur: "g_CursorBuffer cur = Some cb" "g_CursorWidth cur \<noteq> 0" "g_CursorHeight cur \<noteq> 0"
      and env: "staging_created env" "map_succeeded env"
      and P: "4 * tex_Width t \<le> RowPitch env"
      and n: "\<not> (0 \<le> X - (cursorX - g_CursorHotspotX cur) \<and> X - (cursorX - g_CursorHotspotX cur) < g_CursorWidth cur \<and>
                 0 \<le> Y - (cursorY - g_CursorHotspotY cur) \<and> Y - (cursorY - g_CursorHotspotY cur) < g_CursorHeight cur)"
  shows "texel (DrawCursorOnTexture env cur t cursorX cursorY) X Y = texel t X Y"
proof (cases "0 \<le> X \<and> X < tex_Width t \<and> 0 \<le> Y \<and> Y < tex_Height t")
  case False
  then show ?thesis unfolding draw_run [OF cur env] by (rule texel_Unmap_outside)
next
  case True
  let ?P = "RowPitch env"
  let ?m = "Map_bytes ?P t"
  let ?dX = "cursorX - g_CursorHotspotX cur" and ?dY = "cursorY - g_CursorHotspotY cur"
  let ?m' = "blend_loop cb (g_CursorWidth cur) (g_CursorHeight cur) ?dX ?dY
               (tex_Width t) (tex_Height t) ?P ?m"
  have n': "\<not> (0 \<le> X - ?dX \<and> X - ?dX < g_CursorWidth cur \<and> 0 \<le> Y - ?dY \<and> Y - ?dY < g_CursorHeight cur \<and>
               0 \<le> Y \<and> Y < tex_Height t)"
    using n by blast
  have m: "?m (Y * ?P + X * 4 + k) = channel (texel t X Y) k" if "0 \<le> k" "k < 4" for k
    using True P that by (intro Map_bytes_at) auto
  have m': "?m' (Y * ?P + X * 4 + k) = ?m (Y * ?P + X * 4 + k)" if "0 \<le> k" "k < 4" for k
    using True that by (intro blend_loop_uncovered [OF P _ _ n']) auto
  have "texel (DrawCursorOnTexture env cur t cursorX cursorY) X Y =
          BGRA (?m' (Y * ?P + X * 4 + 0)) (?m' (Y * ?P + X * 4 + 1))
               (?m' (Y * ?P + X * 4 + 2)) (?m' (Y * ?P + X * 4 + 3))"
    unfolding draw_run [OF cur env] using True by (intro texel_Unmap) auto
  also have "\<dots> = BGRA (channel (texel t X Y) 0) (channel (texel t X Y) 1)
                        (channel (texel t X Y) 2) (channel (texel t X Y) 3)"
    using m' [of 0] m' [of 1] m' [of 2] m' [of 3] m [of 0] m [of 1] m [of 2] m [of 3] by simp
  finally show ?thesis by (simp add: pixel_eta)
qed

subsection \<open>The blend on the canvas\<close>




subsection \<open>No cursor before the first shape\<close>

text \<open>
  Claim C10. Without a decoded pointer shape (no buffer, or a width or height of zero) the
  cursor blend returns the canvas it was given, and the tick presents the frame exactly as
  the draw of the quad left it.
\<close>

theorem no_shape_no_cursor:
  assumes "g_CursorBuffer (cursor s) = None \<or> g_CursorWidth (cursor s) = 0 \<or>
           g_CursorHeight (cursor s) = 0"
  shows "DrawCursorOnTexture d (cursor s) t cursorX cursorY = t \<and>
         draw_pointer env (cursor s) t = t \<and>
         screen (render_and_present env s) =
           Draw_quad (sampler env) (bound_desktop s) (ClearRenderTargetView (g_BackBuffer s))"
proof -
  have D: "DrawCursorOnTexture d' (cursor s) t' x y = t'" for d' t' x y
    using assms by (auto simp: DrawCursorOnTexture_def split: option.splits)
  have P: "draw_pointer env (cursor s) t' = t'" for t'
    by (simp add: draw_pointer_def D Let_def split: option.splits prod.splits)
  show ?thesis
    by (simp add: D P render_and_present_def Let_def)
qed

theorem no_shape_no_cursor_witness:
  "g_CursorBuffer (cursor dxgi_started) = None \<and>
   DrawCursorOnTexture draw_ok (cursor dxgi_started) demo_canvas 3 0 = demo_canvas \<and>
   draw_pointer (timeout_tick (100, 100)) (cursor dxgi_started) demo_canvas = demo_canvas \<and>
   screen (render_and_present (timeout_tick (100, 100)) dxgi_started) =
     Draw_quad (sampler (timeout_tick (100, 100))) (bound_desktop dxgi_started)
       (ClearRenderTargetView (g_BackBuffer dxgi_started))"
proof -
  have h: "g_CursorBuffer (cursor dxgi_started) = None"
    by (simp add: dxgi_started_def no_cursor_def)
  then have "g_CursorBuffer (cursor dxgi_started) = None \<or> g_CursorWidth (cursor dxgi_started) = 0 \<or>
             g_CursorHeight (cursor dxgi_started) = 0" by simp
  from no_shape_no_cursor [OF this, of draw_ok demo_canvas 3 0 "timeout_tick (100, 100)"] h
  show ?thesis by simp
qed

text \<open>The cursor state changes only on a tick that fetched a pointer shape.\<close>

lemma cursor_kept:
  assumes "CaptureAndRender env s = Inr s'"
      and "\<And>f info buf. acquire env = S_OK f \<Longrightarrow> pointerShape f \<noteq> ShapeFetched info buf"
  shows "cursor s' = cursor s"
proof (cases "acquire env")
  case DXGI_ERROR_WAIT_TIMEOUT
  with assms(1) show ?thesis
    by (auto simp: CaptureAndRender_def render_and_present_def Let_def split: option.splits)
next
  case (S_OK f)
  with assms show ?thesis
    by (cases "pointerShape f")
       (auto simp: CaptureAndRender_def render_and_present_def acquired_frame_def Let_def
             split: option.splits sum.splits)
next
  case DXGI_ERROR_ACCESS_LOST
  with assms(1) show ?thesis
    by (auto simp: CaptureAndRender_def InitDesktopDuplication_def Let_def
             split: option.splits prod.splits if_splits)
next
  case E_FAIL
  with assms(1) show ?thesis
    by (auto simp: CaptureAndRender_def render_and_present_def Let_def split: option.splits)
qed

subsection \<open>Loss of the duplication\<close>

text \<open>
  What a tick does on \<^verbatim>\<open>DXGI_ERROR_ACCESS_LOST\<close>, whatever the re-creation gives: one
  release, one call of \<^verbatim>\<open>InitDesktopDuplication\<close>, no draw and no \<^verbatim>\<open>Present\<close>; canvas,
  screen, cursor and \<^verbatim>\<open>g_Running\<close> are as before.
\<close>

lemma access_lost_tick:
  assumes "g_DeskDupl s \<noteq> None" and "acquire env = DXGI_ERROR_ACCESS_LOST"
  shows "\<exists>s'. CaptureAndRender env s = Inr s' \<and>
              calls s' = calls s @ [Release_DeskDupl,
                                    Call_InitDesktopDuplication (fails_at (reinit env) = None)] \<and>
              g_BackBuffer s' = g_BackBuffer s \<and> screen s' = screen s \<and>
              cursor s' = cursor s \<and> g_Running s' = g_Running s \<and>
              (g_DeskDupl s' = None \<longleftrightarrow>
                 fails_at (reinit env) \<in> {Some QueryInterface_IDXGIDevice, Some GetAdapter,
                    Some EnumOutputs, Some QueryInterface_IDXGIOutput1, Some DuplicateOutput})"
proof (cases "fails_at (reinit env)")
  case None
  with assms show ?thesis
    by (auto simp: CaptureAndRender_def InitDesktopDuplication_def Let_def)
next
  case (Some a)
  with assms show ?thesis
    by (cases a) (auto simp: CaptureAndRender_def InitDesktopDuplication_def Let_def)
qed

text \<open>
  Claim C1. On a tick that loses the duplication while \<^verbatim>\<open>DuplicateOutput\<close> fails, the
  program releases the duplication and calls \<^verbatim>\<open>InitDesktopDuplication\<close> once, leaves
  canvas and screen as they were, and goes on: \<^verbatim>\<open>g_Running\<close> stays true and no message
  box is shown, so the next iteration calls through the null \<^verbatim>\<open>g_DeskDupl\<close>. The same
  failure at start-up is reported and ends the program before the loop.
\<close>

theorem recovery_failure_not_fatal:
  "CaptureAndRender lost_tick dxgi_started =
     Inr (dxgi_started\<lparr>g_DeskDupl := None,
                       calls := [Release_DeskDupl, Call_InitDesktopDuplication False]\<rparr>) \<and>
   main_loop [\<lparr>quit_requested = False, tick = lost_tick\<rparr>] dxgi_started =
     Inr (dxgi_started\<lparr>g_DeskDupl := None,
                       calls := [Release_DeskDupl, Call_InitDesktopDuplication False]\<rparr>) \<and>
   g_Running (dxgi_started\<lparr>g_DeskDupl := None,
                       calls := [Release_DeskDupl, Call_InitDesktopDuplication False]\<rparr>) \<and>
   main_loop lost_then_next dxgi_started = Inl NullDeref \<and>
   WinMain_InitDesktopDuplication (reinit lost_tick) dxgi_started =
     Inl ''Failed to initialize Desktop Duplication.''"
proof -
  have t: "CaptureAndRender lost_tick dxgi_started =
     Inr (dxgi_started\<lparr>g_DeskDupl := None,
                       calls := [Release_DeskDupl, Call_InitDesktopDuplication False]\<rparr>)"
    by (simp add: CaptureAndRender_def lost_tick_def dxgi_started_def
          InitDesktopDuplication_def Let_def)
  have n: "CaptureAndRender (timeout_tick (0, 0))
             (dxgi_started\<lparr>g_DeskDupl := None,
                       calls := [Release_DeskDupl, Call_InitDesktopDuplication False]\<rparr>) = Inl NullDeref"
    by (simp add: CaptureAndRender_def)
  have r: "g_Running dxgi_started" by (simp add: dxgi_started_def)
  have w: "WinMain_InitDesktopDuplication (reinit lost_tick) dxgi_started =
     Inl ''Failed to initialize Desktop Duplication.''"
    by (simp add: WinMain_InitDesktopDuplication_def lost_tick_def InitDesktopDuplication_def)
  show ?thesis using t n r w by (simp add: lost_then_next_def)
qed

subsection \<open>Unsupported and malformed shapes\<close>

lemma loop_range_pos: "0 < n \<Longrightarrow> \<exists>rest. loop_range n = 0 # rest"
  by (simp add: loop_range_def upt_conv_Cons)

lemma mono_first_pixel_faults:
  assumes "int (length sb) \<le> uint (word_of_int h * Pitch :: UINT)"
  shows "mono_pixel sb Pitch h 0 0 = Inl OutOfBounds"
  using assms by (simp add: mono_pixel_def read_byte_def Let_def split: sum.splits)

lemma short_monochrome_faults:
  assumes ty: "shape_Type info = DXGI_OUTDUPL_POINTER_SHAPE_TYPE_MONOCHROME"
      and w: "0 < unat (shape_Width info)" and h: "0 < unat (shape_Height info) div 2"
      and sz: "length shapeBuffer \<le> (unat (shape_Height info) div 2) * unat (shape_Pitch info)"
      and hp: "(unat (shape_Height info) div 2) * unat (shape_Pitch info) < 4294967296"
      and w7: "unat (shape_Width info) + 7 < 2147483648"
      and fits: "unat (shape_Width info) * (unat (shape_Height info) div 2) * 4 < 2147483648"
  shows "UpdateCursorShape info shapeBuffer st = Inl OutOfBounds"
proof -
  define w where "w = unat (shape_Width info)"
  define h where "h = unat (shape_Height info) div 2"
  define P where "P = shape_Pitch info"
  have sw: "sint (shape_Width info) = int w"
    unfolding w_def using w7 by (intro sint_UINT) simp
  have sh: "sint (shape_Height info div 2) = int h"
    unfolding h_def by (rule sint_half)
  have "0 < h" using h by (simp only: h_def)
  then have "0 < int h" by simp
  then obtain ys where ys: "loop_range (int h) = 0 # ys"
    using loop_range_pos [of "int h"] by blast
  have "0 < w" using w by (simp only: w_def)
  then have "0 < int w" by simp
  then obtain xs where xs: "loop_range (int w) = 0 # xs"
    using loop_range_pos [of "int w"] by blast
  have "int (h * unat P) < 4294967296" using hp unfolding h_def P_def by linarith
  then have "uint (word_of_int (int (h * unat P)) :: UINT) = int (h * unat P)"
    by (rule uint32_small [OF of_nat_0_le_iff])
  moreover have "(word_of_int (int h) * P :: UINT) = word_of_int (int (h * unat P))"
    by simp
  ultimately have u: "uint (word_of_int (int h) * P :: UINT) = int (h * unat P)"
    by simp
  have "int (length shapeBuffer) \<le> int (h * unat P)"
    using sz unfolding h_def P_def by linarith
  then have px: "mono_pixel shapeBuffer P (int h) 0 0 = Inl OutOfBounds"
    unfolding u [symmetric] by (rule mono_first_pixel_faults)
  have c: "collect (\<lambda>y. collect (mono_pixel shapeBuffer P (int h) y) (loop_range (int w)))
             (loop_range (int h)) = Inl OutOfBounds"
    by (simp add: ys xs px)
  have alloc: "new_BYTE (int w) (int h) = Inr (w * h * 4)"
    using fits unfolding w_def h_def by (rule new_BYTE_fits)
  have "int w + 7 < 2147483648" using w7 unfolding w_def by linarith
  then have a7: "int_add (int w) 7 = Inr (int w + 7)"
    by (simp add: int_add_def INT_MAX_def INT_MIN_def)
  show ?thesis
    using ty by (simp add: UpdateCursorShape_def Let_def sw sh alloc a7 c [unfolded P_def])
qed

text \<open>
  Claim C2 fails as stated. A shape of an unsupported type does not leave the cached cursor
  alone: the decoded 3x2 cursor is gone afterwards and width, height and hot spot are the
  update's. A monochrome payload with only one of its two masks is read past its end.
\<close>

theorem unsupported_shape_drops_cursor_counterexample:
  "UpdateCursorShape odd_shape [1, 2, 3, 4] demo_cursor =
     Inr \<lparr>g_CursorBuffer = None, g_CursorWidth = 1, g_CursorHeight = 1,
          g_CursorHotspotX = 5, g_CursorHotspotY = 6\<rparr> \<and>
   UpdateCursorShape odd_shape [1, 2, 3, 4] demo_cursor \<noteq> Inr demo_cursor \<and>
   g_CursorBuffer demo_cursor \<noteq> None \<and>
   UpdateCursorShape mask2x2_info short_mask_bytes demo_cursor = Inl OutOfBounds"
  by (simp add: UpdateCursorShape_def odd_shape_def demo_cursor_def shape_type_defs
        mask2x2_info_def short_mask_bytes_def loop_range_def upt_rec mono_pixel_def
        read_byte_def Let_def new_BYTE_def int_mul_def int_add_def INT_MAX_def INT_MIN_def)

text \<open>
  Claim C2 as amended. An update of an unsupported type does not fault, but it is not
  discarded either: the previous bitmap is deleted and width, height and hot spot are
  overwritten before the type is looked at, so that no bitmap is left and the blend draws
  nothing. The cached cursor survives a frame, with or without a desktop image, only when
  \<^verbatim>\<open>GetFramePointerShape\<close> itself fails, since \<^verbatim>\<open>UpdateCursorShape\<close> is not called then; such
  a frame is processed without a fault whenever the staging texture its image is copied
  to exists. Size and pitch are not validated: a monochrome payload no longer than its
  AND mask, of sizes that the 32-bit arithmetic holds, is read out of bounds.
\<close>

theorem unsupported_shape_drops_cursor:
  "(shape_Type info \<notin> {DXGI_OUTDUPL_POINTER_SHAPE_TYPE_MONOCHROME,
                          DXGI_OUTDUPL_POINTER_SHAPE_TYPE_COLOR,
                          DXGI_OUTDUPL_POINTER_SHAPE_TYPE_MASKED_COLOR} \<longrightarrow>
      UpdateCursorShape info shapeBuffer st =
        Inr \<lparr>g_CursorBuffer = None,
             g_CursorWidth = sint (shape_Width info),
             g_CursorHeight = sint (shape_Height info),
             g_CursorHotspotX = shape_HotSpot_x info,
             g_CursorHotspotY = shape_HotSpot_y info\<rparr> \<and>
      DrawCursorOnTexture d
        \<lparr>g_CursorBuffer = None,
         g_CursorWidth = sint (shape_Width info),
         g_CursorHeight = sint (shape_Height info),
         g_CursorHotspotX = shape_HotSpot_x info,
         g_CursorHotspotY = shape_HotSpot_y info\<rparr> t cursorX cursorY = t) \<and>
   (pointerShape f = ShapeFetchFailed \<longrightarrow> acquired_frame f s = Inr s' \<longrightarrow>
      cursor s' = cursor s) \<and>
   (pointerShape f = ShapeFetchFailed \<longrightarrow>
    (desktopTexture f \<noteq> None \<longrightarrow> g_StagingTexture s \<noteq> None) \<longrightarrow>
      (\<exists>s1. acquired_frame f s = Inr s1)) \<and>
   (shape_Type info = DXGI_OUTDUPL_POINTER_SHAPE_TYPE_MONOCHROME \<longrightarrow>
    0 < unat (shape_Width info) \<longrightarrow> 0 < unat (shape_Height info) div 2 \<longrightarrow>
    length shapeBuffer \<le> (unat (shape_Height info) div 2) * unat (shape_Pitch info) \<longrightarrow>
    (unat (shape_Height info) div 2) * unat (shape_Pitch info) < 4294967296 \<longrightarrow>
    unat (shape_Width info) + 7 < 2147483648 \<longrightarrow>
    unat (shape_Width info) * (unat (shape_Height info) div 2) * 4 < 2147483648 \<longrightarrow>
      UpdateCursorShape info shapeBuffer st = Inl OutOfBounds)"
proof (intro conjI impI)
  assume "shape_Type info \<notin> {DXGI_OUTDUPL_POINTER_SHAPE_TYPE_MONOCHROME,
                          DXGI_OUTDUPL_POINTER_SHAPE_TYPE_COLOR,
                          DXGI_OUTDUPL_POINTER_SHAPE_TYPE_MASKED_COLOR}"
  then show "UpdateCursorShape info shapeBuffer st =
        Inr \<lparr>g_CursorBuffer = None,
             g_CursorWidth = sint (shape_Width info),
             g_CursorHeight = sint (shape_Height info),
             g_CursorHotspotX = shape_HotSpot_x info,
             g_CursorHotspotY = shape_HotSpot_y info\<rparr>"
    by (simp add: UpdateCursorShape_def Let_def)
next
  show "DrawCursorOnTexture d
        \<lparr>g_CursorBuffer = None,
         g_CursorWidth = sint (shape_Width info),
         g_CursorHeight = sint (shape_Height info),
         g_CursorHotspotX = shape_HotSpot_x info,
         g_CursorHotspotY = shape_HotSpot_y info\<rparr> t cursorX cursorY = t"
    by (simp add: DrawCursorOnTexture_def)
next
  assume "pointerShape f = ShapeFetchFailed" "acquired_frame f s = Inr s'"
  then show "cursor s' = cursor s"
    by (auto simp: acquired_frame_def split: option.splits sum.splits)
next
  assume "pointerShape f = ShapeFetchFailed"
    "desktopTexture f \<noteq> None \<longrightarrow> g_StagingTexture s \<noteq> None"
  then show "\<exists>s1. acquired_frame f s = Inr s1"
    by (auto simp: acquired_frame_def split: option.splits)
next
  assume "shape_Type info = DXGI_OUTDUPL_POINTER_SHAPE_TYPE_MONOCHROME"
    "0 < unat (shape_Width info)" "0 < unat (shape_Height info) div 2"
    "length shapeBuffer \<le> (unat (shape_Height info) div 2) * unat (shape_Pitch info)"
    "(unat (shape_Height info) div 2) * unat (shape_Pitch info) < 4294967296"
    "unat (shape_Width info) + 7 < 2147483648"
    "unat (shape_Width info) * (unat (shape_Height info) div 2) * 4 < 2147483648"
  then show "UpdateCursorShape info shapeBuffer st = Inl OutOfBounds"
    by (rule short_monochrome_faults)
qed

theorem unsupported_shape_drops_cursor_witness:
  "shape_Type odd_shape \<notin> {DXGI_OUTDUPL_POINTER_SHAPE_TYPE_MONOCHROME,
                          DXGI_OUTDUPL_POINTER_SHAPE_TYPE_COLOR,
                          DXGI_OUTDUPL_POINTER_SHAPE_TYPE_MASKED_COLOR} \<and>
   UpdateCursorShape odd_shape [1, 2, 3, 4] demo_cursor =
     Inr \<lparr>g_CursorBuffer = None, g_CursorWidth = 1, g_CursorHeight = 1,
          g_CursorHotspotX = 5, g_CursorHotspotY = 6\<rparr> \<and>
   DrawCursorOnTexture demo_env
     \<lparr>g_CursorBuffer = None, g_CursorWidth = 1, g_CursorHeight = 1,
      g_CursorHotspotX = 5, g_CursorHotspotY = 6\<rparr> demo_canvas 3 0 = demo_canvas \<and>
   pointerShape failed_fetch_frame = ShapeFetchFailed \<and>
   desktopTexture failed_fetch_frame \<noteq> None \<and>
   (\<exists>s1. acquired_frame failed_fetch_frame (dxgi_started\<lparr>cursor := demo_cursor\<rparr>) = Inr s1 \<and>
         cursor s1 = demo_cursor) \<and>
   UpdateCursorShape mask2x2_info short_mask_bytes demo_cursor = Inl OutOfBounds"
proof -
  let ?s = "dxgi_started\<lparr>cursor := demo_cursor\<rparr>"
  have h1: "shape_Type odd_shape \<notin> {DXGI_OUTDUPL_POINTER_SHAPE_TYPE_MONOCHROME,
                          DXGI_OUTDUPL_POINTER_SHAPE_TYPE_COLOR,
                          DXGI_OUTDUPL_POINTER_SHAPE_TYPE_MASKED_COLOR}"
    by (simp add: odd_shape_def shape_type_defs)
  have h2: "pointerShape failed_fetch_frame = ShapeFetchFailed"
    "desktopTexture failed_fetch_frame \<noteq> None"
    "desktopTexture failed_fetch_frame \<noteq> None \<longrightarrow> g_StagingTexture ?s \<noteq> None"
    by (simp_all add: failed_fetch_frame_def dxgi_started_def)
  have h3: "shape_Type mask2x2_info = DXGI_OUTDUPL_POINTER_SHAPE_TYPE_MONOCHROME"
    "0 < unat (shape_Width mask2x2_info)" "0 < unat (shape_Height mask2x2_info) div 2"
    "length short_mask_bytes \<le> (unat (shape_Height mask2x2_info) div 2) * unat (shape_Pitch mask2x2_info)"
    "(unat (shape_Height mask2x2_info) div 2) * unat (shape_Pitch mask2x2_info) < 4294967296"
    "unat (shape_Width mask2x2_info) + 7 < 2147483648"
    "unat (shape_Width mask2x2_info) * (unat (shape_Height mask2x2_info) div 2) * 4 < 2147483648"
    by (simp_all add: mask2x2_info_def short_mask_bytes_def shape_type_defs)
  have a: "UpdateCursorShape odd_shape [1, 2, 3, 4] demo_cursor =
     Inr \<lparr>g_CursorBuffer = None, g_CursorWidth = 1, g_CursorHeight = 1,
          g_CursorHotspotX = 5, g_CursorHotspotY = 6\<rparr> \<and>
   DrawCursorOnTexture demo_env
     \<lparr>g_CursorBuffer = None, g_CursorWidth = 1, g_CursorHeight = 1,
      g_CursorHotspotX = 5, g_CursorHotspotY = 6\<rparr> demo_canvas 3 0 = demo_canvas"
    using unsupported_shape_drops_cursor
            [of odd_shape "[1, 2, 3, 4]" demo_cursor demo_env demo_canvas 3 0, THEN conjunct1] h1
    by (simp add: odd_shape_def)
  obtain s1 where run: "acquired_frame failed_fetch_frame ?s = Inr s1"
    using unsupported_shape_drops_cursor
            [where f = failed_fetch_frame and s = ?s,
             THEN conjunct2, THEN conjunct2, THEN conjunct1] h2
    by blast
  have "cursor s1 = cursor ?s"
    using unsupported_shape_drops_cursor
            [where f = failed_fetch_frame and s = ?s and s' = s1,
             THEN conjunct2, THEN conjunct1] h2(1) run
    by blast
  then have b: "\<exists>s1. acquired_frame failed_fetch_frame ?s = Inr s1 \<and> cursor s1 = demo_cursor"
    using run by auto
  have c: "UpdateCursorShape mask2x2_info short_mask_bytes demo_cursor = Inl OutOfBounds"
    using unsupported_shape_drops_cursor
            [where info = mask2x2_info and shapeBuffer = short_mask_bytes and st = demo_cursor,
             THEN conjunct2, THEN conjunct2, THEN conjunct2] h3
    by blast
  show ?thesis using h1 h2(1,2) a b c by blast
qed

subsection \<open>The composite of main.cpp\<close>

text \<open>What a frame leaves in the composite of main.cpp: the source, texel for texel.\<close>

lemma RenderFrame_copies:
  assumes "m_DeskDupl s \<noteq> None"
      and "tex_Width (g_CompositeTexture s) = OUTPUT_WIDTH"
      and "tex_Height (g_CompositeTexture s) = OUTPUT_HEIGHT"
  shows "\<exists>s'. RenderFrame (S_OK \<lparr>desktopTexture = Some d, pointerShape = ps\<rparr>) s = Inr s' \<and>
              m_screen s' = g_CompositeTexture s' \<and>
              (\<forall>x y. texel (g_CompositeTexture s') x y =
                 (if 0 \<le> x \<and> x < RENDER_WIDTH \<and> 0 \<le> y \<and> y < RENDER_HEIGHT
                  then texel d x y else texel (g_CompositeTexture s) x y))"
  using assms
  by (auto simp: RenderFrame_def present_composite_def CopySubresourceRegion_def Let_def
                 geometry_defs)

text \<open>
  Claim C3, at main.cpp. A frame whose colour encodes the source column is presented with
  the same column code at the columns 0, 720 and 1439 of the render region: column 1439 of
  the canvas shows source column 1439 (code 159, 5), not the last source column 1919
  (code 127, 7). The render region is the left 1440 columns of the source, cropped, not
  the whole source resampled.
\<close>

theorem RenderFrame_crops:
  "\<exists>s'. RenderFrame (S_OK column_coded_frame) composite_started = Inr s' \<and>
        texel (m_screen s') 0 0 = texel column_coded 0 0 \<and>
        texel (m_screen s') 720 540 = texel column_coded 720 540 \<and>
        texel (m_screen s') 1439 1079 = texel column_coded 1439 1079 \<and>
        texel (m_screen s') 1439 1079 = BGRA 159 5 0 255 \<and>
        texel column_coded 1919 1079 = BGRA 127 7 0 255"
  by (simp add: RenderFrame_def present_composite_def CopySubresourceRegion_def Let_def
        geometry_defs composite_started_def column_coded_frame_def column_coded_def)

subsection \<open>Ticks without a new frame\<close>







lemma cdiv_nonneg: "0 \<le> a \<Longrightarrow> 0 < b \<Longrightarrow> cdiv a b = a div b"
  by (cases "a = 0") (simp_all add: cdiv_def)






subsection \<open>The pad region\<close>









lemma draw_pointer_uncovered:
  assumes P: "4 * tex_Width t \<le> RowPitch (draw env)"
      and n: "\<not> cursor_covers env cur x y"
  shows "texel (draw_pointer env cur t) x y = texel t x y"
proof (cases "GetCursorPos env")
  case None
  then show ?thesis by (simp add: draw_pointer_def)
next
  case (Some p)
  obtain px py where p: "p = (px, py)" by (cases p)
  let ?cx = "cdiv ((px - FIRST_MONITOR_X) * RENDER_WIDTH) SOURCE_WIDTH"
  let ?cy = "py - FIRST_MONITOR_Y"
  have D: "texel (DrawCursorOnTexture (draw env) cur t ?cx ?cy) x y = texel t x y"
  proof (cases "g_CursorBuffer cur = None \<or> g_CursorWidth cur = 0 \<or> g_CursorHeight cur = 0 \<or>
                \<not> staging_created (draw env) \<or> \<not> map_succeeded (draw env)")
    case True
    then show ?thesis
      by (auto simp: DrawCursorOnTexture_def Let_def split: option.splits)
  next
    case False
    then obtain cb where cb: "g_CursorBuffer cur = Some cb" by auto
    have "\<not> (0 \<le> x - (?cx - g_CursorHotspotX cur) \<and>
              x - (?cx - g_CursorHotspotX cur) < g_CursorWidth cur \<and>
              0 \<le> y - (?cy - g_CursorHotspotY cur) \<and>
              y - (?cy - g_CursorHotspotY cur) < g_CursorHeight cur)"
      using n Some p by (simp add: cursor_covers_def Let_def)
    with False cb P show ?thesis
      by (intro draw_uncovered [where cb = cb]) auto
  qed
  show ?thesis
    using Some p D by (simp add: draw_pointer_def Let_def)
qed








subsection \<open>The cursor position\<close>

lemma c_int_of_int: "c_int (of_int a) = a"
  by (simp add: c_int_def)

lemma c_int_div:
  assumes "0 < b"
  shows "c_int (of_int a / of_int b) = cdiv a b"
proof (cases "0 \<le> a")
  case True
  then have "(0 :: rat) \<le> of_int a / of_int b" using assms by simp
  then have "c_int (of_int a / of_int b) = a div b"
    by (simp add: c_int_def floor_divide_of_int_eq)
  moreover have "cdiv a b = a div b"
    using True assms by (rule cdiv_nonneg)
  ultimately show ?thesis by simp
next
  case False
  then have neg: "a < 0" by simp
  then have "of_int a / of_int b < (0 :: rat)" using assms by (simp add: divide_neg_pos)
  then have "c_int (of_int a / of_int b) = \<lceil>(of_int a / of_int b :: rat)\<rceil>"
    by (simp add: c_int_def)
  also have "\<dots> = - \<lfloor>(of_int (- a) / of_int b :: rat)\<rfloor>"
    by (simp add: ceiling_def)
  also have "\<dots> = - ((- a) div b)"
    by (simp only: floor_divide_of_int_eq)
  finally have 1: "c_int (of_int a / of_int b) = - ((- a) div b)" .
  have "cdiv a b = - (\<bar>a\<bar> div \<bar>b\<bar>)"
    using neg assms by (simp add: cdiv_def)
  then have "cdiv a b = - ((- a) div b)" using neg assms by simp
  with 1 show ?thesis by simp
qed

lemma scaled_x: "c_int (of_int cx * scaleX) = cdiv (cx * RENDER_WIDTH) SOURCE_WIDTH"
proof -
  have e: "of_int cx * scaleX = (of_int (cx * RENDER_WIDTH) / of_int SOURCE_WIDTH :: rat)"
    by (simp add: scaleX_def)
  have b: "0 < SOURCE_WIDTH" by (simp add: SOURCE_WIDTH_def)
  show ?thesis unfolding e using b by (rule c_int_div)
qed

lemma scaled_y: "c_int (of_int cy * scaleY) = cy"
  by (simp add: scaleY_def geometry_defs c_int_of_int)

lemma scaled_hot_x: "c_int (of_nat h * scaleX) = (int h * RENDER_WIDTH) div SOURCE_WIDTH"
proof -
  have "c_int (of_int (int h) * scaleX) = cdiv (int h * RENDER_WIDTH) SOURCE_WIDTH"
    by (rule scaled_x)
  also have "\<dots> = (int h * RENDER_WIDTH) div SOURCE_WIDTH"
    by (intro cdiv_nonneg) (simp_all add: geometry_defs)
  finally show ?thesis by simp
qed

lemma scaled_hot_y: "c_int (of_nat h * scaleY) = int h"
  using scaled_y [of "int h"] by simp

text \<open>
  What the two programs compute. Both translate the pointer position into source-relative
  coordinates and scale it by the two scale factors, the fraction dropped (x * 1440 / 1920
  and y unchanged), and neither draws a cursor when the unscaled position lies outside
  the source rectangle. main_dxgi.cpp then draws the bitmap with its top left corner at
  the scaled position minus the hot spot, touching no texel outside that rectangle;
  main_gdi.cpp subtracts the hot spot scaled by the same factors, fraction dropped.
\<close>

lemma position_mapping:
  "c_int (of_int cx * scaleX) = cdiv (cx * RENDER_WIDTH) SOURCE_WIDTH \<and>
   c_int (of_int cy * scaleY) = cy \<and>
   (GetCursorPos env = Some (px, py) \<longrightarrow>
    0 \<le> px - FIRST_MONITOR_X \<and> px - FIRST_MONITOR_X < SOURCE_WIDTH \<and>
    0 \<le> py - FIRST_MONITOR_Y \<and> py - FIRST_MONITOR_Y < SOURCE_HEIGHT \<longrightarrow>
    g_CursorBuffer cur \<noteq> None \<longrightarrow>
      draw_pointer env cur t =
        DrawCursorOnTexture (draw env) cur t
          (c_int (of_int (px - FIRST_MONITOR_X) * scaleX))
          (c_int (of_int (py - FIRST_MONITOR_Y) * scaleY))) \<and>
   (4 * tex_Width t \<le> RowPitch (draw env) \<longrightarrow> \<not> cursor_covers env cur x y \<longrightarrow>
      texel (draw_pointer env cur t) x y = texel t x y) \<and>
   (GetCursorPos env = Some (px, py) \<longrightarrow>
    \<not> (0 \<le> px - FIRST_MONITOR_X \<and> px - FIRST_MONITOR_X < SOURCE_WIDTH \<and>
       0 \<le> py - FIRST_MONITOR_Y \<and> py - FIRST_MONITOR_Y < SOURCE_HEIGHT) \<longrightarrow>
      draw_pointer env cur t = t) \<and>
   (0 \<le> gx - FIRST_MONITOR_X \<longrightarrow>
      gdi_cursor_dest (gx, gy) hotX hotY =
        (((gx - FIRST_MONITOR_X) * RENDER_WIDTH) div SOURCE_WIDTH
           - (int hotX * RENDER_WIDTH) div SOURCE_WIDTH,
         (gy - FIRST_MONITOR_Y) - int hotY)) \<and>
   (GetCursorInfo genv = Some ci \<longrightarrow>
    \<not> (0 \<le> fst (ptScreenPos ci) - FIRST_MONITOR_X \<and>
       fst (ptScreenPos ci) - FIRST_MONITOR_X < SOURCE_WIDTH \<and>
       0 \<le> snd (ptScreenPos ci) - FIRST_MONITOR_Y \<and>
       snd (ptScreenPos ci) - FIRST_MONITOR_Y < SOURCE_HEIGHT) \<longrightarrow>
      g_pBitmapBits (CaptureAndRender_gdi genv g) = StretchBlt genv (g_pBitmapBits g))"
proof (intro conjI impI)
  show "c_int (of_int cx * scaleX) = cdiv (cx * RENDER_WIDTH) SOURCE_WIDTH" by (rule scaled_x)
  show "c_int (of_int cy * scaleY) = cy" by (rule scaled_y)
next
  assume "GetCursorPos env = Some (px, py)"
    "0 \<le> px - FIRST_MONITOR_X \<and> px - FIRST_MONITOR_X < SOURCE_WIDTH \<and>
     0 \<le> py - FIRST_MONITOR_Y \<and> py - FIRST_MONITOR_Y < SOURCE_HEIGHT"
    "g_CursorBuffer cur \<noteq> None"
  then show "draw_pointer env cur t =
        DrawCursorOnTexture (draw env) cur t
          (c_int (of_int (px - FIRST_MONITOR_X) * scaleX))
          (c_int (of_int (py - FIRST_MONITOR_Y) * scaleY))"
    unfolding scaled_x scaled_y by (auto simp: draw_pointer_def Let_def)
next
  assume "4 * tex_Width t \<le> RowPitch (draw env)" "\<not> cursor_covers env cur x y"
  then show "texel (draw_pointer env cur t) x y = texel t x y"
    by (rule draw_pointer_uncovered)
next
  assume "GetCursorPos env = Some (px, py)"
    "\<not> (0 \<le> px - FIRST_MONITOR_X \<and> px - FIRST_MONITOR_X < SOURCE_WIDTH \<and>
       0 \<le> py - FIRST_MONITOR_Y \<and> py - FIRST_MONITOR_Y < SOURCE_HEIGHT)"
  then show "draw_pointer env cur t = t"
    by (auto simp: draw_pointer_def Let_def)
next
  assume "0 \<le> gx - FIRST_MONITOR_X"
  then have "cdiv ((gx - FIRST_MONITOR_X) * RENDER_WIDTH) SOURCE_WIDTH =
               ((gx - FIRST_MONITOR_X) * RENDER_WIDTH) div SOURCE_WIDTH"
    by (intro cdiv_nonneg) (simp_all add: geometry_defs)
  then show "gdi_cursor_dest (gx, gy) hotX hotY =
        (((gx - FIRST_MONITOR_X) * RENDER_WIDTH) div SOURCE_WIDTH
           - (int hotX * RENDER_WIDTH) div SOURCE_WIDTH,
         (gy - FIRST_MONITOR_Y) - int hotY)"
    unfolding gdi_cursor_dest_def fst_conv snd_conv scaled_x scaled_y scaled_hot_x scaled_hot_y
    by simp
next
  assume ci: "GetCursorInfo genv = Some ci"
    and out: "\<not> (0 \<le> fst (ptScreenPos ci) - FIRST_MONITOR_X \<and>
       fst (ptScreenPos ci) - FIRST_MONITOR_X < SOURCE_WIDTH \<and>
       0 \<le> snd (ptScreenPos ci) - FIRST_MONITOR_Y \<and>
       snd (ptScreenPos ci) - FIRST_MONITOR_Y < SOURCE_HEIGHT)"
  have c: "g_pBitmapBits (cache_cursor genv ci u) = g_pBitmapBits u" for u
    by (simp add: cache_cursor_def Let_def split: option.splits prod.splits)
  show "g_pBitmapBits (CaptureAndRender_gdi genv g) = StretchBlt genv (g_pBitmapBits g)"
    using ci out
    by (auto simp: CaptureAndRender_gdi_def Let_def c split: prod.splits)
qed

text \<open>
  The pointer one column past the source, at (1920, 0): the position scales to x = 1440
  and neither program draws the cursor.
\<close>

lemma pointer_past_edge_not_drawn:
  "c_int (of_int 1920 * scaleX) = 1440 \<and>
   draw_pointer (timeout_tick (1920, 0)) dot_cursor (blank OUTPUT_WIDTH OUTPUT_HEIGHT) =
     blank OUTPUT_WIDTH OUTPUT_HEIGHT \<and>
   g_pBitmapBits (CaptureAndRender_gdi (gdi_demo_env\<lparr>GetCursorInfo := Some pointer_past_edge\<rparr>)
                    (InitGDI (\<lambda>i. 0))) =
     StretchBlt (gdi_demo_env\<lparr>GetCursorInfo := Some pointer_past_edge\<rparr>)
       (g_pBitmapBits (InitGDI (\<lambda>i. 0)))"
proof -
  let ?g = "gdi_demo_env\<lparr>GetCursorInfo := Some pointer_past_edge\<rparr>"
  have a: "c_int (of_int 1920 * scaleX) = 1440"
    using scaled_x [of 1920] by (simp add: geometry_defs cdiv_def)
  have p1: "GetCursorPos (timeout_tick (1920, 0)) = Some (1920, 0)"
    by (simp add: timeout_tick_def)
  have b: "draw_pointer (timeout_tick (1920, 0)) dot_cursor (blank OUTPUT_WIDTH OUTPUT_HEIGHT) =
             blank OUTPUT_WIDTH OUTPUT_HEIGHT"
    using position_mapping [where env = "timeout_tick (1920, 0)" and px = 1920 and py = 0
            and cur = dot_cursor and t = "blank OUTPUT_WIDTH OUTPUT_HEIGHT",
            THEN conjunct2, THEN conjunct2, THEN conjunct2, THEN conjunct2, THEN conjunct1] p1
    by (simp add: geometry_defs)
  have gi: "GetCursorInfo ?g = Some pointer_past_edge" by simp
  have f: "g_pBitmapBits (CaptureAndRender_gdi ?g (InitGDI (\<lambda>i. 0))) =
             StretchBlt ?g (g_pBitmapBits (InitGDI (\<lambda>i. 0)))"
    using position_mapping [where genv = ?g and ci = pointer_past_edge and g = "InitGDI (\<lambda>i. 0)",
            THEN conjunct2, THEN conjunct2, THEN conjunct2, THEN conjunct2, THEN conjunct2,
            THEN conjunct2] gi
    by (simp add: pointer_past_edge_def geometry_defs)
  show ?thesis using a b f by blast
qed

lemma tip_pointer_dxgi:
  "draw_pointer (timeout_tick (100, 50)) tip_cursor t =
     DrawCursorOnTexture draw_ok tip_cursor t 75 50"
  by (simp add: draw_pointer_def timeout_tick_def tip_cursor_def geometry_defs cdiv_def Let_def)

lemma tip_dest_gdi: "gdi_cursor_dest (100, 50) 10 0 = (68, 50)"
proof -
  have x: "c_int (100 * scaleX) = 75" using scaled_x [of 100] by (simp add: geometry_defs cdiv_def)
  have y: "c_int (50 * scaleY) = 50" using scaled_y [of 50] by simp
  have hx: "c_int (10 * scaleX) = 7" using scaled_hot_x [of 10] by (simp add: geometry_defs)
  have hy: "c_int 0 = 0" by (simp add: c_int_def)
  show ?thesis
    by (simp add: gdi_cursor_dest_def geometry_defs x y hx hy)
qed

text \<open>
  Claim C6. main_gdi.cpp does not subtract the hot spot from the scaled position: it
  scales the hot spot too, although \<^verbatim>\<open>DrawIconEx\<close> draws the icon in its own size. With the
  pointer at (100, 50), which scales to (75, 50), and a hot spot ten columns into the
  cursor, the icon is placed at x = 68 and its hot spot pixel lands at column 78, three
  columns to the right of the pointer; the pixel under the pointer keeps the desktop's
  colour. main_dxgi.cpp, for the same pointer and hot spot, places the bitmap at x = 65
  and its hot spot pixel at column 75.
\<close>

theorem gdi_scales_hotspot:
  "gdi_cursor_dest (100, 50) 10 0 = (68, 50) \<and>
   g_pBitmapBits (CaptureAndRender_gdi tip_env (InitGDI (\<lambda>i. 0))) (50 * OUTPUT_WIDTH + 78) =
     0xFFFFFFFF \<and>
   g_pBitmapBits (CaptureAndRender_gdi tip_env (InitGDI (\<lambda>i. 0))) (50 * OUTPUT_WIDTH + 75) =
     0xFF000000 \<and>
   texel (draw_pointer (timeout_tick (100, 50)) tip_cursor (blank OUTPUT_WIDTH OUTPUT_HEIGHT))
     75 50 = BGRA 255 255 255 255 \<and>
   texel (draw_pointer (timeout_tick (100, 50)) tip_cursor (blank OUTPUT_WIDTH OUTPUT_HEIGHT))
     78 50 = BGRA 0 0 0 0"
proof -
  let ?t = "blank OUTPUT_WIDTH OUTPUT_HEIGHT"
  let ?g = "g_pBitmapBits (CaptureAndRender_gdi tip_env (InitGDI (\<lambda>i. 0)))"
  have g1: "?g (50 * OUTPUT_WIDTH + 78) = 0xFFFFFFFF"
    by (simp add: CaptureAndRender_gdi_def tip_env_def InitGDI_def cache_cursor_def
          hCursorToDraw_def tip_dest_gdi Let_def confined_def in_dib_def dib_x_def dib_y_def
          geometry_defs)
  have g2: "?g (50 * OUTPUT_WIDTH + 75) = 0xFF000000"
    by (simp add: CaptureAndRender_gdi_def tip_env_def InitGDI_def cache_cursor_def
          hCursorToDraw_def tip_dest_gdi Let_def confined_def in_dib_def dib_x_def dib_y_def
          geometry_defs StretchBlt_def)
  have cur: "g_CursorBuffer tip_cursor = Some (replicate 40 0 @ [255, 255, 255, 255])"
    "g_CursorWidth tip_cursor \<noteq> 0" "g_CursorHeight tip_cursor \<noteq> 0"
    by (simp_all add: tip_cursor_def)
  have env: "staging_created draw_ok" "map_succeeded draw_ok"
    and P: "4 * tex_Width ?t \<le> RowPitch draw_ok"
    by (simp_all add: draw_ok_def blank_def)
  have d1: "texel (DrawCursorOnTexture draw_ok tip_cursor ?t 75 50) 75 50 = BGRA 255 255 255 255"
    using draw_covered [OF cur env P, of 0 10 75 75 50 50]
    by (simp add: tip_cursor_def blank_def geometry_defs Let_def nth_append)
  have d2: "texel (DrawCursorOnTexture draw_ok tip_cursor ?t 75 50) 78 50 = texel ?t 78 50"
    by (rule draw_uncovered [OF cur env P]) (simp add: tip_cursor_def)
  show ?thesis
    using g1 g2 d1 d2 by (simp add: tip_dest_gdi tip_pointer_dxgi blank_def)
qed

subsection \<open>Frame pacing\<close>

lemma round_half_even_le: "q \<le> of_int N \<Longrightarrow> round_half_even q \<le> N"
proof -
  assume a: "q \<le> of_int N"
  then have f: "\<lfloor>q\<rfloor> \<le> N" by (simp add: floor_le_iff)
  show ?thesis
  proof (cases "\<lfloor>q\<rfloor> = N")
    case True
    have "of_int \<lfloor>q\<rfloor> \<le> q" by (rule of_int_floor_le)
    then have "q = of_int \<lfloor>q\<rfloor>" using a True by simp
    then have "q - of_int \<lfloor>q\<rfloor> = 0" by simp
    then show ?thesis using True by (simp add: round_half_even_def Let_def)
  next
    case False
    then have "\<lfloor>q\<rfloor> + 1 \<le> N" using f by simp
    then show ?thesis using f by (simp add: round_half_even_def Let_def)
  qed
qed

lemma round_half_even_ge: "of_int N \<le> q \<Longrightarrow> N \<le> round_half_even q"
proof -
  assume "of_int N \<le> q"
  then have "N \<le> \<lfloor>q\<rfloor>" by (simp add: le_floor_iff)
  then show ?thesis by (simp add: round_half_even_def Let_def)
qed

lemma binade_less:
  assumes "0 < r" "r < 2 ^ n" "0 < n"
  shows "binade r < int n"
proof (cases "1 \<le> r")
  case True
  have "of_int \<lfloor>r\<rfloor> \<le> r" by (rule of_int_floor_le)
  then have "of_int \<lfloor>r\<rfloor> < (2 ^ n :: rat)" using assms(2) by (rule le_less_trans)
  then have "(of_int \<lfloor>r\<rfloor> :: rat) < of_int (2 ^ n)" by simp
  then have "\<lfloor>r\<rfloor> < 2 ^ n" by (simp only: of_int_less_iff)
  then have "bitlen \<lfloor>r\<rfloor> \<le> int n" by (simp add: bitlen_le_iff_power)
  then show ?thesis using True assms(1) by (simp add: binade_def)
next
  case False
  have "0 \<le> bitlen (\<lceil>1 / r\<rceil> - 1)" by (rule bitlen_nonneg)
  then show ?thesis using False assms(1,3) by (simp add: binade_def)
qed

text \<open>
  \<open>binade\<close> is the binary exponent, and \<open>to_double\<close> moves a number by at most half a unit
  in the last of 53 places.
\<close>

lemma binade_bounds:
  assumes "r \<noteq> 0"
  shows "2 powi binade r \<le> \<bar>r\<bar> \<and> \<bar>r\<bar> < 2 powi (binade r + 1)"
proof (cases "1 \<le> \<bar>r\<bar>")
  case True
  define n where "n = \<lfloor>\<bar>r\<bar>\<rfloor>"
  define b where "b = bitlen n"
  have n1: "1 \<le> n" using True by (simp add: n_def le_floor_iff)
  then have n0: "0 < n" by simp
  have bb: "2 ^ nat (b - 1) \<le> n \<and> n < 2 ^ nat b"
    unfolding b_def using n0 by (rule bitlen_bounds)
  have b1: "1 \<le> b" unfolding b_def using n0 by (simp add: bitlen_ge_iff_power)
  have e: "binade r = b - 1" using True by (simp add: binade_def n_def b_def)
  have lo: "of_int n \<le> \<bar>r\<bar>" unfolding n_def by (rule of_int_floor_le)
  have hi: "\<bar>r\<bar> < of_int n + 1" unfolding n_def using floor_correct [of "\<bar>r\<bar>"] by simp
  have p1: "(2 :: rat) powi (b - 1) = 2 ^ nat (b - 1)"
    using b1 by (intro power_int_nonneg_exp) simp
  have p2: "(2 :: rat) powi (b - 1 + 1) = 2 ^ nat b"
    using b1 by (simp add: power_int_nonneg_exp)
  have A: "(of_int (2 ^ nat (b - 1)) :: rat) \<le> of_int n"
    using bb by (simp only: of_int_le_iff)
  have l: "(2 :: rat) ^ nat (b - 1) \<le> \<bar>r\<bar>"
    using order_trans [OF A lo] by simp
  have "n + 1 \<le> 2 ^ nat b" using bb by simp
  then have B: "(of_int (n + 1) :: rat) \<le> of_int (2 ^ nat b)" by (simp only: of_int_le_iff)
  have hi': "\<bar>r\<bar> < of_int (n + 1)" using hi by simp
  have h: "\<bar>r\<bar> < (2 :: rat) ^ nat b"
    using less_le_trans [OF hi' B] by simp
  show ?thesis unfolding e p1 p2 using l h by simp
next
  case False
  define q where "q = 1 / \<bar>r\<bar>"
  define c where "c = \<lceil>q\<rceil>"
  define m where "m = bitlen (c - 1)"
  have rp: "0 < \<bar>r\<bar>" using assms by simp
  have r1: "\<bar>r\<bar> < 1" using False by simp
  have q1: "1 < q" unfolding q_def using rp r1 by (simp add: less_divide_eq_1)
  have qc: "q \<le> of_int c" unfolding c_def by (rule le_of_int_ceiling)
  have cq: "of_int c - 1 < q" unfolding c_def using ceiling_correct [of q] by simp
  have "(of_int 1 :: rat) < of_int c" using q1 qc by simp
  then have c2: "1 < c" by (simp only: of_int_less_iff)
  then have c0: "0 < c - 1" by simp
  have bb: "2 ^ nat (m - 1) \<le> c - 1 \<and> c - 1 < 2 ^ nat m"
    unfolding m_def using c0 by (rule bitlen_bounds)
  have m1: "1 \<le> m" unfolding m_def using c0 by (simp add: bitlen_ge_iff_power)
  have e: "binade r = - m" using False by (simp add: binade_def m_def c_def q_def)
  have "c \<le> 2 ^ nat m" using bb by simp
  then have C: "(of_int c :: rat) \<le> of_int (2 ^ nat m)" by (simp only: of_int_le_iff)
  have qm: "q \<le> 2 ^ nat m" using order_trans [OF qc C] by simp
  have D: "(of_int (2 ^ nat (m - 1)) :: rat) \<le> of_int (c - 1)"
    using bb by (simp only: of_int_le_iff)
  have cq': "of_int (c - 1) < q" using cq by simp
  have mq: "(2 :: rat) ^ nat (m - 1) < q" using le_less_trans [OF D cq'] by simp
  have p1: "(2 :: rat) powi (- m) = 1 / 2 ^ nat m"
    using m1 by (simp add: power_int_minus power_int_nonneg_exp inverse_eq_divide)
  have "(2 :: rat) powi (- m + 1) = 2 powi (- (m - 1))" by simp
  also have "\<dots> = 1 / 2 ^ nat (m - 1)"
    using m1 by (simp only: power_int_minus inverse_eq_divide) (simp add: power_int_nonneg_exp)
  finally have p2: "(2 :: rat) powi (- m + 1) = 1 / 2 ^ nat (m - 1)" .
  have l: "1 / 2 ^ nat m \<le> \<bar>r\<bar>"
  proof -
    have "1 / \<bar>r\<bar> \<le> 2 ^ nat m" using qm by (simp add: q_def)
    then have "1 \<le> 2 ^ nat m * \<bar>r\<bar>" using rp by (simp add: pos_divide_le_eq)
    then show ?thesis by (simp add: pos_divide_le_eq mult.commute)
  qed
  have h: "\<bar>r\<bar> < 1 / 2 ^ nat (m - 1)"
  proof -
    have "2 ^ nat (m - 1) < 1 / \<bar>r\<bar>" using mq by (simp add: q_def)
    then have "2 ^ nat (m - 1) * \<bar>r\<bar> < 1" using rp by (simp add: pos_less_divide_eq)
    then show ?thesis by (simp add: pos_less_divide_eq mult.commute)
  qed
  show ?thesis unfolding e p1 p2 using l h by simp
qed

lemma round_half_even_near: "\<bar>of_int (round_half_even q) - q\<bar> \<le> 1 / 2"
proof -
  have "of_int \<lfloor>q\<rfloor> \<le> q" by (rule of_int_floor_le)
  moreover have "q < of_int \<lfloor>q\<rfloor> + 1" using floor_correct [of q] by simp
  ultimately show ?thesis
    by (simp add: round_half_even_def Let_def abs_le_iff)
qed

lemma to_double_near:
  assumes "r \<noteq> 0"
  shows "\<bar>to_double r - r\<bar> \<le> 2 powi (binade r - 53)"
proof -
  define u where "u = (2 :: rat) powi (binade r - 52)"
  have u0: "0 < u" by (simp add: u_def)
  have t: "to_double r = of_int (round_half_even (r / u)) * u"
    using assms by (simp add: to_double_def Let_def u_def)
  have "to_double r - r = (of_int (round_half_even (r / u)) - r / u) * u"
    using u0 by (simp add: t field_simps)
  then have "\<bar>to_double r - r\<bar> = \<bar>of_int (round_half_even (r / u)) - r / u\<bar> * u"
    using u0 by (simp add: abs_mult)
  also have "\<dots> \<le> 1 / 2 * u"
    using u0 round_half_even_near [of "r / u"] by (simp add: mult_le_cancel_right)
  also have "1 / 2 * u = 2 powi (binade r - 53)"
  proof -
    have "(2 :: rat) powi (binade r - 53 + 1) = 2 powi (binade r - 53) * 2 powi 1"
      by (rule power_int_add) simp
    then show ?thesis by (simp add: u_def)
  qed
  finally show ?thesis .
qed

lemma grid_step:
  assumes "e \<le> g"
  shows "(2 :: rat) powi g = of_int (2 ^ nat (g - e)) * 2 powi e"
proof -
  have "(2 :: rat) powi g = 2 powi ((g - e) + e)" by simp
  also have "\<dots> = 2 powi (g - e) * 2 powi e" by (rule power_int_add) simp
  also have "(2 :: rat) powi (g - e) = 2 ^ nat (g - e)"
    using assms by (intro power_int_nonneg_exp) simp
  finally show ?thesis by simp
qed

lemma to_double_grid:
  assumes "r \<noteq> 0"
  shows "to_double r = of_int (round_half_even (r / 2 powi (binade r - 52))) * 2 powi (binade r - 52)"
  using assms by (simp add: to_double_def Let_def)

lemma to_double_le:
  assumes r: "0 < r" and le: "r \<le> of_int k * 2 powi g" and g: "binade r - 52 \<le> g"
  shows "to_double r \<le> of_int k * 2 powi g"
proof -
  define u where "u = (2 :: rat) powi (binade r - 52)"
  define N where "N = k * 2 ^ nat (g - (binade r - 52))"
  have u0: "0 < u" by (simp add: u_def)
  have y: "of_int k * 2 powi g = of_int N * u"
    unfolding N_def u_def using grid_step [OF g] by simp
  have "r \<le> of_int N * u" using le y by simp
  then have "r / u \<le> of_int N" using u0 by (simp add: pos_divide_le_eq)
  then have "round_half_even (r / u) \<le> N" by (rule round_half_even_le)
  then have "(of_int (round_half_even (r / u)) :: rat) \<le> of_int N" by (simp only: of_int_le_iff)
  then have "of_int (round_half_even (r / u)) * u \<le> of_int N * u"
    using u0 by (simp add: mult_le_cancel_right)
  moreover have "to_double r = of_int (round_half_even (r / u)) * u"
    unfolding u_def using r by (intro to_double_grid) simp
  ultimately show ?thesis using y by simp
qed

lemma to_double_ge:
  assumes r: "0 < r" and le: "of_int k * 2 powi g \<le> r" and g: "binade r - 52 \<le> g"
  shows "of_int k * 2 powi g \<le> to_double r"
proof -
  define u where "u = (2 :: rat) powi (binade r - 52)"
  define N where "N = k * 2 ^ nat (g - (binade r - 52))"
  have u0: "0 < u" by (simp add: u_def)
  have y: "of_int k * 2 powi g = of_int N * u"
    unfolding N_def u_def using grid_step [OF g] by simp
  have "of_int N * u \<le> r" using le y by simp
  then have "of_int N \<le> r / u" using u0 by (simp add: pos_le_divide_eq)
  then have "N \<le> round_half_even (r / u)" by (rule round_half_even_ge)
  then have "(of_int N :: rat) \<le> of_int (round_half_even (r / u))" by (simp only: of_int_le_iff)
  then have "of_int N * u \<le> of_int (round_half_even (r / u)) * u"
    using u0 by (simp add: mult_le_cancel_right)
  moreover have "to_double r = of_int (round_half_even (r / u)) * u"
    unfolding u_def using r by (intro to_double_grid) simp
  ultimately show ?thesis using y by simp
qed

lemma to_double_of_int:
  assumes "0 \<le> n" "n < 2 ^ 53"
  shows "to_double (of_int n) = of_int n"
proof (cases "n = 0")
  case True
  then show ?thesis by (simp add: to_double_def)
next
  case False
  then have p: "0 < (of_int n :: rat)" using assms(1) by simp
  have "(of_int n :: rat) < of_int (2 ^ 53)" using assms(2) by (simp only: of_int_less_iff)
  then have "(of_int n :: rat) < 2 ^ 53" by simp
  then have "binade (of_int n) < int 53" using p by (intro binade_less) simp_all
  then have g: "binade (of_int n) - 52 \<le> 0" by simp
  have y: "(of_int n :: rat) = of_int n * 2 powi 0" by simp
  have "to_double (of_int n) \<le> of_int n * 2 powi 0"
    using p _ g by (rule to_double_le) simp
  moreover have "of_int n * 2 powi 0 \<le> to_double (of_int n)"
    using p _ g by (rule to_double_ge) simp
  ultimately show ?thesis by simp
qed

lemma grid49: "of_int m + of_int j / 2 ^ 49 = (of_int (m * 2 ^ 49 + j) * 2 powi (- 49) :: rat)"
  by (simp add: power_int_minus field_simps)

lemma below16_le:
  assumes "0 < r" "r < 16" "r \<le> of_int m + of_int j / 2 ^ 49"
  shows "to_double r \<le> of_int m + of_int j / 2 ^ 49"
proof -
  have "r < 2 ^ 4" using assms(2) by simp
  then have "binade r < int 4" using assms(1) by (intro binade_less) simp_all
  then have g: "binade r - 52 \<le> - 49" by simp
  show ?thesis
    using assms(1) assms(3) g unfolding grid49 by (rule to_double_le)
qed

lemma below16_ge:
  assumes "0 < r" "r < 16" "of_int m + of_int j / 2 ^ 49 \<le> r"
  shows "of_int m + of_int j / 2 ^ 49 \<le> to_double r"
proof -
  have "r < 2 ^ 4" using assms(2) by simp
  then have "binade r < int 4" using assms(1) by (intro binade_less) simp_all
  then have g: "binade r - 52 \<le> - 49" by simp
  show ?thesis
    using assms(1) assms(3) g unfolding grid49 by (rule to_double_ge)
qed

lemma quotient_gap_below:
  assumes f: "0 < f" "f \<le> 2 ^ 49" and lt: "of_int x / of_int f < (of_int m :: rat)"
  shows "of_int x / of_int f \<le> (of_int m - 1 / 2 ^ 49 :: rat)"
proof -
  have fp: "0 < (of_int f :: rat)" using f(1) by simp
  have "(of_int x :: rat) < of_int m * of_int f" using lt fp by (simp add: pos_divide_less_eq)
  then have "(of_int x :: rat) < of_int (m * f)" by simp
  then have "x < m * f" by (simp only: of_int_less_iff)
  then have "x + 1 \<le> m * f" by simp
  then have "(of_int (x + 1) :: rat) \<le> of_int (m * f)" by (simp only: of_int_le_iff)
  then have "(of_int x + 1 :: rat) \<le> of_int m * of_int f" by simp
  then have "(of_int x + 1) / of_int f \<le> (of_int m :: rat)" using fp by (simp add: pos_divide_le_eq)
  then have a: "of_int x / of_int f + 1 / of_int f \<le> (of_int m :: rat)"
    by (simp add: add_divide_distrib)
  have "(of_int f :: rat) \<le> of_int (2 ^ 49)" using f(2) by (simp only: of_int_le_iff)
  then have "(of_int f :: rat) \<le> 2 ^ 49" by simp
  then have "1 / 2 ^ 49 \<le> 1 / (of_int f :: rat)" using fp by (simp add: frac_le)
  then show ?thesis using a by linarith
qed

lemma quotient_gap_above:
  assumes f: "0 < f" "f \<le> 2 ^ 49" and lt: "(of_int m :: rat) < of_int x / of_int f"
  shows "(of_int m + 1 / 2 ^ 49 :: rat) \<le> of_int x / of_int f"
proof -
  have fp: "0 < (of_int f :: rat)" using f(1) by simp
  have "of_int m * of_int f < (of_int x :: rat)" using lt fp by (simp add: pos_less_divide_eq)
  then have "(of_int (m * f) :: rat) < of_int x" by simp
  then have "m * f < x" by (simp only: of_int_less_iff)
  then have "m * f + 1 \<le> x" by simp
  then have "(of_int (m * f + 1) :: rat) \<le> of_int x" by (simp only: of_int_le_iff)
  then have "(of_int m * of_int f + 1 :: rat) \<le> of_int x" by simp
  then have "(of_int m * of_int f + 1) / of_int f \<le> (of_int x / of_int f :: rat)"
    using fp by (simp add: divide_le_cancel)
  then have a: "of_int m + 1 / of_int f \<le> (of_int x / of_int f :: rat)"
    using fp by (simp add: add_divide_distrib)
  have "(of_int f :: rat) \<le> of_int (2 ^ 49)" using f(2) by (simp only: of_int_le_iff)
  then have "(of_int f :: rat) \<le> 2 ^ 49" by simp
  then have "1 / 2 ^ 49 \<le> 1 / (of_int f :: rat)" using fp by (simp add: frac_le)
  then show ?thesis using a by linarith
qed

lemma remaining_rounded:
  fixes x f :: int
  assumes f: "0 < f" "f \<le> 2 ^ 49" and x: "0 \<le> x"
      and lt: "of_int x / of_int f < (16 :: rat)"
  shows "to_double (of_int x / of_int f) < 16 \<and>
         0 \<le> to_double (16 - to_double (of_int x / of_int f)) \<and>
         to_double (16 - to_double (of_int x / of_int f)) < 2 ^ 32 \<and>
         \<lfloor>to_double (16 - to_double (of_int x / of_int f))\<rfloor> = \<lfloor>16 - (of_int x / of_int f :: rat)\<rfloor>"
proof (cases "x = 0")
  case True
  have "to_double (of_int 16) = of_int 16" by (rule to_double_of_int) simp_all
  then have "to_double 16 = 16" by simp
  then show ?thesis using True by (simp add: to_double_def)
next
  case False
  define r :: rat where "r = of_int x / of_int f"
  define E where "E = to_double r"
  define k where "k = \<lfloor>16 - r\<rfloor>"
  have fp: "0 < (of_int f :: rat)" using f(1) by simp
  have "0 < x" using False x by simp
  then have rp: "0 < r" using fp by (simp add: r_def)
  have r16: "r < 16" using lt by (simp add: r_def)
  have "r < of_int 16" using r16 by simp
  then have "r \<le> of_int 16 - 1 / 2 ^ 49"
    unfolding r_def using f by (intro quotient_gap_below)
  then have "r \<le> of_int 16 + of_int (- 1) / 2 ^ 49" by simp
  then have "E \<le> of_int 16 + of_int (- 1) / 2 ^ 49"
    unfolding E_def using rp r16 by (intro below16_le)
  then have E16: "E < 16" by simp
  have "of_int 0 < r" using rp by simp
  then have "of_int 0 + 1 / 2 ^ 49 \<le> r"
    unfolding r_def using f by (intro quotient_gap_above)
  then have "of_int 0 + of_int 1 / 2 ^ 49 \<le> r" by simp
  then have "of_int 0 + of_int 1 / 2 ^ 49 \<le> E"
    unfolding E_def using rp r16 by (intro below16_ge)
  then have Ep: "0 < E" by simp
  have k1: "of_int k \<le> 16 - r" unfolding k_def by (rule of_int_floor_le)
  have k2: "16 - r < of_int k + 1" unfolding k_def using floor_correct [of "16 - r"] by simp
  have "(of_int k :: rat) < of_int 16" using k1 rp by simp
  then have k15: "k < 16" by (simp only: of_int_less_iff)
  have "(of_int (- 1) :: rat) < of_int k" using k2 r16 by simp
  then have k0: "0 \<le> k" by (simp only: of_int_less_iff)
  have "r \<le> of_int (16 - k) + of_int 0 / 2 ^ 49" using k1 by simp
  then have "E \<le> of_int (16 - k) + of_int 0 / 2 ^ 49"
    unfolding E_def using rp r16 by (intro below16_le)
  then have a1: "of_int k + of_int 0 / 2 ^ 49 \<le> 16 - E" by simp
  have "of_int (15 - k) < r" using k2 by simp
  then have "of_int (15 - k) + 1 / 2 ^ 49 \<le> r"
    unfolding r_def using f by (intro quotient_gap_above)
  then have "of_int (15 - k) + of_int 1 / 2 ^ 49 \<le> r" by simp
  then have "of_int (15 - k) + of_int 1 / 2 ^ 49 \<le> E"
    unfolding E_def using rp r16 by (intro below16_ge)
  then have a2: "16 - E \<le> of_int (k + 1) + of_int (- 1) / 2 ^ 49" by simp
  have p: "0 < 16 - E" using E16 by simp
  have q: "16 - E < 16" using Ep by simp
  have b1: "of_int k + of_int 0 / 2 ^ 49 \<le> to_double (16 - E)"
    using p q a1 by (rule below16_ge)
  have b2: "to_double (16 - E) \<le> of_int (k + 1) + of_int (- 1) / 2 ^ 49"
    using p q a2 by (rule below16_le)
  have c1: "of_int k \<le> to_double (16 - E)" using b1 by simp
  have c2: "to_double (16 - E) < of_int k + 1" using b2 by simp
  have fl: "\<lfloor>to_double (16 - E)\<rfloor> = k" using c1 c2 by (rule floor_unique)
  have "(of_int k :: rat) \<le> of_int 15" using k15 by (simp only: of_int_le_iff)
  then have "to_double (16 - E) < 16" using c2 by simp
  then have d1: "to_double (16 - E) < 2 ^ 32" by simp
  have "(of_int 0 :: rat) \<le> of_int k" using k0 by (simp only: of_int_le_iff)
  then have d0: "0 \<le> to_double (16 - E)" using c1 by simp
  show ?thesis
    using E16 d0 d1 fl unfolding E_def k_def r_def by simp
qed

lemma elapsed_rounded_late:
  fixes x f :: int
  assumes f: "0 < f" and x: "x < 2 ^ 53" and ge: "(16 :: rat) \<le> of_int x / of_int f"
  shows "16 \<le> to_double (of_int x / of_int f)"
proof -
  define r :: rat where "r = of_int x / of_int f"
  have fp: "1 \<le> (of_int f :: rat)" using f by simp
  have rp: "0 < r" using ge by (simp add: r_def)
  then have "0 < (of_int x :: rat)" using fp by (simp add: r_def zero_less_divide_iff)
  then have "r \<le> of_int x" unfolding r_def using fp by (simp add: divide_le_eq_1 pos_divide_le_eq mult_le_cancel_left1)
  moreover have "(of_int x :: rat) < of_int (2 ^ 53)" using x by (simp only: of_int_less_iff)
  ultimately have "r < 2 ^ 53" by simp
  then have "binade r < int 53" using rp by (intro binade_less) simp_all
  then have g: "binade r - 52 \<le> 0" by simp
  have "of_int 16 * 2 powi 0 \<le> r" using ge by (simp add: r_def)
  then have "of_int 16 * 2 powi 0 \<le> to_double r" using rp g by (intro to_double_ge)
  then show ?thesis by (simp add: r_def)
qed

lemma FRAME_TIME_MS_value: "FRAME_TIME_MS = 16"
  by (simp add: FRAME_TIME_MS_def TARGET_FPS_def cdiv_def)

lemma elapsedMs_in_range:
  assumes f: "0 < sint frequency" "sint frequency \<le> 2 ^ 49"
      and d: "sint lastTime \<le> sint currentTime"
             "(sint currentTime - sint lastTime) * 1000 < 2 ^ 53"
  shows "elapsedMs frequency lastTime currentTime =
           Inr (Finite (to_double (of_int ((sint currentTime - sint lastTime) * 1000)
                                     / of_int (sint frequency))))"
proof -
  define diff where "diff = sint currentTime - sint lastTime"
  have d0: "0 \<le> diff" using d(1) by (simp add: diff_def)
  have d1: "diff * 1000 < 2 ^ 53" using d(2) by (simp add: diff_def)
  have d2: "diff < 2 ^ 53" using d0 d1 by linarith
  have range: "\<not> (diff < - (2 ^ 63) \<or> 2 ^ 63 \<le> diff)" using d0 d2 by simp
  have t: "to_double (of_int diff) = of_int diff"
    using d0 d2 by (rule to_double_of_int)
  have "to_double (of_int (diff * 1000)) = of_int (diff * 1000)"
    using d0 d1 by (intro to_double_of_int) simp_all
  then have m: "to_double (of_int diff * 1000) = of_int (diff * 1000)" by simp
  define fq where "fq = sint frequency"
  have fq0: "0 < fq" and fq1: "fq \<le> 2 ^ 49" using f by (simp_all only: fq_def)
  have "fq < 2 ^ 53" using fq1 by simp
  then have fr: "to_double (of_int fq) = of_int fq"
    using fq0 by (intro to_double_of_int) simp_all
  have nz: "(of_int fq :: rat) \<noteq> 0" using fq0 by simp
  show ?thesis
    unfolding elapsedMs_def Let_def diff_def [symmetric] fq_def [symmetric]
    by (simp only: range if_False t m fr nz not_False_eq_True if_True)
qed

lemma frame_sleep_exact:
  assumes f: "0 < sint frequency" "sint frequency \<le> 2 ^ 49"
      and d: "sint lastTime \<le> sint currentTime"
             "(sint currentTime - sint lastTime) * 1000 < 2 ^ 53"
  shows "frame_sleep frequency lastTime currentTime =
           Inr (if of_int ((sint currentTime - sint lastTime) * 1000) / of_int (sint frequency)
                     < (16 :: rat)
                then Some (nat \<lfloor>16 - (of_int ((sint currentTime - sint lastTime) * 1000)
                                          / of_int (sint frequency) :: rat)\<rfloor>)
                else None)"
proof -
  define x where "x = (sint currentTime - sint lastTime) * 1000"
  define fq where "fq = sint frequency"
  have x0: "0 \<le> x" using d(1) by (simp add: x_def)
  have x1: "x < 2 ^ 53" using d(2) by (simp add: x_def)
  have e: "elapsedMs frequency lastTime currentTime =
             Inr (Finite (to_double (of_int x / of_int fq)))"
    unfolding x_def fq_def using f d by (rule elapsedMs_in_range)
  show ?thesis
  proof (cases "of_int x / of_int fq < (16 :: rat)")
    case True
    have R: "to_double (of_int x / of_int fq) < 16 \<and>
         0 \<le> to_double (16 - to_double (of_int x / of_int fq)) \<and>
         to_double (16 - to_double (of_int x / of_int fq)) < 2 ^ 32 \<and>
         \<lfloor>to_double (16 - to_double (of_int x / of_int fq))\<rfloor> = \<lfloor>16 - (of_int x / of_int fq :: rat)\<rfloor>"
      using f x0 True unfolding fq_def by (intro remaining_rounded)
    then have c: "c_int (to_double (16 - to_double (of_int x / of_int fq))) =
                    \<lfloor>16 - (of_int x / of_int fq :: rat)\<rfloor>"
      by (simp add: c_int_def)
    have "frame_sleep frequency lastTime currentTime =
            Inr (Some (nat \<lfloor>16 - (of_int x / of_int fq :: rat)\<rfloor>))"
      using R by (simp add: frame_sleep_def e FRAME_TIME_MS_value Let_def c)
    then show ?thesis using True unfolding x_def fq_def by simp
  next
    case False
    then have "(16 :: rat) \<le> of_int x / of_int fq" by simp
    then have "16 \<le> to_double (of_int x / of_int fq)"
      using f(1) x1 unfolding fq_def by (intro elapsed_rounded_late)
    then have "frame_sleep frequency lastTime currentTime = Inr None"
      by (simp add: frame_sleep_def e FRAME_TIME_MS_value)
    then show ?thesis using False unfolding x_def fq_def by simp
  qed
qed

text \<open>
  Claim C9 fails as stated. With a 10 MHz counter and 5000 counts elapsed (half a
  millisecond) 15.5 ms remain of the 16 ms the program takes as frame time, and the
  program calls \<^verbatim>\<open>Sleep(15)\<close>.
\<close>

theorem sleep_truncated_counterexample:
  "FRAME_TIME_MS = 16 \<and>
   of_int FRAME_TIME_MS - of_int (5000 * 1000) / of_int 10000000 = (31 / 2 :: rat) \<and>
   frame_sleep 10000000 0 5000 = Inr (Some 15) \<and>
   frame_timing 10000000 0 5000 =
     Inr [QueryPerformanceCounter, Sleep 15, QueryPerformanceCounter]"
proof -
  have h: "0 < sint (10000000 :: LONGLONG)" "sint (10000000 :: LONGLONG) \<le> 2 ^ 49"
    "sint (0 :: LONGLONG) \<le> sint (5000 :: LONGLONG)"
    "(sint (5000 :: LONGLONG) - sint (0 :: LONGLONG)) * 1000 < 2 ^ 53"
    by simp_all
  have fl: "\<lfloor>31 / 2 :: rat\<rfloor> = 15"
  proof -
    have "\<lfloor>(of_int 31 / of_int 2 :: rat)\<rfloor> = 31 div 2" by (rule floor_divide_of_int_eq)
    then show ?thesis by simp
  qed
  have s: "frame_sleep 10000000 0 5000 = Inr (Some 15)"
    unfolding frame_sleep_exact [OF h] by (simp add: fl)
  show ?thesis
    using s by (simp add: FRAME_TIME_MS_value frame_timing_def)
qed

text \<open>
  Claim C9 as amended. The frame time is the integer \<open>1000 / 60 = 16\<close> milliseconds. On
  every tick that ends without a fault the counter is read once at the end of the tick
  and once more before the next one, with at most one \<^verbatim>\<open>Sleep\<close> in between: there is no
  waiting loop. For a counter frequency of at most \<open>2^49\<close> Hz
  and an elapsed count whose thousandfold is below \<open>2^53\<close> (where the rounding of the
  \<^verbatim>\<open>double\<close>s changes no decision): when less than 16 ms have elapsed the thread sleeps
  once, for the remaining time with its fraction dropped, at most the remainder and less
  than one millisecond short of it; otherwise it does not sleep.
\<close>

theorem sleep_remaining_truncated:
  "FRAME_TIME_MS = 1000 div TARGET_FPS \<and> FRAME_TIME_MS = 16 \<and>
   (0 < sint frequency \<longrightarrow> sint frequency \<le> 2 ^ 49 \<longrightarrow>
    sint lastTime \<le> sint currentTime \<longrightarrow>
    (sint currentTime - sint lastTime) * 1000 < 2 ^ 53 \<longrightarrow>
      (let elapsed = (of_int ((sint currentTime - sint lastTime) * 1000)
                        / of_int (sint frequency) :: rat)
       in (elapsed < of_int FRAME_TIME_MS \<longrightarrow>
             (\<exists>n. frame_timing frequency lastTime currentTime =
                    Inr [QueryPerformanceCounter, Sleep n, QueryPerformanceCounter] \<and>
                  of_nat n \<le> of_int FRAME_TIME_MS - elapsed \<and>
                  of_int FRAME_TIME_MS - elapsed < of_nat n + 1)) \<and>
          (\<not> elapsed < of_int FRAME_TIME_MS \<longrightarrow>
             frame_timing frequency lastTime currentTime =
               Inr [QueryPerformanceCounter, QueryPerformanceCounter]))) \<and>
   (frame_timing frequency lastTime currentTime = Inr cs \<longrightarrow>
      cs = [QueryPerformanceCounter, QueryPerformanceCounter] \<or>
      (\<exists>n. cs = [QueryPerformanceCounter, Sleep n, QueryPerformanceCounter]))"
proof (intro conjI impI)
  assume "frame_timing frequency lastTime currentTime = Inr cs"
  then show "cs = [QueryPerformanceCounter, QueryPerformanceCounter] \<or>
      (\<exists>n. cs = [QueryPerformanceCounter, Sleep n, QueryPerformanceCounter])"
    by (auto simp: frame_timing_def split: sum.splits option.splits)
next
  show "FRAME_TIME_MS = 1000 div TARGET_FPS"
    by (simp add: FRAME_TIME_MS_def TARGET_FPS_def cdiv_def)
  show "FRAME_TIME_MS = 16" by (rule FRAME_TIME_MS_value)
next
  assume h: "0 < sint frequency" "sint frequency \<le> 2 ^ 49"
    "sint lastTime \<le> sint currentTime"
    "(sint currentTime - sint lastTime) * 1000 < 2 ^ 53"
  define elapsed :: rat where
    "elapsed = of_int ((sint currentTime - sint lastTime) * 1000) / of_int (sint frequency)"
  have s: "frame_sleep frequency lastTime currentTime =
             Inr (if elapsed < 16 then Some (nat \<lfloor>16 - elapsed\<rfloor>) else None)"
    unfolding elapsed_def using h by (rule frame_sleep_exact)
  have a: "\<exists>n. frame_timing frequency lastTime currentTime =
                    Inr [QueryPerformanceCounter, Sleep n, QueryPerformanceCounter] \<and>
                  of_nat n \<le> of_int FRAME_TIME_MS - elapsed \<and>
                  of_int FRAME_TIME_MS - elapsed < of_nat n + 1"
    if lt: "elapsed < of_int FRAME_TIME_MS"
  proof -
    let ?r = "16 - elapsed"
    have lt16: "elapsed < 16" using lt by (simp add: FRAME_TIME_MS_value)
    then have pos: "0 < ?r" by simp
    have f0: "0 \<le> \<lfloor>?r\<rfloor>" using pos by simp
    have n: "(of_nat (nat \<lfloor>?r\<rfloor>) :: rat) = of_int \<lfloor>?r\<rfloor>"
      using f0 by simp
    have "frame_timing frequency lastTime currentTime =
            Inr [QueryPerformanceCounter, Sleep (nat \<lfloor>?r\<rfloor>), QueryPerformanceCounter]"
      using lt16 by (simp add: frame_timing_def s)
    moreover have "of_nat (nat \<lfloor>?r\<rfloor>) \<le> ?r"
      unfolding n by (rule of_int_floor_le)
    moreover have "?r < of_nat (nat \<lfloor>?r\<rfloor>) + 1"
      unfolding n using floor_correct [of ?r] by simp
    ultimately show ?thesis
      unfolding FRAME_TIME_MS_value by (intro exI [of _ "nat \<lfloor>?r\<rfloor>"]) simp
  qed
  have b: "frame_timing frequency lastTime currentTime =
               Inr [QueryPerformanceCounter, QueryPerformanceCounter]"
    if "\<not> elapsed < of_int FRAME_TIME_MS"
    using that by (simp add: frame_timing_def s FRAME_TIME_MS_value)
  show "let elapsed = (of_int ((sint currentTime - sint lastTime) * 1000)
                        / of_int (sint frequency) :: rat)
       in (elapsed < of_int FRAME_TIME_MS \<longrightarrow>
             (\<exists>n. frame_timing frequency lastTime currentTime =
                    Inr [QueryPerformanceCounter, Sleep n, QueryPerformanceCounter] \<and>
                  of_nat n \<le> of_int FRAME_TIME_MS - elapsed \<and>
                  of_int FRAME_TIME_MS - elapsed < of_nat n + 1)) \<and>
          (\<not> elapsed < of_int FRAME_TIME_MS \<longrightarrow>
             frame_timing frequency lastTime currentTime =
               Inr [QueryPerformanceCounter, QueryPerformanceCounter])"
    unfolding Let_def elapsed_def [symmetric] using a b by blast
qed

theorem sleep_remaining_truncated_witness:
  "0 < sint (10000000 :: LONGLONG) \<and> sint (10000000 :: LONGLONG) \<le> 2 ^ 49 \<and>
   sint (0 :: LONGLONG) \<le> sint (5000 :: LONGLONG) \<and>
   (sint (5000 :: LONGLONG) - sint (0 :: LONGLONG)) * 1000 < 2 ^ 53 \<and>
   (of_int ((sint (5000 :: LONGLONG) - sint (0 :: LONGLONG)) * 1000)
      / of_int (sint (10000000 :: LONGLONG)) :: rat) < of_int FRAME_TIME_MS \<and>
   (\<exists>n. frame_timing 10000000 0 5000 =
          Inr [QueryPerformanceCounter, Sleep n, QueryPerformanceCounter] \<and>
        (of_nat n :: rat) \<le> 31 / 2 \<and> (31 / 2 :: rat) < of_nat n + 1) \<and>
   sint (0 :: LONGLONG) \<le> sint (200000 :: LONGLONG) \<and>
   (sint (200000 :: LONGLONG) - sint (0 :: LONGLONG)) * 1000 < 2 ^ 53 \<and>
   \<not> (of_int ((sint (200000 :: LONGLONG) - sint (0 :: LONGLONG)) * 1000)
        / of_int (sint (10000000 :: LONGLONG)) :: rat) < of_int FRAME_TIME_MS \<and>
   frame_timing 10000000 0 200000 = Inr [QueryPerformanceCounter, QueryPerformanceCounter] \<and>
   ([QueryPerformanceCounter, QueryPerformanceCounter] =
      [QueryPerformanceCounter, QueryPerformanceCounter] \<or>
    (\<exists>n. [QueryPerformanceCounter, QueryPerformanceCounter] =
          [QueryPerformanceCounter, Sleep n, QueryPerformanceCounter]))"
proof -
  have f: "FRAME_TIME_MS = 16"
    using sleep_remaining_truncated [of 1 0 0] by blast
  have h: "0 < sint (10000000 :: LONGLONG)" "sint (10000000 :: LONGLONG) \<le> 2 ^ 49"
    "sint (0 :: LONGLONG) \<le> sint (5000 :: LONGLONG)"
    "(sint (5000 :: LONGLONG) - sint (0 :: LONGLONG)) * 1000 < 2 ^ 53"
    "sint (0 :: LONGLONG) \<le> sint (200000 :: LONGLONG)"
    "(sint (200000 :: LONGLONG) - sint (0 :: LONGLONG)) * 1000 < 2 ^ 53"
    by simp_all
  have e1: "(of_int ((sint (5000 :: LONGLONG) - sint (0 :: LONGLONG)) * 1000)
      / of_int (sint (10000000 :: LONGLONG)) :: rat) = 1 / 2"
    by simp
  have e2: "(of_int ((sint (200000 :: LONGLONG) - sint (0 :: LONGLONG)) * 1000)
      / of_int (sint (10000000 :: LONGLONG)) :: rat) = 20"
    by simp
  have a: "\<exists>n. frame_timing 10000000 0 5000 =
          Inr [QueryPerformanceCounter, Sleep n, QueryPerformanceCounter] \<and>
        (of_nat n :: rat) \<le> 31 / 2 \<and> (31 / 2 :: rat) < of_nat n + 1"
    using sleep_remaining_truncated [of 10000000 0 5000] h(1-4)
    unfolding Let_def e1 f by simp
  have b: "frame_timing 10000000 0 200000 = Inr [QueryPerformanceCounter, QueryPerformanceCounter]"
    using sleep_remaining_truncated [of 10000000 0 200000] h(1,2,5,6)
    unfolding Let_def e2 f by simp
  have c: "[QueryPerformanceCounter, QueryPerformanceCounter] =
      [QueryPerformanceCounter, QueryPerformanceCounter] \<or>
    (\<exists>n. [QueryPerformanceCounter, QueryPerformanceCounter] =
          [QueryPerformanceCounter, Sleep n, QueryPerformanceCounter])"
    using sleep_remaining_truncated
            [of 10000000 0 200000 "[QueryPerformanceCounter, QueryPerformanceCounter]"] b
    by blast
  show ?thesis
    using h a b c unfolding e1 e2 f by simp
qed

subsection \<open>Size of the decoded bitmap\<close>

lemma collect_length:
  assumes "collect f js = Inr r"
      and "\<And>i v. i \<in> set js \<Longrightarrow> f i = Inr v \<Longrightarrow> length v = m"
  shows "length r = length js * m"
  using assms
proof (induction js arbitrary: r)
  case Nil
  then show ?case by simp
next
  case (Cons j js)
  from Cons.prems(1) obtain v rs where v: "f j = Inr v" and rs: "collect f js = Inr rs"
    and r: "r = v @ rs"
    by (auto split: sum.splits)
  have "length v = m" using Cons.prems(2) [of j v] v by simp
  moreover have "length rs = length js * m"
    using rs Cons.prems(2) by (intro Cons.IH) auto
  ultimately show ?case using r by simp
qed

lemma mono_pixel_length: "mono_pixel sb p h y x = Inr v \<Longrightarrow> length v = 4"
  by (auto simp: mono_pixel_def Let_def split: sum.splits if_splits)

lemma masked_pixel_length: "masked_pixel sb p y x = Inr v \<Longrightarrow> length v = 4"
  by (auto simp: masked_pixel_def Let_def split: sum.splits if_splits)

lemma color_row_length:
  assumes "color_row sb p w y = Inr v"
  shows "length v = nat (w * 4)"
proof -
  define off where "off = uint (word_of_int y * p :: UINT)"
  show ?thesis
  proof (cases "w * 4 = 0")
    case True
    then show ?thesis using assms by (simp add: color_row_def)
  next
    case False
    with assms have b: "off + w * 4 \<le> int (length sb)"
      and v: "v = take (nat (w * 4)) (drop (nat off) sb)"
      by (auto simp: color_row_def off_def Let_def split: if_splits)
    have "0 \<le> off" by (simp add: off_def)
    then have "nat (w * 4) \<le> length sb - nat off" using b by linarith
    then show ?thesis unfolding v by simp
  qed
qed

lemma grid_collect_length:
  assumes "collect (\<lambda>y. collect (f y) (loop_range w)) (loop_range h) = Inr buf"
      and "\<And>y x v. f y x = Inr v \<Longrightarrow> length v = 4"
  shows "length buf = nat h * nat w * 4"
proof -
  have row: "length v = nat w * 4" if "collect (f y) (loop_range w) = Inr v" for y v
    using collect_length [OF that, of 4] assms(2) by (simp add: length_loop_range)
  have "length buf = nat h * (nat w * 4)"
    using collect_length [OF assms(1), of "nat w * 4"] row by (simp add: length_loop_range)
  then show ?thesis by simp
qed

lemma new_BYTE_size:
  assumes "new_BYTE w h = Inr n"
  shows "int n = w * h * 4" and "0 \<le> w * h * 4"
  using assms
  by (auto simp: new_BYTE_def int_mul_def split: if_splits)

lemma stored_length:
  assumes a: "new_BYTE w h = Inr n" and c: "length cells = nat h * nat w * 4"
  shows "int (length (stored n cells)) = w * h * 4"
proof -
  have n: "int n = w * h * 4" and p: "0 \<le> w * h * 4"
    using a by (rule new_BYTE_size)+
  have "length cells \<le> n"
  proof (cases "0 \<le> w \<and> 0 \<le> h")
    case True
    then have "int (nat h * nat w * 4) = w * h * 4" by simp
    then have "int (length cells) = int n" using c n by simp
    then show ?thesis by simp
  next
    case False
    then have "nat h = 0 \<or> nat w = 0" by auto
    then have "nat h * nat w * 4 = 0" by auto
    then have "length cells = 0" using c by simp
    then show ?thesis by simp
  qed
  then have "length (stored n cells) = n" by (simp add: stored_def)
  then show ?thesis using n by simp
qed

text \<open>
  Every state \<^verbatim>\<open>UpdateCursorShape\<close> returns has a buffer of the size the two dimensions
  announce, so the reads of \<^verbatim>\<open>DrawCursorOnTexture\<close> stay inside it.
\<close>

lemma UpdateCursorShape_wf:
  assumes "UpdateCursorShape info sb st = Inr st'"
  shows "cursor_wf st'"
proof -
  let ?w = "sint (shape_Width info)" and ?h = "sint (shape_Height info)"
  let ?h2 = "sint (shape_Height info div 2)" and ?p = "shape_Pitch info"
  consider (mono) "shape_Type info = DXGI_OUTDUPL_POINTER_SHAPE_TYPE_MONOCHROME"
    | (color) "shape_Type info = DXGI_OUTDUPL_POINTER_SHAPE_TYPE_COLOR"
    | (masked) "shape_Type info = DXGI_OUTDUPL_POINTER_SHAPE_TYPE_MASKED_COLOR"
    | (other) "shape_Type info \<notin> {DXGI_OUTDUPL_POINTER_SHAPE_TYPE_MONOCHROME,
         DXGI_OUTDUPL_POINTER_SHAPE_TYPE_COLOR, DXGI_OUTDUPL_POINTER_SHAPE_TYPE_MASKED_COLOR}"
    by blast
  then show ?thesis
  proof cases
    case mono
    with assms obtain n cells where
      a: "new_BYTE ?w ?h2 = Inr n"
      and c: "collect (\<lambda>y. collect (mono_pixel sb ?p ?h2 y) (loop_range ?w))
            (loop_range ?h2) = Inr cells"
      and s: "st' = st\<lparr>g_CursorBuffer := Some (stored n cells), g_CursorWidth := ?w,
                       g_CursorHeight := ?h2,
                       g_CursorHotspotX := shape_HotSpot_x info,
                       g_CursorHotspotY := shape_HotSpot_y info\<rparr>"
      by (auto simp: UpdateCursorShape_def Let_def split: sum.splits)
    have "length cells = nat ?h2 * nat ?w * 4"
      using c by (rule grid_collect_length) (rule mono_pixel_length)
    then have "int (length (stored n cells)) = ?w * ?h2 * 4"
      by (rule stored_length [OF a])
    then show ?thesis by (simp add: cursor_wf_def s)
  next
    case color
    with assms obtain n cells where
      a: "new_BYTE ?w ?h = Inr n"
      and c: "collect (color_row sb ?p ?w) (loop_range ?h) = Inr cells"
      and s: "st' = st\<lparr>g_CursorBuffer := Some (stored n cells), g_CursorWidth := ?w,
                       g_CursorHeight := ?h,
                       g_CursorHotspotX := shape_HotSpot_x info,
                       g_CursorHotspotY := shape_HotSpot_y info\<rparr>"
      by (auto simp: UpdateCursorShape_def Let_def shape_type_defs split: sum.splits)
    have "length cells = length (loop_range ?h) * nat (?w * 4)"
      using c by (rule collect_length) (rule color_row_length)
    moreover have "nat (?w * 4) = nat ?w * 4" by linarith
    ultimately have "length cells = nat ?h * nat ?w * 4"
      by (simp add: length_loop_range)
    then have "int (length (stored n cells)) = ?w * ?h * 4"
      by (rule stored_length [OF a])
    then show ?thesis by (simp add: cursor_wf_def s)
  next
    case masked
    with assms obtain n cells where
      a: "new_BYTE ?w ?h = Inr n"
      and c: "collect (\<lambda>y. collect (masked_pixel sb ?p y) (loop_range ?w))
            (loop_range ?h) = Inr cells"
      and s: "st' = st\<lparr>g_CursorBuffer := Some (stored n cells), g_CursorWidth := ?w,
                       g_CursorHeight := ?h,
                       g_CursorHotspotX := shape_HotSpot_x info,
                       g_CursorHotspotY := shape_HotSpot_y info\<rparr>"
      by (auto simp: UpdateCursorShape_def Let_def shape_type_defs split: sum.splits)
    have "length cells = nat ?h * nat ?w * 4"
      using c by (rule grid_collect_length) (rule masked_pixel_length)
    then have "int (length (stored n cells)) = ?w * ?h * 4"
      by (rule stored_length [OF a])
    then show ?thesis by (simp add: cursor_wf_def s)
  next
    case other
    with assms show ?thesis
      by (auto simp: UpdateCursorShape_def Let_def cursor_wf_def)
  qed
qed

text \<open>
  For comparison, the draw of main_dxgi.cpp: the texel of column \<open>x\<close> of the render
  region is the sample at the fraction \<open>(x + 1/2) / 1440\<close> of the whole source width.
\<close>

lemma render_texel_drawn:
  assumes "0 \<le> x" "x < RENDER_WIDTH" "0 \<le> y" "y < OUTPUT_HEIGHT"
  shows "texel (Draw_quad smp (Some d) rt) x y =
           smp d ((of_int x + 1 / 2) / of_int RENDER_WIDTH)
                 ((of_int y + 1 / 2) / of_int RENDER_HEIGHT)"
proof -
  have "x \<le> 1439" using assms(2) by (simp add: RENDER_WIDTH_def)
  then have "(of_int x :: rat) \<le> of_int 1439" by (simp only: of_int_le_iff)
  then have u: "(of_int x + 1 / 2) / 1920 \<le> (3 / 4 :: rat)"
    by (simp add: field_simps)
  have s: "(of_int x + 1 / 2) / 1920 / (3 / 4) = ((of_int x + 1 / 2) / 1440 :: rat)"
    by (simp add: field_simps)
  have s2: "(of_int x * 4 + 2) / 5760 = ((of_int x + 1 / 2) / 1440 :: rat)"
    by (simp add: field_simps)
  have "texel (Draw_quad smp (Some d) rt) x y =
          smp d ((of_int x * 4 + 2) / 5760) ((of_int y + 1 / 2) / 1080)"
    using assms u s by (simp add: Draw_quad_def PS_def geometry_defs)
  then show ?thesis
    unfolding s2 by (simp add: geometry_defs)
qed

end
